theory Spec2Isabelle
  imports Complex_Main "HOL-Library.Word"
begin

unbundle bit_operations_syntax

section \<open>Machine types\<close>

type_synonym uint8 = "8 word"
type_synonym uint32 = "32 word"
type_synonym int64 = "64 word"
type_synonym uint64 = "64 word"

text \<open>
  A C++ \<open>double\<close> is given by its value, a real number; infinities and NaN are not part
  of the model. The operations on doubles round: the machine returns the exact result
  rounded to a double. That rounding is a parameter of the model (\<open>round_to_double\<close>
  below), a comparison of two doubles is the comparison of their values. The two
  sentinels of \<open>Muxer.cpp\<close> keep their numeric values, and the literal \<open>0.999999\<close>
  is the double nearest to that number, \<open>0x1.ffffde7210be9p-1\<close>.
\<close>

type_synonym double = real

definition DBL_MAX :: double where
  "DBL_MAX = 2 ^ 1024 - 2 ^ 971"

definition INVALID_STREAM :: nat where
  "INVALID_STREAM = 4294967295"

definition NOPTS_DOUBLE :: double where
  "NOPTS_DOUBLE = - DBL_MAX"

definition DOUBLE_0_999999 :: double where
  "DOUBLE_0_999999 = 9007190247541737 / 2 ^ 53"

section \<open>The muxer (\<open>Muxer.cpp\<close>)\<close>

subsection \<open>Data of the container library\<close>

text \<open>
  The container library's types. \<open>AVRational\<close> is a fraction, \<open>AVFrac\<close> the running
  timestamp \<open>val + num / den\<close> that the container keeps per stream, \<open>AV_NOPTS_VALUE\<close> the
  library's "unknown timestamp" constant (the smallest 64-bit signed value).
\<close>

record AVRational =
  num :: int
  den :: int

record AVFrac =
  val :: int
  frac_num :: int
  frac_den :: int

definition AV_NOPTS_VALUE :: int64 where
  "AV_NOPTS_VALUE = 0x8000000000000000"

record AVStream =
  pts :: AVFrac
  time_base :: AVRational
  codec_time_base :: AVRational

text \<open>\<open>buf_offset\<close> stands for the pointer difference \<open>buf_ptr - buffer\<close>.\<close>

record AVIOContext =
  pos :: int64
  buf_offset :: int64

record AVFormatContext =
  streams :: "AVStream list"
  pb :: AVIOContext

record AVPacket =
  pkt_pts :: int64
  pkt_dts :: int64
  stream_index :: nat
  pkt_data :: "uint8 list"

record AVPacketWrapper =
  GetPacket :: AVPacket
  m_free_on_destruct :: bool

text \<open>
  Functions that the muxer calls and that live outside \<open>Muxer.cpp\<close>: the two
  \<open>ToDouble\<close> overloads, the library's timestamp rescaling and its interleaved write
  (which returns a status and the container context as the library left it), and the
  rounding of the machine's floating-point unit. They are parameters of the model.
\<close>

record externals =
  ToDouble_AVFrac :: "AVFrac \<Rightarrow> double"
  ToDouble_AVRational :: "AVRational \<Rightarrow> double"
  av_rescale_q :: "int64 \<Rightarrow> AVRational \<Rightarrow> AVRational \<Rightarrow> int64"
  av_interleaved_write_frame :: "AVFormatContext \<Rightarrow> AVPacket \<Rightarrow> int \<times> AVFormatContext"
  round_to_double :: "real \<Rightarrow> double"

text \<open>
  The operations of \<open>Muxer.cpp\<close> on doubles: \<open>a * b\<close>, \<open>a - b\<close>, \<open>a / b\<close> and the cast
  \<open>(double) n\<close> of an unsigned 64-bit number.
\<close>

definition double_mul :: "externals \<Rightarrow> double \<Rightarrow> double \<Rightarrow> double" where
  "double_mul X a b = round_to_double X (a * b)"

definition double_sub :: "externals \<Rightarrow> double \<Rightarrow> double \<Rightarrow> double" where
  "double_sub X a b = round_to_double X (a - b)"

definition double_div :: "externals \<Rightarrow> double \<Rightarrow> double \<Rightarrow> double" where
  "double_div X a b = round_to_double X (a / b)"

definition uint64_to_double :: "externals \<Rightarrow> uint64 \<Rightarrow> double" where
  "uint64_to_double X n = round_to_double X (real (unat n))"

subsection \<open>Data of the muxer\<close>

record StreamData =
  m_is_done :: bool
  m_packet_queue :: "AVPacketWrapper list"

record SharedData =
  m_total_bytes :: uint64
  m_stats_actual_bit_rate :: double
  m_stats_previous_pts :: double
  m_stats_previous_bytes :: uint64

text \<open>
  \<open>m_thread_is_done\<close> is the muxer's own \<open>m_is_done\<close> signal (renamed: the per-stream
  flag has the same name in the source).
\<close>

record Muxer =
  m_format_context :: AVFormatContext
  m_stream_data :: "StreamData list"
  m_shared_data :: SharedData
  m_thread_is_done :: bool
  m_error_occurred :: bool

subsection \<open>The worker: selection of the oldest stream\<close>

definition stream_eligible :: "StreamData \<Rightarrow> bool" where
  "stream_eligible lock \<longleftrightarrow> \<not> m_is_done lock \<or> m_packet_queue lock \<noteq> []"

definition stream_seconds :: "externals \<Rightarrow> AVStream \<Rightarrow> double" where
  "stream_seconds X st =
     double_mul X (ToDouble_AVFrac X (pts st)) (ToDouble_AVRational X (time_base st))"

text \<open>
  The inner \<open>for\<close> loop of \<open>MuxerThread\<close>, from index \<open>i\<close> with the current
  \<open>(oldest_stream, oldest_pts)\<close>.
\<close>

function find_oldest ::
  "externals \<Rightarrow> AVFormatContext \<Rightarrow> StreamData list \<Rightarrow> nat \<Rightarrow> nat \<times> double \<Rightarrow> nat \<times> double"
where
  "find_oldest X ctx sd i (oldest_stream, oldest_pts) =
     (if i < length (streams ctx) then
        (if stream_eligible (sd ! i) then
           (let pts = stream_seconds X (streams ctx ! i) in
            if pts < oldest_pts then find_oldest X ctx sd (Suc i) (i, pts)
            else find_oldest X ctx sd (Suc i) (oldest_stream, oldest_pts))
         else find_oldest X ctx sd (Suc i) (oldest_stream, oldest_pts))
      else (oldest_stream, oldest_pts))"
  by pat_completeness auto
termination
  by (relation "measure (\<lambda>(X, ctx, sd, i, acc). length (streams ctx) - i)") auto

declare find_oldest.simps [simp del]

subsection \<open>The worker: one iteration\<close>

definition prepare_packet :: "externals \<Rightarrow> AVStream \<Rightarrow> nat \<Rightarrow> AVPacket \<Rightarrow> AVPacket" where
  "prepare_packet X st oldest_stream p0 =
     (let p1 = p0\<lparr>stream_index := oldest_stream\<rparr>;
          p2 = (if pkt_pts p1 \<noteq> AV_NOPTS_VALUE
                then p1\<lparr>pkt_pts := av_rescale_q X (pkt_pts p1) (codec_time_base st) (time_base st)\<rparr>
                else p1);
          p3 = (if pkt_dts p2 \<noteq> AV_NOPTS_VALUE
                then p2\<lparr>pkt_dts := av_rescale_q X (pkt_dts p2) (codec_time_base st) (time_base st)\<rparr>
                else p2)
      in p3)"

text \<open>
  The container's current file offset, \<open>pb->pos + (pb->buf_ptr - pb->buffer)\<close>, as the
  unsigned 64-bit number that \<open>m_total_bytes\<close> receives.
\<close>

definition file_offset :: "AVIOContext \<Rightarrow> uint64" where
  "file_offset io = pos io + buf_offset io"

definition update_byte_counter :: "externals \<Rightarrow> AVIOContext \<Rightarrow> double \<Rightarrow> SharedData \<Rightarrow> SharedData" where
  "update_byte_counter X io oldest_pts lock0 =
     (let lock1 = lock0\<lparr>m_total_bytes := file_offset io\<rparr>;
          lock2 = (if m_stats_previous_pts lock1 = NOPTS_DOUBLE
                   then lock1\<lparr>m_stats_previous_pts := oldest_pts,
                              m_stats_previous_bytes := m_total_bytes lock1\<rparr>
                   else lock1);
          timedelta = double_sub X oldest_pts (m_stats_previous_pts lock2)
      in if timedelta > DOUBLE_0_999999
         then lock2\<lparr>m_stats_actual_bit_rate :=
                      double_div X
                        (uint64_to_double X ((m_total_bytes lock2 - m_stats_previous_bytes lock2) * 8))
                        timedelta,
                    m_stats_previous_pts := oldest_pts,
                    m_stats_previous_bytes := m_total_bytes lock2\<rparr>
         else lock2)"

text \<open>
  What one pass through the body of \<open>for( ; ; )\<close> does: leave the loop, sleep 10 ms and
  retry, write a packet, or throw \<open>LibavException\<close> because the container refused the
  packet. The last two carry the packet as it was handed to the container.
\<close>

datatype iteration = Break | Wait | Wrote AVPacketWrapper | Throw AVPacketWrapper

definition MuxerThread_iteration :: "externals \<Rightarrow> Muxer \<Rightarrow> iteration \<times> Muxer" where
  "MuxerThread_iteration X m =
     (case find_oldest X (m_format_context m) (m_stream_data m) 0 (INVALID_STREAM, DBL_MAX) of
        (oldest_stream, oldest_pts) \<Rightarrow>
          if oldest_stream = INVALID_STREAM then (Break, m)
          else
            (let lock = m_stream_data m ! oldest_stream in
             case m_packet_queue lock of
               [] \<Rightarrow> (Wait, m)
             | packet # rest \<Rightarrow>
                 (let m1 = m\<lparr>m_stream_data :=
                               (m_stream_data m)[oldest_stream := lock\<lparr>m_packet_queue := rest\<rparr>]\<rparr>;
                      st = streams (m_format_context m1) ! oldest_stream;
                      packet1 = packet\<lparr>GetPacket := prepare_packet X st oldest_stream (GetPacket packet)\<rparr>
                  in case av_interleaved_write_frame X (m_format_context m1) (GetPacket packet1) of
                       (ret, ctx) \<Rightarrow>
                         if ret \<noteq> 0 then (Throw packet1, m1\<lparr>m_format_context := ctx\<rparr>)
                         else
                           (let packet2 = packet1\<lparr>m_free_on_destruct := False\<rparr>;
                                m2 = m1\<lparr>m_format_context := ctx\<rparr>;
                                m3 = m2\<lparr>m_shared_data :=
                                          update_byte_counter X (pb (m_format_context m2)) oldest_pts
                                            (m_shared_data m2)\<rparr>
                            in (Wrote packet2, m3)))))"

text \<open>
  The whole thread. The encoders run concurrently and fill the queues or end streams
  between two iterations: \<open>sched\<close> lists, per iteration, what they did to the stream
  data before the worker looked. The result is \<open>None\<close> while the worker is still in its
  loop when the schedule ends.
\<close>

fun MuxerThread :: "externals \<Rightarrow> (StreamData list \<Rightarrow> StreamData list) list \<Rightarrow> Muxer \<Rightarrow> Muxer option" where
  "MuxerThread X [] m = None"
| "MuxerThread X (encoders # sched) m =
     (case MuxerThread_iteration X (m\<lparr>m_stream_data := encoders (m_stream_data m)\<rparr>) of
        (Break, m') \<Rightarrow> Some (m'\<lparr>m_thread_is_done := True\<rparr>)
      | (Throw p, m') \<Rightarrow> Some (m'\<lparr>m_error_occurred := True\<rparr>)
      | (Wait, m') \<Rightarrow> MuxerThread X sched m'
      | (Wrote p, m') \<Rightarrow> MuxerThread X sched m')"

section \<open>The capture channel (\<open>GLFrameGrabber.cpp\<close>)\<close>

subsection \<open>Shared memory layout\<close>

text \<open>
  The declarations of \<open>ShmStructs.h\<close> and the helpers of \<open>Global.h\<close> are not among
  the source files. The header and the frame descriptor have the fields that
  \<open>GLFrameGrabber.cpp\<close> uses; the unsigned fields are 32 bits wide, as the
  \<open>unsigned int\<close> locals and members that receive them. The flag bits and the two
  structure sizes are parameters. Times are microseconds as unbounded integers.
\<close>

record GLInjectHeader =
  ring_buffer_size :: uint32
  max_bytes :: uint32
  target_fps :: uint32
  flags :: uint32
  current_width :: uint32
  current_height :: uint32
  frame_counter :: uint32
  read_pos :: uint32
  write_pos :: uint32
  hotkey_enabled :: uint32
  hotkey_keycode :: uint32
  hotkey_modifiers :: uint32
  hotkey_counter :: uint32

record GLInjectFrameInfo =
  shm_id :: int
  timestamp :: int
  width :: uint32
  height :: uint32

record shm_consts =
  GLINJECT_FLAG_CAPTURE_FRONT :: uint32
  GLINJECT_FLAG_LIMIT_FPS :: uint32
  GLINJECT_FLAG_RECORD_CURSOR :: uint32
  sizeof_GLInjectHeader :: nat
  sizeof_GLInjectFrameInfo :: nat

text \<open>
  Modelled from the spec: \<open>grow_align16\<close> is missing from the source files; the
  specification gives the stride as \<open>(width * 4 + 15) & ~15\<close>.
\<close>

definition grow_align16 :: "uint32 \<Rightarrow> uint32" where
  "grow_align16 x = (x + 15) AND NOT 15"

text \<open>
  Modelled from the spec: \<open>positive_mod\<close> is missing from the source files; the
  specification uses it as the mathematical remainder
  \<open>(write_pos - read_pos) mod (2 * ring_buffer_size)\<close>, which is never negative for a
  positive modulus.
\<close>

definition positive_mod :: "int \<Rightarrow> int \<Rightarrow> int" where
  "positive_mod x y = x mod y"

subsection \<open>Memory, output and the state of one grabber\<close>

text \<open>
  A payload segment is the memory behind \<open>image_data\<close>: a byte for every offset from
  that pointer. A pointer returned by \<open>shmat\<close> is \<open>None\<close> for \<open>(char*) -1\<close> and
  otherwise names the attached segment.
\<close>

type_synonym image = "int \<Rightarrow> uint8"

type_synonym shm_ptr = "int option"

datatype warning = Frame_too_small | Frame_too_large | OpenGL_error string | XFixes_missing

text \<open>
  What a call does to the outside, in program order: lines on standard error
  (warnings, errors and plain messages), sleeping, and the stores into shared memory,
  each with what it stores: the geometry and the frame counter into the header, the
  descriptor of a slot, the payload of a slot (by \<open>glReadPixels\<close>, then by the cursor
  drawn into it), and \<open>write_pos\<close>.
\<close>

datatype effect =
    Warning warning
  | Error string
  | Message string
  | Usleep int
  | Store_geometry uint32 uint32
  | Store_frame_counter uint32
  | Store_frameinfo nat GLInjectFrameInfo
  | Store_pixels nat image
  | Store_cursor nat image
  | Store_write_pos uint32
  | Shm_attach int
  | Shm_detach int

record GLFrameGrabber =
  m_width :: uint32
  m_height :: uint32
  m_next_frame_time :: int
  m_warn_too_small :: bool
  m_warn_too_large :: bool
  m_debug :: bool
  m_shm_main_ptr :: shm_ptr
  m_shm_frame_ptrs :: "shm_ptr list"
  m_ring_buffer_size :: uint32
  m_max_bytes :: uint32
  m_target_fps :: uint32
  m_flags :: uint32
  m_gl_version :: uint32
  m_has_xfixes :: bool

text \<open>
  The grabber together with the shared memory it is attached to (the header, the
  descriptor table behind it, the payload of every slot) and with what it has done so
  far.
\<close>

record capture =
  grabber :: GLFrameGrabber
  header :: GLInjectHeader
  frameinfos :: "GLInjectFrameInfo list"
  frame_data :: "image list"
  trace :: "effect list"

definition emit :: "effect list \<Rightarrow> capture \<Rightarrow> capture" where
  "emit es c = c\<lparr>trace := trace c @ es\<rparr>"

definition EXIT_STATUS :: int where
  "EXIT_STATUS = - 181818181"

subsection \<open>The cursor\<close>

record XFixesCursorImage =
  xcim_x :: int
  xcim_y :: int
  xcim_width :: int
  xcim_height :: int
  xcim_xhot :: int
  xcim_yhot :: int
  xcim_pixels :: "int \<Rightarrow> 64 word"

text \<open>\<open>(uint8_t) (cursor_pixel >> n)\<close>, as an \<open>int\<close>.\<close>

definition pixel_byte :: "64 word \<Rightarrow> nat \<Rightarrow> int" where
  "pixel_byte cursor_pixel n = uint (ucast (drop_bit n cursor_pixel) :: uint8)"

text \<open>
  The body of the inner loop: \<open>image_pixel\<close> is the offset of the pixel from
  \<open>image_data\<close>. Storing an \<open>int\<close> into a byte keeps its low 8 bits.
\<close>

definition draw_cursor_pixel :: "64 word \<Rightarrow> int \<Rightarrow> image \<Rightarrow> image" where
  "draw_cursor_pixel cursor_pixel image_pixel img =
     (let cursor_a = pixel_byte cursor_pixel 24;
          cursor_r = pixel_byte cursor_pixel 16;
          cursor_g = pixel_byte cursor_pixel 8;
          cursor_b = pixel_byte cursor_pixel 0
      in if cursor_a = 255 then
           (let image1 = img(image_pixel + 2 := word_of_int cursor_r);
                image2 = image1(image_pixel + 1 := word_of_int cursor_g);
                image3 = image2(image_pixel + 0 := word_of_int cursor_b)
            in image3)
         else
           (let image1 = img(image_pixel + 2 :=
                  word_of_int ((uint (img (image_pixel + 2)) * (255 - cursor_a) + 127) div 255 + cursor_r));
                image2 = image1(image_pixel + 1 :=
                  word_of_int ((uint (image1 (image_pixel + 1)) * (255 - cursor_a) + 127) div 255 + cursor_g));
                image3 = image2(image_pixel + 0 :=
                  word_of_int ((uint (image2 (image_pixel + 0)) * (255 - cursor_a) + 127) div 255 + cursor_b))
            in image3))"

text \<open>The loop over \<open>i\<close>; \<open>cursor_row\<close> and \<open>image_row\<close> are offsets.\<close>

function draw_cursor_row ::
  "XFixesCursorImage \<Rightarrow> int \<Rightarrow> int \<Rightarrow> int \<Rightarrow> int \<Rightarrow> int \<Rightarrow> image \<Rightarrow> image"
where
  "draw_cursor_row xcim cursor_row image_row x i cursor_right img =
     (if i < cursor_right then
        (let cursor_pixel = xcim_pixels xcim (cursor_row + i);
             image_pixel = image_row + 4 * (x + i)
         in draw_cursor_row xcim cursor_row image_row x (i + 1) cursor_right
              (draw_cursor_pixel cursor_pixel image_pixel img))
      else img)"
  by pat_completeness auto
termination
  by (relation "measure (\<lambda>(xcim, cursor_row, image_row, x, i, cursor_right, img).
        nat (cursor_right - i))") auto

declare draw_cursor_row.simps [simp del]

text \<open>The loop over \<open>j\<close>.\<close>

function draw_cursor_rows ::
  "XFixesCursorImage \<Rightarrow> int \<Rightarrow> int \<Rightarrow> int \<Rightarrow> int \<Rightarrow> int \<Rightarrow> int \<Rightarrow> int \<Rightarrow> int \<Rightarrow> image \<Rightarrow> image"
where
  "draw_cursor_rows xcim image_stride image_height x y cursor_left cursor_right j cursor_bottom img =
     (if j < cursor_bottom then
        (let cursor_row = xcim_width xcim * j;
             image_row = image_stride * (image_height - 1 - y - j)
         in draw_cursor_rows xcim image_stride image_height x y cursor_left cursor_right (j + 1) cursor_bottom
              (draw_cursor_row xcim cursor_row image_row x cursor_left cursor_right img))
      else img)"
  by pat_completeness auto
termination
  by (relation "measure (\<lambda>(xcim, image_stride, image_height, x, y, cursor_left, cursor_right,
        j, cursor_bottom, img). nat (cursor_bottom - j))") auto

declare draw_cursor_rows.simps [simp del]

text \<open>
  \<open>GLImageDrawCursor\<close>; its first argument is what \<open>XFixesGetCursorImage\<close> returned
  (\<open>None\<close> for \<open>NULL\<close>).
\<close>

definition GLImageDrawCursor ::
  "XFixesCursorImage option \<Rightarrow> image \<Rightarrow> int \<Rightarrow> int \<Rightarrow> int \<Rightarrow> int \<Rightarrow> int \<Rightarrow> image"
where
  "GLImageDrawCursor xcim_opt image_data image_stride image_width image_height
       recording_area_x recording_area_y =
     (case xcim_opt of
        None \<Rightarrow> image_data
      | Some xcim \<Rightarrow>
          (let x = xcim_x xcim - xcim_xhot xcim - recording_area_x;
               y = xcim_y xcim - xcim_yhot xcim - recording_area_y;
               cursor_left = max 0 (- x);
               cursor_right = min (xcim_width xcim) (image_width - x);
               cursor_top = max 0 (- y);
               cursor_bottom = min (xcim_height xcim) (image_height - y)
           in draw_cursor_rows xcim image_stride image_height x y cursor_left cursor_right
                cursor_top cursor_bottom image_data))"

subsection \<open>What the grabber gets from outside\<close>

text \<open>
  The C library's \<open>atoi\<close> and \<open>strspn\<close>, and reading a C string at an index (the
  terminating NUL sits at its length). \<open>atoi\<close> is the one of the GNU C library on a
  64-bit system, \<open>(int) strtol(str, NULL, 10)\<close>: \<open>strtol\<close> stops at the bounds of
  \<open>long\<close> and the cast keeps the low 32 bits.
\<close>

definition isdigit :: "char \<Rightarrow> bool" where
  "isdigit c \<longleftrightarrow> c \<in> set ''0123456789''"

definition isspace :: "char \<Rightarrow> bool" where
  "isspace c \<longleftrightarrow> c \<in> {CHR '' '', CHR 0x09, CHR 0x0A, CHR 0x0B, CHR 0x0C, CHR 0x0D}"

definition digit_value :: "char \<Rightarrow> int" where
  "digit_value c = int (of_char c) - 48"

definition strtol :: "string \<Rightarrow> int" where
  "strtol str =
     (let s1 = dropWhile isspace str;
          negative = (case s1 of [] \<Rightarrow> False | c # _ \<Rightarrow> c = CHR ''-'');
          s2 = (case s1 of [] \<Rightarrow> [] | c # rest \<Rightarrow> if c = CHR ''-'' \<or> c = CHR ''+'' then rest else s1);
          v = foldl (\<lambda>acc c. 10 * acc + digit_value c) 0 (takeWhile isdigit s2)
      in max (- (2 ^ 63)) (min (2 ^ 63 - 1) (if negative then - v else v)))"

definition atoi :: "string \<Rightarrow> int" where
  "atoi str = sint (word_of_int (strtol str) :: 32 word)"

definition strspn :: "string \<Rightarrow> string \<Rightarrow> nat" where
  "strspn str accept = length (takeWhile (\<lambda>c. c \<in> set accept) str)"

definition char_at :: "string \<Rightarrow> nat \<Rightarrow> char" where
  "char_at str i = (if i < length str then str ! i else CHR 0x00)"

text \<open>
  What one call of \<open>GrabFrame\<close> reads from the X server, the clock and the graphics
  library. \<open>glGetError\<close> tells, for the text of a graphics call, whether the probe
  after that call reports an error. \<open>glReadPixels\<close> gets the buffer to read (front or
  not), the row length in pixels, the width and height, and the payload as it was; it
  returns the payload with the pixels stored.
\<close>

record grab_env =
  glGetString_VERSION :: "string option"
  XGetGeometry :: "uint32 \<times> uint32"
  hrt_time_micro :: int
  hrt_time_micro_after_usleep :: int
  glGetError :: "string \<Rightarrow> bool"
  glReadPixels :: "bool \<Rightarrow> uint32 \<Rightarrow> uint32 \<Rightarrow> uint32 \<Rightarrow> image \<Rightarrow> image"
  XTranslateCoordinates :: "(int \<times> int) option"
  XFixesGetCursorImage :: "XFixesCursorImage option"

subsection \<open>\<open>GetGLVersion\<close> and \<open>CheckGLError\<close>\<close>

text \<open>
  A function that can end the process returns \<open>Inl\<close> with the exit status and the
  state at that moment, and \<open>Inr\<close> when it returns.
\<close>

definition GetGLVersion :: "grab_env \<Rightarrow> capture \<Rightarrow> (int \<times> capture) + (uint32 \<times> capture)" where
  "GetGLVersion E c =
     (case glGetString_VERSION E of
        None \<Rightarrow>
          Inl (EXIT_STATUS, emit [Error ''Could not get OpenGL version, version string is NULL!''] c)
      | Some str \<Rightarrow>
          (let dot1 = strspn str ''0123456789'' in
           if char_at str dot1 \<noteq> CHR ''.'' then
             Inl (EXIT_STATUS, emit [Error ''Could not get OpenGL version''] c)
           else
             (let major = (word_of_int (atoi str) :: uint32);
                  dot2 = strspn (drop (dot1 + 1) str) ''0123456789'' + dot1 + 1
              in if char_at str dot2 \<noteq> CHR ''.'' \<and> char_at str dot2 \<noteq> CHR '' '' \<and>
                    char_at str dot2 \<noteq> CHR 0x00 then
                   Inl (EXIT_STATUS, emit [Error ''Could not get OpenGL version''] c)
                 else
                   (let minor = (word_of_int (atoi (drop (dot1 + 1) str)) :: uint32)
                    in Inr (major * 1000 + minor, emit [Message ''OpenGL version''] c)))))"

definition CheckGLError :: "grab_env \<Rightarrow> string \<Rightarrow> capture \<Rightarrow> capture" where
  "CheckGLError E at_code c =
     (if glGetError E at_code then emit [Warning (OpenGL_error at_code)] c else c)"

text \<open>
  The macro \<open>CGLE\<close> for a sequence of graphics calls, given by their text: in debug
  mode each call is followed by \<open>CheckGLError\<close>. The calls change the state of the
  graphics library only, which is not modelled, except for \<open>glReadPixels\<close>. The
  lists below are the calls of \<open>GrabFrame\<close>, block by block; \<open>external_code\<close> is the
  name under which the first probe reports errors left by the host.
\<close>

definition CGLE :: "grab_env \<Rightarrow> string list \<Rightarrow> capture \<Rightarrow> capture" where
  "CGLE E codes c = (if m_debug (grabber c) then fold (CheckGLError E) codes c else c)"

definition save_settings :: "string list" where
  "save_settings =
     [''glPushAttrib(GL_PIXEL_MODE_BIT)'',
      ''glPushClientAttrib(GL_CLIENT_PIXEL_STORE_BIT)'',
      ''glGetIntegerv(GL_PIXEL_PACK_BUFFER_BINDING, &old_pbo)'',
      ''glGetIntegerv(GL_DRAW_FRAMEBUFFER_BINDING, &old_fbo_draw)'',
      ''glGetIntegerv(GL_READ_FRAMEBUFFER_BINDING, &old_fbo_read)'']"

definition change_settings :: "string list" where
  "change_settings =
     [''glBindBuffer(GL_PIXEL_PACK_BUFFER, 0)'',
      ''glBindFramebuffer(GL_FRAMEBUFFER, 0)'',
      ''glPixelStorei(GL_PACK_SWAP_BYTES, 0)'',
      ''glPixelStorei(GL_PACK_ROW_LENGTH, image_stride / 4)'',
      ''glPixelStorei(GL_PACK_IMAGE_HEIGHT, 0)'',
      ''glPixelStorei(GL_PACK_SKIP_PIXELS, 0)'',
      ''glPixelStorei(GL_PACK_SKIP_ROWS, 0)'',
      ''glPixelStorei(GL_PACK_SKIP_IMAGES, 0)'',
      ''glPixelStorei(GL_PACK_ALIGNMENT, 8)'',
      ''glReadBuffer((m_flags & GLINJECT_FLAG_CAPTURE_FRONT)? GL_FRONT : GL_BACK)'']"

definition external_code :: string where
  "external_code = ''<external code>''"

definition capture_the_frame :: "string list" where
  "capture_the_frame =
     [''glReadPixels(0, 0, m_width, m_height, GL_BGRA, GL_UNSIGNED_INT_8_8_8_8_REV, image_data)'']"

definition restore_settings :: "string list" where
  "restore_settings =
     [''glBindBuffer(GL_PIXEL_PACK_BUFFER, old_pbo)'',
      ''glBindFramebuffer(GL_DRAW_FRAMEBUFFER, old_fbo_draw)'',
      ''glBindFramebuffer(GL_READ_FRAMEBUFFER, old_fbo_read)'',
      ''glPopClientAttrib()'',
      ''glPopAttrib()'']"

subsection \<open>\<open>GLFrameGrabber::GrabFrame\<close>\<close>

datatype grab_result = TooSmall | TooLarge | RingFull | TooEarly | Published

text \<open>
  From "save settings" to the end of \<open>GrabFrame\<close>: the frame is captured into the
  slot \<open>write_pos % m_ring_buffer_size\<close> and \<open>write_pos\<close> is advanced.
\<close>

definition GrabFrame_capture ::
  "shm_consts \<Rightarrow> grab_env \<Rightarrow> int \<Rightarrow> uint32 \<Rightarrow> uint32 \<Rightarrow> capture \<Rightarrow> capture"
where
  "GrabFrame_capture K E timestamp0 wr_pos image_stride c0 =
     (let g = grabber c0;
          c1 = (if m_debug g then CheckGLError E external_code c0 else c0);
          c2 = CGLE E save_settings c1;
          c3 = CGLE E change_settings c2;
          current_frame = unat (wr_pos mod m_ring_buffer_size g);
          frameinfo = (frameinfos c3 ! current_frame)
                        \<lparr>timestamp := timestamp0, width := m_width g, height := m_height g\<rparr>;
          c4 = emit [Store_frameinfo current_frame frameinfo]
                 (c3\<lparr>frameinfos := (frameinfos c3)[current_frame := frameinfo]\<rparr>);
          image_data = frame_data c4 ! current_frame;
          image_data1 = glReadPixels E (m_flags g AND GLINJECT_FLAG_CAPTURE_FRONT K \<noteq> 0)
                          (image_stride div 4) (m_width g) (m_height g) image_data;
          c5 = CGLE E capture_the_frame
                 (emit [Store_pixels current_frame image_data1]
                    (c4\<lparr>frame_data := (frame_data c4)[current_frame := image_data1]\<rparr>));
          c6 = (if m_flags g AND GLINJECT_FLAG_RECORD_CURSOR K \<noteq> 0 \<and> m_has_xfixes g then
                  (case XTranslateCoordinates E of
                     None \<Rightarrow> c5
                   | Some (inner_x, inner_y) \<Rightarrow>
                       (let image_data2 =
                              GLImageDrawCursor (XFixesGetCursorImage E) image_data1
                                (uint image_stride) (uint (m_width g)) (uint (m_height g))
                                inner_x inner_y
                        in emit [Store_cursor current_frame image_data2]
                             (c5\<lparr>frame_data := (frame_data c5)[current_frame := image_data2]\<rparr>)))
                else c5);
          new_write_pos = (wr_pos + 1) mod (m_ring_buffer_size g * 2);
          c7 = emit [Store_write_pos new_write_pos]
                 (c6\<lparr>header := (header c6)\<lparr>write_pos := new_write_pos\<rparr>\<rparr>)
      in CGLE E restore_settings c7)"

text \<open>
  "Get the timestamp": the pacing, then the capture. The argument of \<open>usleep\<close> is an
  unsigned 32-bit number.
\<close>

definition GrabFrame_timestamp ::
  "shm_consts \<Rightarrow> grab_env \<Rightarrow> uint32 \<Rightarrow> uint32 \<Rightarrow> capture \<Rightarrow> grab_result \<times> capture"
where
  "GrabFrame_timestamp K E wr_pos image_stride c0 =
     (let g = grabber c0;
          timestamp0 = hrt_time_micro E
      in if m_target_fps g > 0 then
           (let delay = uint (1000000 div m_target_fps g) in
            if m_flags g AND GLINJECT_FLAG_LIMIT_FPS K \<noteq> 0 then
              (if timestamp0 < m_next_frame_time g then
                 (let c1 = emit [Usleep ((m_next_frame_time g - timestamp0) mod 2 ^ 32)] c0;
                      timestamp1 = hrt_time_micro_after_usleep E;
                      c2 = c1\<lparr>grabber := g\<lparr>m_next_frame_time :=
                                 max (m_next_frame_time g + delay) timestamp1\<rparr>\<rparr>
                  in (Published, GrabFrame_capture K E timestamp1 wr_pos image_stride c2))
               else
                 (let c2 = c0\<lparr>grabber := g\<lparr>m_next_frame_time :=
                                 max (m_next_frame_time g + delay) timestamp0\<rparr>\<rparr>
                  in (Published, GrabFrame_capture K E timestamp0 wr_pos image_stride c2)))
            else
              (if timestamp0 < m_next_frame_time g then (TooEarly, c0)
               else
                 (let c2 = c0\<lparr>grabber := g\<lparr>m_next_frame_time :=
                                 max (m_next_frame_time g + delay) timestamp0\<rparr>\<rparr>
                  in (Published, GrabFrame_capture K E timestamp0 wr_pos image_stride c2))))
         else (Published, GrabFrame_capture K E timestamp0 wr_pos image_stride c0))"

text \<open>
  From "get size" to the check of the ring buffer. The casts to \<open>int\<close> read the
  cursors as signed numbers; the difference is taken exactly (it cannot overflow while
  the cursors are in their range).
\<close>

definition GrabFrame_size :: "shm_consts \<Rightarrow> grab_env \<Rightarrow> capture \<Rightarrow> grab_result \<times> capture" where
  "GrabFrame_size K E c0 =
     (let old_width = m_width (grabber c0);
          old_height = m_height (grabber c0);
          c1 = c0\<lparr>grabber := (grabber c0)\<lparr>m_width := fst (XGetGeometry E),
                                            m_height := snd (XGetGeometry E)\<rparr>\<rparr>;
          g = grabber c1;
          c2 = (if m_width g \<noteq> old_width \<or> m_height g \<noteq> old_height
                then emit [Message ''frame size''] c1 else c1);
          c3 = emit [Store_geometry (m_width g) (m_height g),
                     Store_frame_counter (frame_counter (header c2) + 1)]
                 (c2\<lparr>header := (header c2)\<lparr>current_width := m_width g,
                                             current_height := m_height g,
                                             frame_counter := frame_counter (header c2) + 1\<rparr>\<rparr>);
          image_stride = grow_align16 (m_width g * 4)
      in if m_width g < 2 \<or> m_height g < 2 then
           (if m_warn_too_small g then
              (TooSmall, emit [Warning Frame_too_small] (c3\<lparr>grabber := g\<lparr>m_warn_too_small := False\<rparr>\<rparr>))
            else (TooSmall, c3))
         else if m_width g > 10000 \<or> m_height g > 10000 \<or> image_stride * m_height g > m_max_bytes g then
           (if m_warn_too_large g then
              (TooLarge, emit [Warning Frame_too_large] (c3\<lparr>grabber := g\<lparr>m_warn_too_large := False\<rparr>\<rparr>))
            else (TooLarge, c3))
         else
           (let rd_pos = read_pos (header c3);
                wr_pos = write_pos (header c3);
                frames_ready = (word_of_int (positive_mod (sint wr_pos - sint rd_pos)
                                  (sint (m_ring_buffer_size g) * 2)) :: uint32)
            in if frames_ready \<ge> m_ring_buffer_size g then (RingFull, c3)
               else GrabFrame_timestamp K E wr_pos image_stride c3))"

definition GrabFrame ::
  "shm_consts \<Rightarrow> grab_env \<Rightarrow> capture \<Rightarrow> (int \<times> capture) + (grab_result \<times> capture)"
where
  "GrabFrame K E c0 =
     (if m_gl_version (grabber c0) = 0 then
        (case GetGLVersion E c0 of
           Inl stop \<Rightarrow> Inl stop
         | Inr (version, c1) \<Rightarrow>
             Inr (GrabFrame_size K E (c1\<lparr>grabber := (grabber c1)\<lparr>m_gl_version := version\<rparr>\<rparr>)))
      else Inr (GrabFrame_size K E c0))"

text \<open>
  The life of a grabber: one call of \<open>GrabFrame\<close> after the other. Between two calls
  the recorder may move \<open>read_pos\<close>; each step gives the value the producer finds.
\<close>

fun GrabFrames ::
  "shm_consts \<Rightarrow> (uint32 \<times> grab_env) list \<Rightarrow> capture \<Rightarrow> (int \<times> capture) + capture"
where
  "GrabFrames K [] c = Inr c"
| "GrabFrames K ((consumer_read_pos, E) # rest) c =
     (case GrabFrame K E (c\<lparr>header := (header c)\<lparr>read_pos := consumer_read_pos\<rparr>\<rparr>) of
        Inl stop \<Rightarrow> Inl stop
      | Inr (r, c') \<Rightarrow> GrabFrames K rest c')"

subsection \<open>\<open>GLFrameGrabber::GLFrameGrabber\<close>\<close>

text \<open>
  What the constructor finds: the environment variables, which segments can be
  attached, the size that \<open>shmctl\<close> reports for a segment (\<open>None\<close> when it fails), and
  what the recorder wrote into the main segment.
\<close>

record attach_env =
  getenv_SSR_GLINJECT_SHM :: "string option"
  getenv_SSR_GLINJECT_DEBUG :: "string option"
  shm_attachable :: "int \<Rightarrow> bool"
  shmctl_IPC_STAT :: "int \<Rightarrow> nat option"
  segment_header :: "int \<Rightarrow> GLInjectHeader"
  segment_frameinfo :: "int \<Rightarrow> nat \<Rightarrow> GLInjectFrameInfo"
  hrt_time_micro_start :: int
  XFixesQueryExtension :: bool

definition shmat :: "attach_env \<Rightarrow> int \<Rightarrow> shm_ptr" where
  "shmat E shmid = (if shm_attachable E shmid then Some shmid else None)"

definition shmsize :: "attach_env \<Rightarrow> int \<Rightarrow> nat" where
  "shmsize E shmid = (case shmctl_IPC_STAT E shmid of None \<Rightarrow> 0 | Some shm_segsz \<Rightarrow> shm_segsz)"

text \<open>
  The loop "get frame shared memory", from slot \<open>i\<close>; \<open>Inl\<close> carries the state when
  the process exits.
\<close>

function attach_frames ::
  "shm_consts \<Rightarrow> attach_env \<Rightarrow> int \<Rightarrow> uint32 \<Rightarrow> uint32 \<Rightarrow> nat \<Rightarrow> shm_ptr list \<times> effect list
     \<Rightarrow> (shm_ptr list \<times> effect list) + (shm_ptr list \<times> effect list)"
where
  "attach_frames K E shm_main_id ring_size max_size i (ptrs, tr) =
     (if i < unat ring_size then
        (let ptrs1 = ptrs @ [None];
             shm_frame_id = shm_id (segment_frameinfo E shm_main_id i);
             ptrs2 = butlast ptrs1 @ [shmat E shm_frame_id]
         in if last ptrs2 = None then
              Inl (ptrs2, tr @ [Error ''Cannot attach to frame shared memory!''])
            else
              (let tr1 = tr @ [Shm_attach shm_frame_id];
                   shm_frame_size = shmsize E shm_frame_id
               in if shm_frame_size \<noteq> unat max_size then
                    Inl (ptrs2, tr1 @ [Error ''Frame shared memory is not the correct size!''])
                  else attach_frames K E shm_main_id ring_size max_size (Suc i) (ptrs2, tr1)))
      else Inr (ptrs, tr))"
  by pat_completeness auto
termination
  by (relation "measure (\<lambda>(K, E, shm_main_id, ring_size, max_size, i, acc). unat ring_size - i)") auto

declare attach_frames.simps [simp del]

definition GLFrameGrabber_new ::
  "shm_consts \<Rightarrow> attach_env \<Rightarrow> (int \<times> effect list) + (GLFrameGrabber \<times> effect list)"
where
  "GLFrameGrabber_new K E =
     (let tr0 = [Message ''GLFrameGrabber created.''] in
      case getenv_SSR_GLINJECT_SHM E of
        None \<Rightarrow> Inl (EXIT_STATUS, tr0 @ [Error ''Shared memory id is missing!''])
      | Some shm_id_str \<Rightarrow>
          (let shm_main_id = atoi shm_id_str;
               debug = (case getenv_SSR_GLINJECT_DEBUG E of
                          None \<Rightarrow> False
                        | Some debug_str \<Rightarrow> atoi debug_str > 0);
               tr1 = (if debug then tr0 @ [Message ''Debug mode enabled.''] else tr0);
               shm_main_ptr = shmat E shm_main_id
           in if shm_main_ptr = None then
                Inl (EXIT_STATUS, tr1 @ [Error ''Cannot attach to main shared memory!''])
              else
                (let tr2 = tr1 @ [Shm_attach shm_main_id];
                     shm_main_size = shmsize E shm_main_id
                 in if shm_main_size < sizeof_GLInjectHeader K then
                      Inl (EXIT_STATUS, tr2 @ [Error ''Main shared memory is too small!''])
                    else
                      (let hdr = segment_header E shm_main_id in
                       if ring_buffer_size hdr \<le> 0 \<or> ring_buffer_size hdr > 1000 then
                         Inl (EXIT_STATUS, tr2 @ [Error ''Ring buffer size is invalid!''])
                       else if max_bytes hdr > 1024 * 1024 * 1024 then
                         Inl (EXIT_STATUS, tr2 @ [Error ''Maximum byte count is invalid!''])
                       else if shm_main_size \<noteq>
                                 sizeof_GLInjectHeader K
                                   + sizeof_GLInjectFrameInfo K * unat (ring_buffer_size hdr) then
                         Inl (EXIT_STATUS, tr2 @ [Error ''Main shared memory is not the correct size!''])
                       else
                         (case attach_frames K E shm_main_id (ring_buffer_size hdr) (max_bytes hdr) 0
                                 ([], tr2) of
                            Inl (ptrs, tr3) \<Rightarrow> Inl (EXIT_STATUS, tr3)
                          | Inr (ptrs, tr3) \<Rightarrow>
                              Inr (\<lparr>m_width = 0,
                                    m_height = 0,
                                    m_next_frame_time = hrt_time_micro_start E,
                                    m_warn_too_small = True,
                                    m_warn_too_large = True,
                                    m_debug = debug,
                                    m_shm_main_ptr = shm_main_ptr,
                                    m_shm_frame_ptrs = ptrs,
                                    m_ring_buffer_size = ring_buffer_size hdr,
                                    m_max_bytes = max_bytes hdr,
                                    m_target_fps = target_fps hdr,
                                    m_flags = flags hdr,
                                    m_gl_version = 0,
                                    m_has_xfixes = XFixesQueryExtension E\<rparr>,
                                   (if XFixesQueryExtension E then tr3
                                    else tr3 @ [Warning XFixes_missing])))))))"

subsection \<open>\<open>GLFrameGrabber::~GLFrameGrabber\<close>\<close>

text \<open>The loop "release frame shared memory": the pointers are released from the back.\<close>

function release_frames :: "shm_ptr list \<Rightarrow> effect list \<Rightarrow> effect list" where
  "release_frames ptrs tr =
     (if ptrs \<noteq> [] then
        release_frames (butlast ptrs)
          (case last ptrs of None \<Rightarrow> tr | Some shmid \<Rightarrow> tr @ [Shm_detach shmid])
      else tr)"
  by pat_completeness auto
termination
  by (relation "measure (\<lambda>(ptrs, tr). length ptrs)") auto

declare release_frames.simps [simp del]

definition GLFrameGrabber_delete :: "GLFrameGrabber \<times> effect list \<Rightarrow> GLFrameGrabber \<times> effect list" where
  "GLFrameGrabber_delete gt =
     (case gt of (g, tr) \<Rightarrow>
        (let tr1 = release_frames (m_shm_frame_ptrs g) tr;
             tr2 = (case m_shm_main_ptr g of None \<Rightarrow> tr1 | Some shmid \<Rightarrow> tr1 @ [Shm_detach shmid])
         in (g\<lparr>m_shm_frame_ptrs := [], m_shm_main_ptr := None\<rparr>,
             tr2 @ [Message ''GLFrameGrabber destroyed.''])))"

subsection \<open>The conditions of attaching, in the words of the specification\<close>

text \<open>
  The conditions that the specification lists: the environment identifier is present, the ring
  size is in 1..1000, the byte count is at most 1 GiB, the main segment has the size of
  the header and the descriptor table, and every payload segment attaches and has
  \<open>max_bytes\<close> bytes. \<open>main_attaches\<close> is the test of the constructor that is not in
  the list.
\<close>

definition listed_conditions :: "shm_consts \<Rightarrow> attach_env \<Rightarrow> bool" where
  "listed_conditions K E \<longleftrightarrow>
     (case getenv_SSR_GLINJECT_SHM E of
        None \<Rightarrow> False
      | Some shm_id_str \<Rightarrow>
          (let hdr = segment_header E (atoi shm_id_str) in
           1 \<le> ring_buffer_size hdr \<and> ring_buffer_size hdr \<le> 1000 \<and>
           max_bytes hdr \<le> 1024 * 1024 * 1024 \<and>
           shmsize E (atoi shm_id_str) =
             sizeof_GLInjectHeader K + unat (ring_buffer_size hdr) * sizeof_GLInjectFrameInfo K \<and>
           (\<forall>i \<in> {..<unat (ring_buffer_size hdr)}.
              shm_attachable E (shm_id (segment_frameinfo E (atoi shm_id_str) i)) \<and>
              shmsize E (shm_id (segment_frameinfo E (atoi shm_id_str) i)) = unat (max_bytes hdr))))"

definition main_attaches :: "attach_env \<Rightarrow> bool" where
  "main_attaches E \<longleftrightarrow>
     (case getenv_SSR_GLINJECT_SHM E of
        None \<Rightarrow> False
      | Some shm_id_str \<Rightarrow> shm_attachable E (atoi shm_id_str))"

subsection \<open>The compositing rule in the words of the specification\<close>

text \<open>
  "For fully opaque cursor pixels, overwrite; otherwise
  \<open>out = round(in * (255 - a) / 255) + c\<close> per channel", stored into a byte.
\<close>

definition premultiplied_over :: "uint8 \<Rightarrow> int \<Rightarrow> int \<Rightarrow> uint8" where
  "premultiplied_over v a c =
     (if a = 255 then word_of_int c
      else word_of_int (round (real_of_int (uint v) * real_of_int (255 - a) / 255) + c))"

section \<open>Concrete inputs\<close>

subsection \<open>A toy container\<close>

text \<open>
  A toy container and small muxer states, used to run the model on concrete inputs.
  The time base of the streams is 1/1024 and the timestamps are whole numbers, so the
  exact result of every product, difference and quotient below is a double and the
  rounding of the machine leaves it as it is.
\<close>

definition example_externals :: externals where
  "example_externals =
     \<lparr>ToDouble_AVFrac = (\<lambda>f. real_of_int (val f)),
      ToDouble_AVRational = (\<lambda>q. real_of_int (num q) / real_of_int (den q)),
      av_rescale_q = (\<lambda>a bq cq. word_of_int ((sint a * (num bq * den cq)) div (den bq * num cq))),
      av_interleaved_write_frame = (\<lambda>ctx p.
        (0, ctx\<lparr>streams := (streams ctx)[stream_index p :=
                    (streams ctx ! stream_index p)\<lparr>pts := \<lparr>val = sint (pkt_pts p), frac_num = 0, frac_den = 1\<rparr>\<rparr>],
                 pb := (pb ctx)\<lparr>pos := pos (pb ctx) + of_nat (length (pkt_data p))\<rparr>\<rparr>)),
      round_to_double = (\<lambda>x. x)\<rparr>"

definition example_stream :: "int \<Rightarrow> AVStream" where
  "example_stream t =
     \<lparr>pts = \<lparr>val = t, frac_num = 0, frac_den = 1\<rparr>,
      time_base = \<lparr>num = 1, den = 1024\<rparr>,
      codec_time_base = \<lparr>num = 5, den = 128\<rparr>\<rparr>"

definition example_packet :: "int64 \<Rightarrow> int64 \<Rightarrow> AVPacketWrapper" where
  "example_packet p d =
     \<lparr>GetPacket = \<lparr>pkt_pts = p, pkt_dts = d, stream_index = 0, pkt_data = [1, 2, 3]\<rparr>,
      m_free_on_destruct = True\<rparr>"

definition example_muxer :: Muxer where
  "example_muxer =
     \<lparr>m_format_context =
        \<lparr>streams = [example_stream 40, example_stream 10, example_stream 10],
         pb = \<lparr>pos = 1000, buf_offset = 24\<rparr>\<rparr>,
      m_stream_data =
        [\<lparr>m_is_done = False, m_packet_queue = []\<rparr>,
         \<lparr>m_is_done = True, m_packet_queue = [example_packet 2 AV_NOPTS_VALUE]\<rparr>,
         \<lparr>m_is_done = False, m_packet_queue = []\<rparr>],
      m_shared_data =
        \<lparr>m_total_bytes = 0, m_stats_actual_bit_rate = 0,
         m_stats_previous_pts = NOPTS_DOUBLE, m_stats_previous_bytes = 0\<rparr>,
      m_thread_is_done = False,
      m_error_occurred = False\<rparr>"

definition example_muxer_1s :: Muxer where
  "example_muxer_1s =
     \<lparr>m_format_context =
        \<lparr>streams = [example_stream 1024], pb = \<lparr>pos = 1000, buf_offset = 24\<rparr>\<rparr>,
      m_stream_data = [\<lparr>m_is_done = False, m_packet_queue = [example_packet 50 50]\<rparr>],
      m_shared_data =
        \<lparr>m_total_bytes = 27, m_stats_actual_bit_rate = 0,
         m_stats_previous_pts = 0, m_stats_previous_bytes = 27\<rparr>,
      m_thread_is_done = False,
      m_error_occurred = False\<rparr>"

text \<open>A container library that moves its file offset back while it writes.\<close>

definition example_externals_rewinding :: externals where
  "example_externals_rewinding =
     example_externals\<lparr>av_interleaved_write_frame :=
       (\<lambda>ctx p. (0, ctx\<lparr>pb := (pb ctx)\<lparr>pos := 0\<rparr>\<rparr>))\<rparr>"

subsection \<open>A cursor\<close>

text \<open>
  A 2 x 2 cursor at window position (1, 1): opaque red, except for a half-transparent
  pixel in its last place.
\<close>

definition example_cursor :: XFixesCursorImage where
  "example_cursor =
     \<lparr>xcim_x = 1, xcim_y = 1, xcim_width = 2, xcim_height = 2, xcim_xhot = 0, xcim_yhot = 0,
      xcim_pixels = (\<lambda>k. if k = 3 then 0x80400000 else 0xFFFF0000)\<rparr>"

subsection \<open>A grabber with two slots\<close>

definition example_consts :: shm_consts where
  "example_consts =
     \<lparr>GLINJECT_FLAG_CAPTURE_FRONT = 1, GLINJECT_FLAG_LIMIT_FPS = 2, GLINJECT_FLAG_RECORD_CURSOR = 4,
      sizeof_GLInjectHeader = 52, sizeof_GLInjectFrameInfo = 24\<rparr>"

definition example_header :: GLInjectHeader where
  "example_header =
     \<lparr>ring_buffer_size = 2, max_bytes = 64, target_fps = 30, flags = 0,
      current_width = 0, current_height = 0, frame_counter = 7, read_pos = 0, write_pos = 1,
      hotkey_enabled = 0, hotkey_keycode = 0, hotkey_modifiers = 0, hotkey_counter = 0\<rparr>"

definition example_grabber :: GLFrameGrabber where
  "example_grabber =
     \<lparr>m_width = 4, m_height = 4, m_next_frame_time = 1000,
      m_warn_too_small = True, m_warn_too_large = True, m_debug = False,
      m_shm_main_ptr = Some 10, m_shm_frame_ptrs = [Some 11, Some 12],
      m_ring_buffer_size = 2, m_max_bytes = 64, m_target_fps = 30, m_flags = 0,
      m_gl_version = 0, m_has_xfixes = True\<rparr>"

definition example_capture :: capture where
  "example_capture =
     \<lparr>grabber = example_grabber,
      header = example_header,
      frameinfos = [\<lparr>shm_id = 11, timestamp = 0, width = 0, height = 0\<rparr>,
                    \<lparr>shm_id = 12, timestamp = 0, width = 0, height = 0\<rparr>],
      frame_data = [\<lambda>_. 0, \<lambda>_. 0],
      trace = []\<rparr>"

definition example_env :: "string option \<Rightarrow> int \<Rightarrow> uint32 \<times> uint32 \<Rightarrow> grab_env" where
  "example_env version now geometry =
     \<lparr>glGetString_VERSION = version,
      XGetGeometry = geometry,
      hrt_time_micro = now,
      hrt_time_micro_after_usleep = max now 1000,
      glGetError = (\<lambda>_. False),
      glReadPixels = (\<lambda>front row_length w h img. (\<lambda>_. 255)),
      XTranslateCoordinates = Some (0, 0),
      XFixesGetCursorImage = None\<rparr>"

definition example_capture_limit :: capture where
  "example_capture_limit = example_capture\<lparr>grabber := example_grabber\<lparr>m_flags := 2\<rparr>\<rparr>"

definition example_capture_full :: capture where
  "example_capture_full = example_capture\<lparr>header := example_header\<lparr>write_pos := 2\<rparr>\<rparr>"

subsection \<open>What the constructor finds\<close>

text \<open>
  A main segment with the identifier 10 and the header above, and two payload segments
  11 and 12 of 64 bytes; then the same with a main segment that cannot be attached, and
  with a second payload segment of 32 bytes.
\<close>

definition example_attach_env :: attach_env where
  "example_attach_env =
     \<lparr>getenv_SSR_GLINJECT_SHM = Some ''10'',
      getenv_SSR_GLINJECT_DEBUG = None,
      shm_attachable = (\<lambda>shmid. True),
      shmctl_IPC_STAT = (\<lambda>shmid. if shmid = 10 then Some 100 else Some 64),
      segment_header = (\<lambda>shmid. example_header),
      segment_frameinfo = (\<lambda>shmid i. \<lparr>shm_id = 11 + int i, timestamp = 0, width = 0, height = 0\<rparr>),
      hrt_time_micro_start = 1000,
      XFixesQueryExtension = True\<rparr>"

definition example_attach_env_main_refused :: attach_env where
  "example_attach_env_main_refused = example_attach_env\<lparr>shm_attachable := (\<lambda>shmid. shmid \<noteq> 10)\<rparr>"

definition example_attach_env_wrong_size :: attach_env where
  "example_attach_env_wrong_size =
     example_attach_env\<lparr>shmctl_IPC_STAT := (\<lambda>shmid. if shmid = 10 then Some 100 else
                                                  if shmid = 12 then Some 32 else Some 64)\<rparr>"

section \<open>Definitions used in the proofs\<close>

subsection \<open>Invariant of the selection loop\<close>

definition acc_ok :: "externals \<Rightarrow> AVFormatContext \<Rightarrow> StreamData list \<Rightarrow> nat \<Rightarrow> nat \<times> double \<Rightarrow> bool" where
  "acc_ok X ctx sd i acc \<longleftrightarrow>
     (fst acc = INVALID_STREAM \<and> snd acc = DBL_MAX \<and>
        (\<forall>j<i. stream_eligible (sd ! j) \<longrightarrow> DBL_MAX \<le> stream_seconds X (streams ctx ! j)))
   \<or> (fst acc < i \<and> stream_eligible (sd ! fst acc) \<and>
        snd acc = stream_seconds X (streams ctx ! fst acc) \<and> snd acc < DBL_MAX \<and>
        (\<forall>j<i. stream_eligible (sd ! j) \<longrightarrow> snd acc \<le> stream_seconds X (streams ctx ! j)) \<and>
        (\<forall>j<fst acc. stream_eligible (sd ! j) \<longrightarrow> snd acc < stream_seconds X (streams ctx ! j)))"

subsection \<open>A container library that never moves its file offset back\<close>

definition offset_never_back :: "externals \<Rightarrow> bool" where
  "offset_never_back X \<longleftrightarrow>
     (\<forall>ctx p. file_offset (pb ctx)
                \<le> file_offset (pb (snd (av_interleaved_write_frame X ctx p))))"

subsection \<open>What the cursor loop stores into one channel\<close>

definition cursor_channel :: "uint8 \<Rightarrow> 64 word \<Rightarrow> int \<Rightarrow> uint8" where
  "cursor_channel v cursor_pixel ch =
     (if pixel_byte cursor_pixel 24 = 255 then word_of_int (pixel_byte cursor_pixel (nat (8 * ch)))
      else word_of_int ((uint v * (255 - pixel_byte cursor_pixel 24) + 127) div 255
             + pixel_byte cursor_pixel (nat (8 * ch))))"

subsection \<open>The stages of \<open>GrabFrame\<close>\<close>

definition gl_warnings :: "grab_env \<Rightarrow> string list \<Rightarrow> effect list" where
  "gl_warnings E codes = map (\<lambda>a. Warning (OpenGL_error a)) (filter (glGetError E) codes)"

text \<open>
  What the capture stores into the slot \<open>cf\<close>, from the state \<open>c\<close> in which it starts:
  the descriptor, the pixels read, and the pixels with the cursor.
\<close>

definition slot_descriptor :: "int \<Rightarrow> capture \<Rightarrow> nat \<Rightarrow> GLInjectFrameInfo" where
  "slot_descriptor t c cf =
     (frameinfos c ! cf)\<lparr>timestamp := t, width := m_width (grabber c), height := m_height (grabber c)\<rparr>"

definition slot_pixels :: "shm_consts \<Rightarrow> grab_env \<Rightarrow> uint32 \<Rightarrow> capture \<Rightarrow> nat \<Rightarrow> image" where
  "slot_pixels K E stride c cf =
     glReadPixels E (m_flags (grabber c) AND GLINJECT_FLAG_CAPTURE_FRONT K \<noteq> 0) (stride div 4)
       (m_width (grabber c)) (m_height (grabber c)) (frame_data c ! cf)"

definition cursor_drawn :: "shm_consts \<Rightarrow> grab_env \<Rightarrow> GLFrameGrabber \<Rightarrow> bool" where
  "cursor_drawn K E g \<longleftrightarrow>
     m_flags g AND GLINJECT_FLAG_RECORD_CURSOR K \<noteq> 0 \<and> m_has_xfixes g \<and> XTranslateCoordinates E \<noteq> None"

definition slot_cursor :: "shm_consts \<Rightarrow> grab_env \<Rightarrow> uint32 \<Rightarrow> capture \<Rightarrow> nat \<Rightarrow> image" where
  "slot_cursor K E stride c cf =
     (case XTranslateCoordinates E of
        None \<Rightarrow> slot_pixels K E stride c cf
      | Some (inner_x, inner_y) \<Rightarrow>
          GLImageDrawCursor (XFixesGetCursorImage E) (slot_pixels K E stride c cf)
            (uint stride) (uint (m_width (grabber c))) (uint (m_height (grabber c))) inner_x inner_y)"

definition capture_fill ::
  "shm_consts \<Rightarrow> grab_env \<Rightarrow> int \<Rightarrow> uint32 \<Rightarrow> uint32 \<Rightarrow> capture \<Rightarrow> effect list"
where
  "capture_fill K E t wr_pos stride c =
     (if m_debug (grabber c)
      then gl_warnings E [external_code] @ gl_warnings E save_settings @ gl_warnings E change_settings
      else [])
     @ [Store_frameinfo (unat (wr_pos mod m_ring_buffer_size (grabber c)))
          (slot_descriptor t c (unat (wr_pos mod m_ring_buffer_size (grabber c)))),
        Store_pixels (unat (wr_pos mod m_ring_buffer_size (grabber c)))
          (slot_pixels K E stride c (unat (wr_pos mod m_ring_buffer_size (grabber c))))]
     @ (if m_debug (grabber c) then gl_warnings E capture_the_frame else [])
     @ (if cursor_drawn K E (grabber c)
        then [Store_cursor (unat (wr_pos mod m_ring_buffer_size (grabber c)))
                (slot_cursor K E stride c (unat (wr_pos mod m_ring_buffer_size (grabber c))))]
        else [])"

definition capture_effects ::
  "shm_consts \<Rightarrow> grab_env \<Rightarrow> int \<Rightarrow> uint32 \<Rightarrow> uint32 \<Rightarrow> capture \<Rightarrow> effect list"
where
  "capture_effects K E t wr_pos stride c =
     capture_fill K E t wr_pos stride c
     @ [Store_write_pos ((wr_pos + 1) mod (m_ring_buffer_size (grabber c) * 2))]
     @ (if m_debug (grabber c) then gl_warnings E restore_settings else [])"

definition size_saved :: "grab_env \<Rightarrow> capture \<Rightarrow> capture" where
  "size_saved E c =
     emit ((if fst (XGetGeometry E) \<noteq> m_width (grabber c) \<or> snd (XGetGeometry E) \<noteq> m_height (grabber c)
            then [Message ''frame size''] else [])
           @ [Store_geometry (fst (XGetGeometry E)) (snd (XGetGeometry E)),
              Store_frame_counter (frame_counter (header c) + 1)])
       (c\<lparr>grabber := (grabber c)\<lparr>m_width := fst (XGetGeometry E), m_height := snd (XGetGeometry E)\<rparr>,
          header := (header c)\<lparr>current_width := fst (XGetGeometry E),
                               current_height := snd (XGetGeometry E),
                               frame_counter := frame_counter (header c) + 1\<rparr>\<rparr>)"

definition frames_ready :: "capture \<Rightarrow> uint32" where
  "frames_ready c =
     word_of_int (positive_mod (sint (write_pos (header c)) - sint (read_pos (header c)))
       (sint (m_ring_buffer_size (grabber c)) * 2))"

definition too_small :: "grab_env \<Rightarrow> bool" where
  "too_small E \<longleftrightarrow> fst (XGetGeometry E) < 2 \<or> snd (XGetGeometry E) < 2"

definition too_large :: "grab_env \<Rightarrow> capture \<Rightarrow> bool" where
  "too_large E c \<longleftrightarrow>
     fst (XGetGeometry E) > 10000 \<or> snd (XGetGeometry E) > 10000 \<or>
     grow_align16 (fst (XGetGeometry E) * 4) * snd (XGetGeometry E) > m_max_bytes (grabber c)"

definition warn_inv :: "capture \<Rightarrow> bool" where
  "warn_inv c \<longleftrightarrow>
     count_list (trace c) (Warning Frame_too_small) = (if m_warn_too_small (grabber c) then 0 else 1) \<and>
     count_list (trace c) (Warning Frame_too_large) = (if m_warn_too_large (grabber c) then 0 else 1)"

subsection \<open>Reading the outcome of a call\<close>

definition result_of :: "(int \<times> capture) + (grab_result \<times> capture) \<Rightarrow> grab_result option" where
  "result_of x = (case x of Inl stop \<Rightarrow> None | Inr (r, c) \<Rightarrow> Some r)"

definition capture_of :: "(int \<times> capture) + (grab_result \<times> capture) \<Rightarrow> capture" where
  "capture_of x = (case x of Inl (status, c) \<Rightarrow> c | Inr (r, c) \<Rightarrow> c)"

subsection \<open>The segments of a grabber\<close>

definition shm_events :: "effect list \<Rightarrow> effect list" where
  "shm_events tr =
     filter (\<lambda>e. case e of Shm_attach shmid \<Rightarrow> True | Shm_detach shmid \<Rightarrow> True | _ \<Rightarrow> False) tr"

definition attached_segments :: "attach_env \<Rightarrow> int list" where
  "attached_segments E =
     (case getenv_SSR_GLINJECT_SHM E of
        None \<Rightarrow> []
      | Some shm_id_str \<Rightarrow>
          atoi shm_id_str #
          map (\<lambda>i. shm_id (segment_frameinfo E (atoi shm_id_str) i))
            [0..<unat (ring_buffer_size (segment_header E (atoi shm_id_str)))])"

subsection \<open>The shared memory and the stores of a trace\<close>

text \<open>
  The memory that the recorder shares with the grabber, and what the stores recorded
  in a trace do to it, one after the other. Lines on standard error and sleeping leave
  it alone.
\<close>

record memory =
  mem_header :: GLInjectHeader
  mem_frameinfos :: "GLInjectFrameInfo list"
  mem_frame_data :: "image list"

definition shared_memory :: "capture \<Rightarrow> memory" where
  "shared_memory c =
     \<lparr>mem_header = header c, mem_frameinfos = frameinfos c, mem_frame_data = frame_data c\<rparr>"

definition store :: "effect \<Rightarrow> memory \<Rightarrow> memory" where
  "store e mem =
     (case e of
        Store_geometry w h \<Rightarrow>
          mem\<lparr>mem_header := (mem_header mem)\<lparr>current_width := w, current_height := h\<rparr>\<rparr>
      | Store_frame_counter n \<Rightarrow> mem\<lparr>mem_header := (mem_header mem)\<lparr>frame_counter := n\<rparr>\<rparr>
      | Store_frameinfo i frameinfo \<Rightarrow> mem\<lparr>mem_frameinfos := (mem_frameinfos mem)[i := frameinfo]\<rparr>
      | Store_pixels i img \<Rightarrow> mem\<lparr>mem_frame_data := (mem_frame_data mem)[i := img]\<rparr>
      | Store_cursor i img \<Rightarrow> mem\<lparr>mem_frame_data := (mem_frame_data mem)[i := img]\<rparr>
      | Store_write_pos w \<Rightarrow> mem\<lparr>mem_header := (mem_header mem)\<lparr>write_pos := w\<rparr>\<rparr>
      | _ \<Rightarrow> mem)"

definition stores :: "effect list \<Rightarrow> memory \<Rightarrow> memory" where
  "stores es mem = fold store es mem"

text \<open>
  What a published frame leaves in its slot, in terms of what the call finds: the
  time of the capture (read again after a sleep), the descriptor, and the payload.
\<close>

definition capture_time :: "shm_consts \<Rightarrow> grab_env \<Rightarrow> GLFrameGrabber \<Rightarrow> int" where
  "capture_time K E g =
     (if m_target_fps g > 0 \<and> m_flags g AND GLINJECT_FLAG_LIMIT_FPS K \<noteq> 0 \<and>
         hrt_time_micro E < m_next_frame_time g
      then hrt_time_micro_after_usleep E else hrt_time_micro E)"

definition published_descriptor ::
  "shm_consts \<Rightarrow> grab_env \<Rightarrow> GLFrameGrabber \<Rightarrow> GLInjectFrameInfo \<Rightarrow> GLInjectFrameInfo"
where
  "published_descriptor K E g frameinfo =
     frameinfo\<lparr>timestamp := capture_time K E g,
               width := fst (XGetGeometry E), height := snd (XGetGeometry E)\<rparr>"

definition published_payload :: "shm_consts \<Rightarrow> grab_env \<Rightarrow> GLFrameGrabber \<Rightarrow> image \<Rightarrow> image" where
  "published_payload K E g img =
     (let w = fst (XGetGeometry E);
          h = snd (XGetGeometry E);
          stride = grow_align16 (w * 4);
          pixels = glReadPixels E (m_flags g AND GLINJECT_FLAG_CAPTURE_FRONT K \<noteq> 0) (stride div 4) w h img
      in if m_flags g AND GLINJECT_FLAG_RECORD_CURSOR K \<noteq> 0 \<and> m_has_xfixes g then
           (case XTranslateCoordinates E of
              None \<Rightarrow> pixels
            | Some (inner_x, inner_y) \<Rightarrow>
                GLImageDrawCursor (XFixesGetCursorImage E) pixels (uint stride) (uint w) (uint h)
                  inner_x inner_y)
         else pixels)"

section \<open>Properties of the muxer\<close>

lemma prepare_packet_pts:
  "pkt_pts (prepare_packet X st i p) =
     (if pkt_pts p \<noteq> AV_NOPTS_VALUE then av_rescale_q X (pkt_pts p) (codec_time_base st) (time_base st)
      else pkt_pts p)"
  by (simp add: prepare_packet_def Let_def)

lemma prepare_packet_dts:
  "pkt_dts (prepare_packet X st i p) =
     (if pkt_dts p \<noteq> AV_NOPTS_VALUE then av_rescale_q X (pkt_dts p) (codec_time_base st) (time_base st)
      else pkt_dts p)"
  by (simp add: prepare_packet_def Let_def)

lemma find_oldest_acc_ok:
  "i \<le> length (streams ctx) \<Longrightarrow> acc_ok X ctx sd i acc \<Longrightarrow>
   acc_ok X ctx sd (length (streams ctx)) (find_oldest X ctx sd i acc)"
proof (induction X ctx sd i acc rule: find_oldest.induct)
  case (1 X ctx sd i oldest_stream oldest_pts)
  show ?case
  proof (cases "i < length (streams ctx)")
    case False
    with "1.prems" show ?thesis by (simp add: find_oldest.simps)
  next
    case True
    note lt = this
    show ?thesis
    proof (cases "stream_eligible (sd ! i)")
      case False
      have "acc_ok X ctx sd (Suc i) (oldest_stream, oldest_pts)"
        using "1.prems"(2) False by (auto simp: acc_ok_def less_Suc_eq)
      with "1.IH"(3) [OF lt False] lt False show ?thesis
        by (simp add: find_oldest.simps [of X ctx sd i])
    next
      case True
      show ?thesis
      proof (cases "stream_seconds X (streams ctx ! i) < oldest_pts")
        case True
        have "acc_ok X ctx sd (Suc i) (i, stream_seconds X (streams ctx ! i))"
          using "1.prems"(2) True \<open>stream_eligible (sd ! i)\<close>
          by (auto simp: acc_ok_def less_Suc_eq)
        with "1.IH"(1) [OF lt \<open>stream_eligible (sd ! i)\<close> refl True] lt True \<open>stream_eligible (sd ! i)\<close>
        show ?thesis by (simp add: find_oldest.simps [of X ctx sd i])
      next
        case False
        have "acc_ok X ctx sd (Suc i) (oldest_stream, oldest_pts)"
          using "1.prems"(2) False \<open>stream_eligible (sd ! i)\<close>
          by (auto simp: acc_ok_def less_Suc_eq)
        with "1.IH"(2) [OF lt \<open>stream_eligible (sd ! i)\<close> refl False] lt False \<open>stream_eligible (sd ! i)\<close>
        show ?thesis by (simp add: find_oldest.simps [of X ctx sd i])
      qed
    qed
  qed
qed

lemma find_oldest_cong:
  "\<forall>j<length (streams ctx). stream_eligible (sd' ! j) = stream_eligible (sd ! j) \<Longrightarrow>
   find_oldest X ctx sd' i acc = find_oldest X ctx sd i acc"
proof (induction X ctx sd i acc rule: find_oldest.induct)
  case (1 X ctx sd i oldest_stream oldest_pts)
  show ?case
  proof (cases "i < length (streams ctx)")
    case False
    then show ?thesis
      by (simp add: find_oldest.simps [of X ctx _ i])
  next
    case True
    with "1.prems" have e: "stream_eligible (sd' ! i) = stream_eligible (sd ! i)" by simp
    show ?thesis
      using True e "1.IH" "1.prems"
      by (simp add: find_oldest.simps [of X ctx _ i] Let_def)
  qed
qed

lemma find_oldest_start:
  "acc_ok X ctx sd (length (streams ctx)) (find_oldest X ctx sd 0 (INVALID_STREAM, DBL_MAX))"
  by (rule find_oldest_acc_ok) (simp_all add: acc_ok_def)

lemma find_oldest_selects:
  assumes sel: "find_oldest X ctx sd 0 (INVALID_STREAM, DBL_MAX) = (s, p)"
    and nb: "length (streams ctx) \<le> INVALID_STREAM"
  shows "s \<noteq> INVALID_STREAM \<longleftrightarrow>
           (\<exists>j \<in> {..<length (streams ctx)}.
              stream_eligible (sd ! j) \<and> stream_seconds X (streams ctx ! j) < DBL_MAX)"
proof -
  have ok: "acc_ok X ctx sd (length (streams ctx)) (s, p)"
    using find_oldest_start [of X ctx sd] sel by simp
  show ?thesis
  proof
    assume "s \<noteq> INVALID_STREAM"
    then have "s < length (streams ctx) \<and> stream_eligible (sd ! s) \<and>
               stream_seconds X (streams ctx ! s) < DBL_MAX"
      using ok by (auto simp: acc_ok_def)
    then show "\<exists>j \<in> {..<length (streams ctx)}.
              stream_eligible (sd ! j) \<and> stream_seconds X (streams ctx ! j) < DBL_MAX"
      by auto
  next
    assume "\<exists>j \<in> {..<length (streams ctx)}.
              stream_eligible (sd ! j) \<and> stream_seconds X (streams ctx ! j) < DBL_MAX"
    then obtain j where j: "j < length (streams ctx)" "stream_eligible (sd ! j)"
      "stream_seconds X (streams ctx ! j) < DBL_MAX"
      by auto
    from ok have "s < length (streams ctx)"
      using j by (auto simp: acc_ok_def)
    with nb show "s \<noteq> INVALID_STREAM" by simp
  qed
qed

text \<open>
  Claim C1. In every iteration of the worker loop (the number of streams is an
  \<open>unsigned int\<close>) a stream is selected if and only if some stream is eligible (not
  done, or with a non-empty queue) and has a time below the largest double, the time
  of a stream being the double product of the container-reported running pts and the
  stream's time base. The selected stream \<open>s\<close> is eligible and minimises that time
  among all eligible streams; among equal values the lowest index wins. The selection
  looks only at the done flags, at whether the queues are empty and at the container's
  values, never at the timestamps of queued packets. The packet written comes from the
  selected stream. When every stream is done and empty nothing is selected, the
  iteration leaves the loop and the thread reports that it is done.
\<close>

theorem oldest_stream_selected:
  assumes sel: "find_oldest X (m_format_context m) (m_stream_data m) 0 (INVALID_STREAM, DBL_MAX) = (s, p)"
    and nb: "length (streams (m_format_context m)) \<le> INVALID_STREAM"
  shows "(s \<noteq> INVALID_STREAM \<longleftrightarrow>
            (\<exists>j \<in> {..<length (streams (m_format_context m))}.
               stream_eligible (m_stream_data m ! j) \<and>
               stream_seconds X (streams (m_format_context m) ! j) < DBL_MAX))
       \<and> (s \<noteq> INVALID_STREAM \<longrightarrow>
            s < length (streams (m_format_context m)) \<and>
            stream_eligible (m_stream_data m ! s) \<and>
            p = stream_seconds X (streams (m_format_context m) ! s) \<and>
            (\<forall>j \<in> {..<length (streams (m_format_context m))}. stream_eligible (m_stream_data m ! j) \<longrightarrow>
                 p \<le> stream_seconds X (streams (m_format_context m) ! j)) \<and>
            (\<forall>j \<in> {..<s}. stream_eligible (m_stream_data m ! j) \<longrightarrow>
                 p < stream_seconds X (streams (m_format_context m) ! j)))
       \<and> (\<forall>r m'. MuxerThread_iteration X m = (r, m') \<longrightarrow>
            (case r of
               Break \<Rightarrow> s = INVALID_STREAM
             | Wait \<Rightarrow> s \<noteq> INVALID_STREAM \<and> m_packet_queue (m_stream_data m ! s) = []
             | Wrote w \<Rightarrow> s \<noteq> INVALID_STREAM \<and> stream_index (GetPacket w) = s \<and>
                   m_packet_queue (m_stream_data m ! s) \<noteq> []
             | Throw w \<Rightarrow> s \<noteq> INVALID_STREAM \<and> stream_index (GetPacket w) = s \<and>
                   m_packet_queue (m_stream_data m ! s) \<noteq> []))
       \<and> (\<forall>sd'. (\<forall>j \<in> {..<length (streams (m_format_context m))}.
                     stream_eligible (sd' ! j) = stream_eligible (m_stream_data m ! j)) \<longrightarrow>
                 find_oldest X (m_format_context m) sd' 0 (INVALID_STREAM, DBL_MAX) = (s, p))
       \<and> ((\<forall>j \<in> {..<length (streams (m_format_context m))}. \<not> stream_eligible (m_stream_data m ! j)) \<longrightarrow>
            s = INVALID_STREAM \<and> MuxerThread_iteration X m = (Break, m) \<and>
            (\<forall>sched. MuxerThread X ((\<lambda>sd. sd) # sched) m = Some (m\<lparr>m_thread_is_done := True\<rparr>)))"
proof -
  let ?ctx = "m_format_context m" and ?sd = "m_stream_data m"
  have ok: "acc_ok X ?ctx ?sd (length (streams ?ctx)) (s, p)"
    using find_oldest_start [of X ?ctx ?sd] sel by simp
  have S: "s \<noteq> INVALID_STREAM \<longleftrightarrow>
            (\<exists>j \<in> {..<length (streams ?ctx)}.
               stream_eligible (?sd ! j) \<and> stream_seconds X (streams ?ctx ! j) < DBL_MAX)"
    using find_oldest_selects [OF sel nb] .
  have A: "s \<noteq> INVALID_STREAM \<longrightarrow>
            s < length (streams ?ctx) \<and> stream_eligible (?sd ! s) \<and>
            p = stream_seconds X (streams ?ctx ! s) \<and>
            (\<forall>j \<in> {..<length (streams ?ctx)}. stream_eligible (?sd ! j) \<longrightarrow>
                 p \<le> stream_seconds X (streams ?ctx ! j)) \<and>
            (\<forall>j \<in> {..<s}. stream_eligible (?sd ! j) \<longrightarrow> p < stream_seconds X (streams ?ctx ! j))"
    using ok by (auto simp: acc_ok_def)
  have B: "\<forall>r m'. MuxerThread_iteration X m = (r, m') \<longrightarrow>
            (case r of
               Break \<Rightarrow> s = INVALID_STREAM
             | Wait \<Rightarrow> s \<noteq> INVALID_STREAM \<and> m_packet_queue (?sd ! s) = []
             | Wrote w \<Rightarrow> s \<noteq> INVALID_STREAM \<and> stream_index (GetPacket w) = s \<and>
                   m_packet_queue (?sd ! s) \<noteq> []
             | Throw w \<Rightarrow> s \<noteq> INVALID_STREAM \<and> stream_index (GetPacket w) = s \<and>
                   m_packet_queue (?sd ! s) \<noteq> [])"
    using sel
    by (auto simp: MuxerThread_iteration_def Let_def prepare_packet_def
             split: list.splits prod.splits if_splits iteration.splits)
  have C: "\<forall>sd'. (\<forall>j \<in> {..<length (streams ?ctx)}. stream_eligible (sd' ! j) = stream_eligible (?sd ! j)) \<longrightarrow>
                 find_oldest X ?ctx sd' 0 (INVALID_STREAM, DBL_MAX) = (s, p)"
    using find_oldest_cong [of ?ctx _ ?sd X 0 "(INVALID_STREAM, DBL_MAX)"] sel by simp
  have D: "(\<forall>j \<in> {..<length (streams ?ctx)}. \<not> stream_eligible (?sd ! j)) \<longrightarrow>
            s = INVALID_STREAM \<and> MuxerThread_iteration X m = (Break, m) \<and>
            (\<forall>sched. MuxerThread X ((\<lambda>sd. sd) # sched) m = Some (m\<lparr>m_thread_is_done := True\<rparr>))"
  proof
    assume none: "\<forall>j \<in> {..<length (streams ?ctx)}. \<not> stream_eligible (?sd ! j)"
    have s: "s = INVALID_STREAM"
      using S none by blast
    have it: "MuxerThread_iteration X m = (Break, m)"
      using sel s by (simp add: MuxerThread_iteration_def)
    show "s = INVALID_STREAM \<and> MuxerThread_iteration X m = (Break, m) \<and>
            (\<forall>sched. MuxerThread X ((\<lambda>sd. sd) # sched) m = Some (m\<lparr>m_thread_is_done := True\<rparr>))"
      using s it by simp
  qed
  from S A B C D show ?thesis by blast
qed

lemmas example_defs =
  example_muxer_def example_muxer_1s_def example_externals_def example_stream_def example_packet_def
  stream_eligible_def stream_seconds_def double_mul_def double_sub_def double_div_def
  uint64_to_double_def DBL_MAX_def INVALID_STREAM_def NOPTS_DOUBLE_def AV_NOPTS_VALUE_def

theorem oldest_stream_selected_witness:
  "find_oldest example_externals (m_format_context example_muxer) (m_stream_data example_muxer) 0
      (INVALID_STREAM, DBL_MAX) = (1, 5 / 512)
   \<and> length (streams (m_format_context example_muxer)) = 3
   \<and> (1::nat) \<noteq> INVALID_STREAM
   \<and> stream_eligible (m_stream_data example_muxer ! 0)
   \<and> stream_eligible (m_stream_data example_muxer ! 1)
   \<and> stream_eligible (m_stream_data example_muxer ! 2)
   \<and> 5 / 512 < stream_seconds example_externals (streams (m_format_context example_muxer) ! 0)
   \<and> 5 / 512 = stream_seconds example_externals (streams (m_format_context example_muxer) ! 1)
   \<and> 5 / 512 \<le> stream_seconds example_externals (streams (m_format_context example_muxer) ! 2)
   \<and> stream_seconds example_externals (streams (m_format_context example_muxer) ! 2) < DBL_MAX"
proof -
  have sel: "find_oldest example_externals (m_format_context example_muxer) (m_stream_data example_muxer) 0
      (INVALID_STREAM, DBL_MAX) = (1, 5 / 512)"
    by (simp add: find_oldest.simps example_defs)
  have e: "stream_eligible (m_stream_data example_muxer ! 0)"
     "stream_eligible (m_stream_data example_muxer ! 2)"
    by (simp_all add: example_defs)
  have d: "stream_seconds example_externals (streams (m_format_context example_muxer) ! 2) < DBL_MAX"
    by (simp add: example_defs)
  have n: "length (streams (m_format_context example_muxer)) = 3"
    by (simp add: example_muxer_def)
  then have nb: "length (streams (m_format_context example_muxer)) \<le> INVALID_STREAM"
    by (simp add: INVALID_STREAM_def)
  have two: "(2::nat) \<in> {..<3}" by simp
  from oldest_stream_selected [OF sel nb] have
    S: "(1::nat) \<noteq> INVALID_STREAM \<longleftrightarrow>
            (\<exists>j \<in> {..<length (streams (m_format_context example_muxer))}.
               stream_eligible (m_stream_data example_muxer ! j) \<and>
               stream_seconds example_externals (streams (m_format_context example_muxer) ! j) < DBL_MAX)"
    and A: "(1::nat) \<noteq> INVALID_STREAM \<longrightarrow>
            1 < length (streams (m_format_context example_muxer)) \<and>
            stream_eligible (m_stream_data example_muxer ! 1) \<and>
            5 / 512 = stream_seconds example_externals (streams (m_format_context example_muxer) ! 1) \<and>
            (\<forall>j \<in> {..<length (streams (m_format_context example_muxer))}.
                 stream_eligible (m_stream_data example_muxer ! j) \<longrightarrow>
                 5 / 512 \<le> stream_seconds example_externals (streams (m_format_context example_muxer) ! j)) \<and>
            (\<forall>j \<in> {..<1}. stream_eligible (m_stream_data example_muxer ! j) \<longrightarrow>
                 5 / 512 < stream_seconds example_externals (streams (m_format_context example_muxer) ! j))"
    by blast+
  have ne: "(1::nat) \<noteq> INVALID_STREAM"
    using S e(2) d two unfolding n by blast
  from A ne e n sel d show ?thesis by simp
qed

text \<open>
  Claim C7. The packet at the head of the selected stream's queue is handed to the
  container with its pts rescaled from the encoder time base to the stream time base
  if and only if the pts is not \<open>AV_NOPTS_VALUE\<close>, and independently so for its dts; an
  unknown pts or dts is still \<open>AV_NOPTS_VALUE\<close> afterwards.
\<close>

theorem timestamps_rescaled_unless_unknown:
  assumes sel: "find_oldest X (m_format_context m) (m_stream_data m) 0 (INVALID_STREAM, DBL_MAX) = (s, t)"
    and s: "s \<noteq> INVALID_STREAM"
    and q: "m_packet_queue (m_stream_data m ! s) = packet # rest"
  shows "\<exists>w m'. (MuxerThread_iteration X m = (Wrote w, m') \<or> MuxerThread_iteration X m = (Throw w, m')) \<and>
           (pkt_pts (GetPacket packet) \<noteq> AV_NOPTS_VALUE \<longrightarrow>
              pkt_pts (GetPacket w) =
                av_rescale_q X (pkt_pts (GetPacket packet))
                  (codec_time_base (streams (m_format_context m) ! s))
                  (time_base (streams (m_format_context m) ! s))) \<and>
           (pkt_pts (GetPacket packet) = AV_NOPTS_VALUE \<longrightarrow> pkt_pts (GetPacket w) = AV_NOPTS_VALUE) \<and>
           (pkt_dts (GetPacket packet) \<noteq> AV_NOPTS_VALUE \<longrightarrow>
              pkt_dts (GetPacket w) =
                av_rescale_q X (pkt_dts (GetPacket packet))
                  (codec_time_base (streams (m_format_context m) ! s))
                  (time_base (streams (m_format_context m) ! s))) \<and>
           (pkt_dts (GetPacket packet) = AV_NOPTS_VALUE \<longrightarrow> pkt_dts (GetPacket w) = AV_NOPTS_VALUE)"
proof -
  let ?st = "streams (m_format_context m) ! s"
  let ?p = "prepare_packet X ?st s (GetPacket packet)"
  obtain ret ctx where wr:
    "av_interleaved_write_frame X (m_format_context m) ?p = (ret, ctx)"
    by (cases "av_interleaved_write_frame X (m_format_context m) ?p")
  have P: "(pkt_pts (GetPacket packet) \<noteq> AV_NOPTS_VALUE \<longrightarrow>
              pkt_pts ?p = av_rescale_q X (pkt_pts (GetPacket packet)) (codec_time_base ?st) (time_base ?st)) \<and>
           (pkt_pts (GetPacket packet) = AV_NOPTS_VALUE \<longrightarrow> pkt_pts ?p = AV_NOPTS_VALUE) \<and>
           (pkt_dts (GetPacket packet) \<noteq> AV_NOPTS_VALUE \<longrightarrow>
              pkt_dts ?p = av_rescale_q X (pkt_dts (GetPacket packet)) (codec_time_base ?st) (time_base ?st)) \<and>
           (pkt_dts (GetPacket packet) = AV_NOPTS_VALUE \<longrightarrow> pkt_dts ?p = AV_NOPTS_VALUE)"
    by (simp add: prepare_packet_pts prepare_packet_dts)
  show ?thesis
  proof (cases "ret = 0")
    case True
    have "\<exists>m'. MuxerThread_iteration X m = (Wrote (packet\<lparr>GetPacket := ?p, m_free_on_destruct := False\<rparr>), m')"
      using sel s q wr True by (simp add: MuxerThread_iteration_def Let_def)
    with P show ?thesis by fastforce
  next
    case False
    have "\<exists>m'. MuxerThread_iteration X m = (Throw (packet\<lparr>GetPacket := ?p\<rparr>), m')"
      using sel s q wr False by (simp add: MuxerThread_iteration_def Let_def)
    with P show ?thesis by fastforce
  qed
qed

theorem timestamps_rescaled_unless_unknown_witness:
  "\<exists>w m'. MuxerThread_iteration example_externals example_muxer = (Wrote w, m') \<and>
      pkt_pts (GetPacket w) = 80 \<and> pkt_dts (GetPacket w) = AV_NOPTS_VALUE"
proof -
  have sel: "find_oldest example_externals (m_format_context example_muxer) (m_stream_data example_muxer) 0
      (INVALID_STREAM, DBL_MAX) = (1, 5 / 512)"
    by (simp add: find_oldest.simps example_defs)
  have ne: "(1::nat) \<noteq> INVALID_STREAM"
    by (simp add: INVALID_STREAM_def)
  have q: "m_packet_queue (m_stream_data example_muxer ! 1) = example_packet 2 AV_NOPTS_VALUE # []"
    by (simp add: example_defs)
  have ok: "\<And>w m'. MuxerThread_iteration example_externals example_muxer \<noteq> (Throw w, m')"
    using sel ne by (simp add: MuxerThread_iteration_def Let_def example_defs split: list.splits)
  have r: "av_rescale_q example_externals (pkt_pts (GetPacket (example_packet 2 AV_NOPTS_VALUE)))
             (codec_time_base (streams (m_format_context example_muxer) ! 1))
             (time_base (streams (m_format_context example_muxer) ! 1)) = 80"
    by (simp add: example_defs)
  have p: "pkt_pts (GetPacket (example_packet 2 AV_NOPTS_VALUE)) \<noteq> AV_NOPTS_VALUE"
      "pkt_dts (GetPacket (example_packet 2 AV_NOPTS_VALUE)) = AV_NOPTS_VALUE"
    by (simp_all add: example_defs)
  from timestamps_rescaled_unless_unknown [OF sel ne q] ok r p show ?thesis by metis
qed

lemma unat_bytes_times_8:
  fixes a b :: uint64
  assumes "b \<le> a" and "unat a - unat b < 2 ^ 61"
  shows "unat ((a - b) * 8) = (unat a - unat b) * 8"
proof -
  have 1: "unat (a - b) = unat a - unat b"
    using assms(1) by (simp add: unat_sub)
  have "unat (x * 8) = (unat x * 8) mod 2 ^ 64" for x :: uint64
    by (simp add: unat_word_ariths)
  then have "unat ((a - b) * 8) = (unat (a - b) * 8) mod 2 ^ 64" .
  also have "\<dots> = unat (a - b) * 8"
    using assms(2) 1 by simp
  finally show ?thesis using 1 by simp
qed

lemma threshold_positive: "0 < DOUBLE_0_999999"
  by (simp add: DOUBLE_0_999999_def)

lemma Wrote_shared:
  assumes it: "MuxerThread_iteration X m = (Wrote w, m')"
    and sel: "find_oldest X (m_format_context m) (m_stream_data m) 0 (INVALID_STREAM, DBL_MAX) = (s, oldest_pts)"
  shows "m_shared_data m' =
           update_byte_counter X (pb (m_format_context m')) oldest_pts (m_shared_data m)"
    and "m_format_context m' =
           snd (av_interleaved_write_frame X (m_format_context m) (GetPacket w))"
proof -
  have "m_shared_data m' =
           update_byte_counter X (pb (m_format_context m')) oldest_pts (m_shared_data m) \<and>
        m_format_context m' =
           snd (av_interleaved_write_frame X (m_format_context m) (GetPacket w))"
    using it sel
    by (auto simp: MuxerThread_iteration_def Let_def split: if_splits list.splits prod.splits)
  then show "m_shared_data m' =
           update_byte_counter X (pb (m_format_context m')) oldest_pts (m_shared_data m)"
    and "m_format_context m' =
           snd (av_interleaved_write_frame X (m_format_context m) (GetPacket w))"
    by simp_all
qed

lemma iteration_total_bytes:
  assumes it: "MuxerThread_iteration X m = (r, m')"
    and lib: "offset_never_back X"
    and inv: "m_total_bytes (m_shared_data m) \<le> file_offset (pb (m_format_context m))"
  shows "m_total_bytes (m_shared_data m) \<le> m_total_bytes (m_shared_data m')"
    and "m_total_bytes (m_shared_data m') \<le> file_offset (pb (m_format_context m'))"
proof -
  obtain s oldest_pts where sel:
    "find_oldest X (m_format_context m) (m_stream_data m) 0 (INVALID_STREAM, DBL_MAX) = (s, oldest_pts)"
    by (cases "find_oldest X (m_format_context m) (m_stream_data m) 0 (INVALID_STREAM, DBL_MAX)")
  have lib_step: "\<And>p. file_offset (pb (m_format_context m))
                 \<le> file_offset (pb (snd (av_interleaved_write_frame X (m_format_context m) p)))"
    using lib by (simp add: offset_never_back_def)
  have "m_total_bytes (m_shared_data m) \<le> m_total_bytes (m_shared_data m') \<and>
        m_total_bytes (m_shared_data m') \<le> file_offset (pb (m_format_context m'))"
  proof (cases r)
    case Break
    then have "m' = m" using it sel
      by (auto simp: MuxerThread_iteration_def Let_def split: if_splits list.splits prod.splits)
    with inv show ?thesis by simp
  next
    case Wait
    then have "m' = m" using it sel
      by (auto simp: MuxerThread_iteration_def Let_def split: if_splits list.splits prod.splits)
    with inv show ?thesis by simp
  next
    case (Wrote w)
    with it have w: "MuxerThread_iteration X m = (Wrote w, m')" by simp
    have t: "m_total_bytes (m_shared_data m') = file_offset (pb (m_format_context m'))"
      unfolding Wrote_shared(1) [OF w sel] by (simp add: update_byte_counter_def Let_def)
    have "file_offset (pb (m_format_context m)) \<le> file_offset (pb (m_format_context m'))"
      unfolding Wrote_shared(2) [OF w sel] by (rule lib_step)
    with inv t show ?thesis by simp
  next
    case (Throw w)
    then have "m_shared_data m' = m_shared_data m \<and>
        m_format_context m' = snd (av_interleaved_write_frame X (m_format_context m) (GetPacket w))"
      using it sel
      by (auto simp: MuxerThread_iteration_def Let_def split: if_splits list.splits prod.splits)
    with inv lib_step [of "GetPacket w"] show ?thesis by simp
  qed
  then show "m_total_bytes (m_shared_data m) \<le> m_total_bytes (m_shared_data m')"
    and "m_total_bytes (m_shared_data m') \<le> file_offset (pb (m_format_context m'))"
    by simp_all
qed

lemma MuxerThread_total_bytes:
  "MuxerThread X sched m = Some m_end \<Longrightarrow> offset_never_back X \<Longrightarrow>
   m_total_bytes (m_shared_data m) \<le> file_offset (pb (m_format_context m)) \<Longrightarrow>
   m_total_bytes (m_shared_data m) \<le> m_total_bytes (m_shared_data m_end)"
proof (induction sched arbitrary: m)
  case Nil
  then show ?case by simp
next
  case (Cons encoders sched)
  let ?m = "m\<lparr>m_stream_data := encoders (m_stream_data m)\<rparr>"
  obtain r m' where it: "MuxerThread_iteration X ?m = (r, m')"
    by (cases "MuxerThread_iteration X ?m")
  have inv: "m_total_bytes (m_shared_data ?m) \<le> file_offset (pb (m_format_context ?m))"
    using Cons.prems(3) by simp
  note step = iteration_total_bytes [OF it Cons.prems(2) inv]
  show ?case
  proof (cases r)
    case Break
    with Cons.prems(1) it have "m_end = m'\<lparr>m_thread_is_done := True\<rparr>" by simp
    with step(1) show ?thesis by simp
  next
    case (Throw w)
    with Cons.prems(1) it have "m_end = m'\<lparr>m_error_occurred := True\<rparr>" by simp
    with step(1) show ?thesis by simp
  next
    case Wait
    with Cons.prems(1) it have "MuxerThread X sched m' = Some m_end" by simp
    from Cons.IH [OF this Cons.prems(2) step(2)] step(1) show ?thesis by simp
  next
    case (Wrote w)
    with Cons.prems(1) it have "MuxerThread X sched m' = Some m_end" by simp
    from Cons.IH [OF this Cons.prems(2) step(2)] step(1) show ?thesis by simp
  qed
qed

text \<open>
  Claim C5, amended. After a successful container write \<open>total_bytes\<close> is the
  current file offset of the container as the library's write left it; it has not
  decreased if it was not ahead of the container's offset before the write and the
  library's write did not move that offset back. The first update seeds the window point and leaves the bit rate alone.
  Thereafter, exactly when the stream time elapsed since the window point (the double
  difference \<open>pts - window_prev_pts\<close>) exceeds the double constant \<open>0.999999\<close>, the bit rate
  becomes \<open>(total_bytes - window_prev_bytes) * 8\<close> (in unsigned 64-bit arithmetic, then
  cast to double) divided by the elapsed time and the window point is re-seeded;
  otherwise bit rate and window point stay as they were. Across the iterations of the
  worker, from this one to the end of the thread, \<open>total_bytes\<close> does not decrease if
  the container library never moves the file offset back. Zero is a double.
\<close>

theorem byte_counter_update:
  assumes it: "MuxerThread_iteration X m = (Wrote w, m')"
    and sel: "find_oldest X (m_format_context m) (m_stream_data m) 0 (INVALID_STREAM, DBL_MAX) = (s, oldest_pts)"
    and zero: "round_to_double X 0 = 0"
  shows "m_total_bytes (m_shared_data m') = file_offset (pb (m_format_context m'))
       \<and> m_format_context m' =
           snd (av_interleaved_write_frame X (m_format_context m) (GetPacket w))
       \<and> (m_total_bytes (m_shared_data m) \<le> file_offset (pb (m_format_context m)) \<and>
          file_offset (pb (m_format_context m)) \<le>
            file_offset (pb (snd (av_interleaved_write_frame X (m_format_context m) (GetPacket w))))
            \<longrightarrow> m_total_bytes (m_shared_data m) \<le> m_total_bytes (m_shared_data m'))
       \<and> (m_stats_previous_pts (m_shared_data m) = NOPTS_DOUBLE \<longrightarrow>
            m_stats_previous_pts (m_shared_data m') = oldest_pts \<and>
            m_stats_previous_bytes (m_shared_data m') = m_total_bytes (m_shared_data m') \<and>
            m_stats_actual_bit_rate (m_shared_data m') = m_stats_actual_bit_rate (m_shared_data m))
       \<and> (m_stats_previous_pts (m_shared_data m) \<noteq> NOPTS_DOUBLE \<and>
          double_sub X oldest_pts (m_stats_previous_pts (m_shared_data m)) > DOUBLE_0_999999 \<longrightarrow>
            m_stats_actual_bit_rate (m_shared_data m') =
              double_div X
                (uint64_to_double X
                   ((m_total_bytes (m_shared_data m') - m_stats_previous_bytes (m_shared_data m)) * 8))
                (double_sub X oldest_pts (m_stats_previous_pts (m_shared_data m))) \<and>
            m_stats_previous_pts (m_shared_data m') = oldest_pts \<and>
            m_stats_previous_bytes (m_shared_data m') = m_total_bytes (m_shared_data m'))
       \<and> (m_stats_previous_pts (m_shared_data m) \<noteq> NOPTS_DOUBLE \<and>
          \<not> double_sub X oldest_pts (m_stats_previous_pts (m_shared_data m)) > DOUBLE_0_999999 \<longrightarrow>
            m_stats_actual_bit_rate (m_shared_data m') = m_stats_actual_bit_rate (m_shared_data m) \<and>
            m_stats_previous_pts (m_shared_data m') = m_stats_previous_pts (m_shared_data m) \<and>
            m_stats_previous_bytes (m_shared_data m') = m_stats_previous_bytes (m_shared_data m))
       \<and> (m_stats_previous_bytes (m_shared_data m) \<le> m_total_bytes (m_shared_data m') \<and>
          unat (m_total_bytes (m_shared_data m')) - unat (m_stats_previous_bytes (m_shared_data m)) < 2 ^ 61 \<longrightarrow>
            uint64_to_double X
              ((m_total_bytes (m_shared_data m') - m_stats_previous_bytes (m_shared_data m)) * 8) =
            round_to_double X
              ((real (unat (m_total_bytes (m_shared_data m')))
                  - real (unat (m_stats_previous_bytes (m_shared_data m)))) * 8))
       \<and> (offset_never_back X \<and>
          m_total_bytes (m_shared_data m) \<le> file_offset (pb (m_format_context m)) \<longrightarrow>
            m_total_bytes (m_shared_data m) \<le> m_total_bytes (m_shared_data m') \<and>
            (\<forall>sched m_end. MuxerThread X sched m' = Some m_end \<longrightarrow>
               m_total_bytes (m_shared_data m') \<le> m_total_bytes (m_shared_data m_end)))"
proof -
  note sh = Wrote_shared(1) [OF it sel]
  note ctx = Wrote_shared(2) [OF it sel]
  have T: "m_total_bytes (m_shared_data m') = file_offset (pb (m_format_context m'))"
    unfolding sh by (simp add: update_byte_counter_def Let_def)
  have M: "m_total_bytes (m_shared_data m) \<le> file_offset (pb (m_format_context m)) \<and>
          file_offset (pb (m_format_context m)) \<le>
            file_offset (pb (snd (av_interleaved_write_frame X (m_format_context m) (GetPacket w))))
            \<longrightarrow> m_total_bytes (m_shared_data m) \<le> m_total_bytes (m_shared_data m')"
    unfolding T ctx by auto
  have W: "m_stats_previous_bytes (m_shared_data m) \<le> m_total_bytes (m_shared_data m') \<and>
          unat (m_total_bytes (m_shared_data m')) - unat (m_stats_previous_bytes (m_shared_data m)) < 2 ^ 61 \<longrightarrow>
            uint64_to_double X
              ((m_total_bytes (m_shared_data m') - m_stats_previous_bytes (m_shared_data m)) * 8) =
            round_to_double X
              ((real (unat (m_total_bytes (m_shared_data m')))
                  - real (unat (m_stats_previous_bytes (m_shared_data m)))) * 8)"
  proof
    assume a: "m_stats_previous_bytes (m_shared_data m) \<le> m_total_bytes (m_shared_data m') \<and>
          unat (m_total_bytes (m_shared_data m')) - unat (m_stats_previous_bytes (m_shared_data m)) < 2 ^ 61"
    then have le: "unat (m_stats_previous_bytes (m_shared_data m)) \<le> unat (m_total_bytes (m_shared_data m'))"
      by (simp add: word_le_nat_alt)
    have "real (unat ((m_total_bytes (m_shared_data m') - m_stats_previous_bytes (m_shared_data m)) * 8)) =
              (real (unat (m_total_bytes (m_shared_data m'))) - real (unat (m_stats_previous_bytes (m_shared_data m)))) * 8"
      using a le unat_bytes_times_8 [of "m_stats_previous_bytes (m_shared_data m)" "m_total_bytes (m_shared_data m')"]
      by (simp add: of_nat_diff)
    then show "uint64_to_double X
              ((m_total_bytes (m_shared_data m') - m_stats_previous_bytes (m_shared_data m)) * 8) =
            round_to_double X
              ((real (unat (m_total_bytes (m_shared_data m')))
                  - real (unat (m_stats_previous_bytes (m_shared_data m)))) * 8)"
      by (simp add: uint64_to_double_def)
  qed
  have z: "\<not> double_sub X oldest_pts oldest_pts > DOUBLE_0_999999"
    using threshold_positive by (simp add: double_sub_def zero)
  have F: "m_stats_previous_pts (m_shared_data m) = NOPTS_DOUBLE \<longrightarrow>
            m_stats_previous_pts (m_shared_data m') = oldest_pts \<and>
            m_stats_previous_bytes (m_shared_data m') = m_total_bytes (m_shared_data m') \<and>
            m_stats_actual_bit_rate (m_shared_data m') = m_stats_actual_bit_rate (m_shared_data m)"
    unfolding sh using z by (simp add: update_byte_counter_def Let_def)
  have R: "m_stats_previous_pts (m_shared_data m) \<noteq> NOPTS_DOUBLE \<and>
          double_sub X oldest_pts (m_stats_previous_pts (m_shared_data m)) > DOUBLE_0_999999 \<longrightarrow>
            m_stats_actual_bit_rate (m_shared_data m') =
              double_div X
                (uint64_to_double X
                   ((m_total_bytes (m_shared_data m') - m_stats_previous_bytes (m_shared_data m)) * 8))
                (double_sub X oldest_pts (m_stats_previous_pts (m_shared_data m))) \<and>
            m_stats_previous_pts (m_shared_data m') = oldest_pts \<and>
            m_stats_previous_bytes (m_shared_data m') = m_total_bytes (m_shared_data m')"
    unfolding sh by (simp add: update_byte_counter_def Let_def)
  have U: "m_stats_previous_pts (m_shared_data m) \<noteq> NOPTS_DOUBLE \<and>
          \<not> double_sub X oldest_pts (m_stats_previous_pts (m_shared_data m)) > DOUBLE_0_999999 \<longrightarrow>
            m_stats_actual_bit_rate (m_shared_data m') = m_stats_actual_bit_rate (m_shared_data m) \<and>
            m_stats_previous_pts (m_shared_data m') = m_stats_previous_pts (m_shared_data m) \<and>
            m_stats_previous_bytes (m_shared_data m') = m_stats_previous_bytes (m_shared_data m)"
    unfolding sh by (simp add: update_byte_counter_def Let_def)
  have L: "offset_never_back X \<and>
          m_total_bytes (m_shared_data m) \<le> file_offset (pb (m_format_context m)) \<longrightarrow>
            m_total_bytes (m_shared_data m) \<le> m_total_bytes (m_shared_data m') \<and>
            (\<forall>sched m_end. MuxerThread X sched m' = Some m_end \<longrightarrow>
               m_total_bytes (m_shared_data m') \<le> m_total_bytes (m_shared_data m_end))"
  proof
    assume a: "offset_never_back X \<and>
          m_total_bytes (m_shared_data m) \<le> file_offset (pb (m_format_context m))"
    then have lib: "offset_never_back X"
      and inv: "m_total_bytes (m_shared_data m) \<le> file_offset (pb (m_format_context m))"
      by simp_all
    note step = iteration_total_bytes [OF it lib inv]
    have "\<forall>sched m_end. MuxerThread X sched m' = Some m_end \<longrightarrow>
               m_total_bytes (m_shared_data m') \<le> m_total_bytes (m_shared_data m_end)"
      using MuxerThread_total_bytes [OF _ lib step(2)] by blast
    with step(1) show "m_total_bytes (m_shared_data m) \<le> m_total_bytes (m_shared_data m') \<and>
            (\<forall>sched m_end. MuxerThread X sched m' = Some m_end \<longrightarrow>
               m_total_bytes (m_shared_data m') \<le> m_total_bytes (m_shared_data m_end))"
      by simp
  qed
  from T ctx M F R U W L show ?thesis by blast
qed

text \<open>
  Claim C5 as the specification words it fails twice. "Exactly when the elapsed
  stream-time exceeds 1 second": with the window point at 0 s and the selected stream at
  exactly 1 s (1024 ticks of 1/1024 s), the elapsed time \<open>1.0 - 0.0\<close> does not exceed
  one second, yet the bit rate is recomputed and the window re-seeded, because the
  threshold of the source is 0.999999. "Monotonically non-decreasing": the worker
  stores whatever offset the container library reports; with a library that leaves
  the offset at 24 when the counter stood at 27, \<open>total_bytes\<close> goes down to 24.
\<close>

theorem bit_rate_recomputed_at_one_second:
  "fst (MuxerThread_iteration example_externals example_muxer_1s) =
     Wrote \<lparr>GetPacket = \<lparr>pkt_pts = 2000, pkt_dts = 2000, stream_index = 0, pkt_data = [1, 2, 3]\<rparr>,
            m_free_on_destruct = False\<rparr> \<and>
   snd (find_oldest example_externals (m_format_context example_muxer_1s)
          (m_stream_data example_muxer_1s) 0 (INVALID_STREAM, DBL_MAX)) = 1 \<and>
   m_stats_previous_pts (m_shared_data example_muxer_1s) = 0 \<and>
   double_sub example_externals 1 0 = 1 \<and>
   \<not> (double_sub example_externals 1 0 > 1) \<and>
   m_stats_actual_bit_rate (m_shared_data example_muxer_1s) = 0 \<and>
   m_stats_actual_bit_rate
     (m_shared_data (snd (MuxerThread_iteration example_externals example_muxer_1s))) = 8000 \<and>
   m_stats_previous_pts
     (m_shared_data (snd (MuxerThread_iteration example_externals example_muxer_1s))) = 1 \<and>
   fst (MuxerThread_iteration example_externals_rewinding example_muxer_1s) =
     Wrote \<lparr>GetPacket = \<lparr>pkt_pts = 2000, pkt_dts = 2000, stream_index = 0, pkt_data = [1, 2, 3]\<rparr>,
            m_free_on_destruct = False\<rparr> \<and>
   m_total_bytes (m_shared_data example_muxer_1s) = 27 \<and>
   m_total_bytes
     (m_shared_data (snd (MuxerThread_iteration example_externals_rewinding example_muxer_1s))) = 24"
proof -
  have a: "fst (MuxerThread_iteration example_externals example_muxer_1s) =
     Wrote \<lparr>GetPacket = \<lparr>pkt_pts = 2000, pkt_dts = 2000, stream_index = 0, pkt_data = [1, 2, 3]\<rparr>,
            m_free_on_destruct = False\<rparr> \<and>
   snd (find_oldest example_externals (m_format_context example_muxer_1s)
          (m_stream_data example_muxer_1s) 0 (INVALID_STREAM, DBL_MAX)) = 1 \<and>
   m_stats_previous_pts (m_shared_data example_muxer_1s) = 0 \<and>
   double_sub example_externals 1 0 = 1 \<and>
   \<not> (double_sub example_externals 1 0 > 1) \<and>
   m_stats_actual_bit_rate (m_shared_data example_muxer_1s) = 0 \<and>
   m_stats_actual_bit_rate
     (m_shared_data (snd (MuxerThread_iteration example_externals example_muxer_1s))) = 8000 \<and>
   m_stats_previous_pts
     (m_shared_data (snd (MuxerThread_iteration example_externals example_muxer_1s))) = 1"
    by (simp add: MuxerThread_iteration_def Let_def find_oldest.simps example_defs update_byte_counter_def
          prepare_packet_def file_offset_def DOUBLE_0_999999_def)
  have b: "fst (MuxerThread_iteration example_externals_rewinding example_muxer_1s) =
     Wrote \<lparr>GetPacket = \<lparr>pkt_pts = 2000, pkt_dts = 2000, stream_index = 0, pkt_data = [1, 2, 3]\<rparr>,
            m_free_on_destruct = False\<rparr> \<and>
   m_total_bytes (m_shared_data example_muxer_1s) = 27 \<and>
   m_total_bytes
     (m_shared_data (snd (MuxerThread_iteration example_externals_rewinding example_muxer_1s))) = 24"
    by (simp add: MuxerThread_iteration_def Let_def find_oldest.simps example_defs update_byte_counter_def
          prepare_packet_def file_offset_def DOUBLE_0_999999_def example_externals_rewinding_def)
  from a b show ?thesis by simp
qed

theorem byte_counter_update_witness:
  "\<exists>w m'. MuxerThread_iteration example_externals example_muxer_1s = (Wrote w, m') \<and>
      round_to_double example_externals 0 = 0 \<and>
      m_total_bytes (m_shared_data example_muxer_1s) = 27 \<and>
      file_offset (pb (m_format_context example_muxer_1s)) = 1024 \<and>
      m_total_bytes (m_shared_data m') = 1027 \<and>
      m_stats_actual_bit_rate (m_shared_data m') = 8000 \<and>
      m_stats_previous_pts (m_shared_data m') = 1 \<and>
      m_stats_previous_bytes (m_shared_data m') = 1027"
proof -
  obtain w m' where it: "MuxerThread_iteration example_externals example_muxer_1s = (Wrote w, m')"
    by (simp add: MuxerThread_iteration_def Let_def find_oldest.simps example_defs)
  have sel: "find_oldest example_externals (m_format_context example_muxer_1s)
      (m_stream_data example_muxer_1s) 0 (INVALID_STREAM, DBL_MAX) = (0, 1)"
    by (simp add: find_oldest.simps example_defs)
  have zero: "round_to_double example_externals 0 = 0"
    by (simp add: example_externals_def)
  have io: "file_offset (pb (m_format_context m')) = 1027"
    using it
    by (auto simp: MuxerThread_iteration_def Let_def find_oldest.simps example_defs prepare_packet_def
          file_offset_def)
  have old: "m_stats_previous_pts (m_shared_data example_muxer_1s) = 0"
      "m_stats_previous_bytes (m_shared_data example_muxer_1s) = 27"
      "m_total_bytes (m_shared_data example_muxer_1s) = 27"
      "file_offset (pb (m_format_context example_muxer_1s)) = 1024"
    by (simp_all add: example_defs file_offset_def)
  have d: "double_sub example_externals 1 0 = 1" "DOUBLE_0_999999 < 1"
    "double_div example_externals (uint64_to_double example_externals ((1027 - 27) * 8)) 1 = 8000"
    by (simp_all add: example_defs DOUBLE_0_999999_def)
  from byte_counter_update [OF it sel zero] io old it zero d show ?thesis
    by (simp add: NOPTS_DOUBLE_def DBL_MAX_def)
qed

section \<open>Properties of the cursor compositing\<close>

lemma draw_cursor_pixel_other:
  "k \<noteq> p \<Longrightarrow> k \<noteq> p + 1 \<Longrightarrow> k \<noteq> p + 2 \<Longrightarrow> draw_cursor_pixel cp p img k = img k"
  by (simp add: draw_cursor_pixel_def Let_def)

lemma draw_cursor_pixel_at:
  "ch \<in> {0, 1, 2} \<Longrightarrow> draw_cursor_pixel cp p img (p + ch) = cursor_channel (img (p + ch)) cp ch"
  by (auto simp: draw_cursor_pixel_def Let_def cursor_channel_def)

lemma draw_cursor_row_other:
  "(\<And>i'. i \<le> i' \<Longrightarrow> i' < cursor_right \<Longrightarrow>
      k \<noteq> image_row + 4 * (x + i') \<and> k \<noteq> image_row + 4 * (x + i') + 1 \<and> k \<noteq> image_row + 4 * (x + i') + 2)
   \<Longrightarrow> draw_cursor_row xcim cursor_row image_row x i cursor_right img k = img k"
proof (induction xcim cursor_row image_row x i cursor_right img rule: draw_cursor_row.induct)
  case (1 xcim cursor_row image_row x i cursor_right img)
  show ?case
  proof (cases "i < cursor_right")
    case False
    then show ?thesis by (simp add: draw_cursor_row.simps [of _ _ _ _ i])
  next
    case True
    let ?img1 = "draw_cursor_pixel (xcim_pixels xcim (cursor_row + i)) (image_row + 4 * (x + i)) img"
    have "draw_cursor_row xcim cursor_row image_row x (i + 1) cursor_right ?img1 k = ?img1 k"
      by (rule "1.IH" [OF True refl refl]) (use "1.prems" in force)
    moreover have "?img1 k = img k"
      using "1.prems" [of i] True by (simp add: draw_cursor_pixel_other)
    ultimately show ?thesis
      using True by (simp add: draw_cursor_row.simps [of _ _ _ _ i] Let_def)
  qed
qed

lemma draw_cursor_row_at:
  "i \<le> i0 \<Longrightarrow> i0 < cursor_right \<Longrightarrow> ch \<in> {0, 1, 2} \<Longrightarrow>
   draw_cursor_row xcim cursor_row image_row x i cursor_right img (image_row + 4 * (x + i0) + ch) =
   cursor_channel (img (image_row + 4 * (x + i0) + ch)) (xcim_pixels xcim (cursor_row + i0)) ch"
proof (induction xcim cursor_row image_row x i cursor_right img rule: draw_cursor_row.induct)
  case (1 xcim cursor_row image_row x i cursor_right img)
  let ?img1 = "draw_cursor_pixel (xcim_pixels xcim (cursor_row + i)) (image_row + 4 * (x + i)) img"
  let ?k = "image_row + 4 * (x + i0) + ch"
  have lt: "i < cursor_right" using "1.prems" by simp
  have unfold: "draw_cursor_row xcim cursor_row image_row x i cursor_right img ?k =
      draw_cursor_row xcim cursor_row image_row x (i + 1) cursor_right ?img1 ?k"
    using lt by (simp add: draw_cursor_row.simps [of _ _ _ _ i] Let_def)
  show ?case
  proof (cases "i = i0")
    case True
    have "draw_cursor_row xcim cursor_row image_row x (i + 1) cursor_right ?img1 ?k = ?img1 ?k"
      by (rule draw_cursor_row_other) (use True "1.prems"(3) in \<open>auto, presburger+\<close>)
    also have "?img1 ?k = cursor_channel (img ?k) (xcim_pixels xcim (cursor_row + i0)) ch"
      using True draw_cursor_pixel_at [OF "1.prems"(3)] by simp
    finally show ?thesis using unfold by simp
  next
    case False
    then have le: "i + 1 \<le> i0" using "1.prems"(1) by simp
    have "draw_cursor_row xcim cursor_row image_row x (i + 1) cursor_right ?img1 ?k =
        cursor_channel (?img1 ?k) (xcim_pixels xcim (cursor_row + i0)) ch"
      by (rule "1.IH" [OF lt refl refl le "1.prems"(2) "1.prems"(3)])
    moreover have "?img1 ?k = img ?k"
      by (rule draw_cursor_pixel_other) (use le "1.prems"(3) in \<open>auto, presburger+\<close>)
    ultimately show ?thesis using unfold by simp
  qed
qed

lemma draw_cursor_rows_other:
  "(\<And>j' i'. j \<le> j' \<Longrightarrow> j' < cursor_bottom \<Longrightarrow> cursor_left \<le> i' \<Longrightarrow> i' < cursor_right \<Longrightarrow>
      k \<noteq> image_stride * (image_height - 1 - y - j') + 4 * (x + i') \<and>
      k \<noteq> image_stride * (image_height - 1 - y - j') + 4 * (x + i') + 1 \<and>
      k \<noteq> image_stride * (image_height - 1 - y - j') + 4 * (x + i') + 2)
   \<Longrightarrow> draw_cursor_rows xcim image_stride image_height x y cursor_left cursor_right j cursor_bottom img k = img k"
proof (induction xcim image_stride image_height x y cursor_left cursor_right j cursor_bottom img
       rule: draw_cursor_rows.induct)
  case (1 xcim image_stride image_height x y cursor_left cursor_right j cursor_bottom img)
  show ?case
  proof (cases "j < cursor_bottom")
    case False
    then show ?thesis by (simp add: draw_cursor_rows.simps [of _ _ _ _ _ _ _ j])
  next
    case True
    let ?img1 = "draw_cursor_row xcim (xcim_width xcim * j) (image_stride * (image_height - 1 - y - j))
                   x cursor_left cursor_right img"
    have "draw_cursor_rows xcim image_stride image_height x y cursor_left cursor_right (j + 1)
            cursor_bottom ?img1 k = ?img1 k"
      by (rule "1.IH" [OF True refl refl]) (use "1.prems" in force)
    moreover have "?img1 k = img k"
      by (rule draw_cursor_row_other) (use "1.prems" [of j] True in simp)
    ultimately show ?thesis
      using True by (simp add: draw_cursor_rows.simps [of _ _ _ _ _ _ _ j] Let_def)
  qed
qed

lemma row_addr_neq:
  fixes s :: int
  assumes "0 \<le> a" "a < s" "0 \<le> b" "b < s" "r \<noteq> r'"
  shows "s * r + a \<noteq> s * r' + b"
proof
  assume e: "s * r + a = s * r' + b"
  have s: "s \<noteq> 0" using assms by auto
  have "(a + s * r) div s = r" "(b + s * r') div s = r'"
    using assms s by (simp_all add: div_pos_pos_trivial)
  with e assms(5) show False by (simp add: add.commute)
qed

lemma draw_cursor_rows_at:
  assumes "j \<le> j0" "j0 < cursor_bottom" "cursor_left \<le> i0" "i0 < cursor_right" "ch \<in> {0, 1, 2}"
    and vis: "0 \<le> x + cursor_left" "4 * (x + cursor_right) \<le> image_stride"
  shows "draw_cursor_rows xcim image_stride image_height x y cursor_left cursor_right j cursor_bottom img
           (image_stride * (image_height - 1 - y - j0) + 4 * (x + i0) + ch) =
         cursor_channel (img (image_stride * (image_height - 1 - y - j0) + 4 * (x + i0) + ch))
           (xcim_pixels xcim (xcim_width xcim * j0 + i0)) ch"
  using assms
proof (induction xcim image_stride image_height x y cursor_left cursor_right j cursor_bottom img
       rule: draw_cursor_rows.induct)
  case (1 xcim image_stride image_height x y cursor_left cursor_right j cursor_bottom img)
  let ?row = "\<lambda>j. image_stride * (image_height - 1 - y - j)"
  let ?img1 = "draw_cursor_row xcim (xcim_width xcim * j) (?row j) x cursor_left cursor_right img"
  let ?k = "?row j0 + 4 * (x + i0) + ch"
  have lt: "j < cursor_bottom" using "1.prems" by simp
  have off0: "0 \<le> 4 * (x + i0) + ch" "4 * (x + i0) + ch < image_stride"
    using "1.prems" by auto
  have differ: "\<And>j' i' c'. j' \<noteq> j0 \<Longrightarrow> cursor_left \<le> i' \<Longrightarrow> i' < cursor_right \<Longrightarrow> c' \<in> {0, 1, 2} \<Longrightarrow>
      ?k \<noteq> ?row j' + 4 * (x + i') + c'"
  proof -
    fix j' i' c' :: int
    assume a: "j' \<noteq> j0" "cursor_left \<le> i'" "i' < cursor_right" "c' \<in> {0, 1, 2}"
    have o: "0 \<le> 4 * (x + i') + c'" "4 * (x + i') + c' < image_stride"
      using a "1.prems" by auto
    have r: "image_height - 1 - y - j0 \<noteq> image_height - 1 - y - j'" using a by simp
    from row_addr_neq [OF off0 o r]
    show "?k \<noteq> ?row j' + 4 * (x + i') + c'" by (simp add: add.assoc)
  qed
  have unfold: "draw_cursor_rows xcim image_stride image_height x y cursor_left cursor_right j cursor_bottom img ?k =
      draw_cursor_rows xcim image_stride image_height x y cursor_left cursor_right (j + 1) cursor_bottom ?img1 ?k"
    using lt by (simp add: draw_cursor_rows.simps [of _ _ _ _ _ _ _ j] Let_def)
  show ?case
  proof (cases "j = j0")
    case True
    have "draw_cursor_rows xcim image_stride image_height x y cursor_left cursor_right (j + 1) cursor_bottom ?img1 ?k
          = ?img1 ?k"
    proof (rule draw_cursor_rows_other)
      fix j' i' assume a: "j + 1 \<le> j'" "j' < cursor_bottom" "cursor_left \<le> i'" "i' < cursor_right"
      then have ne: "j' \<noteq> j0" using True by simp
      from differ [OF ne a(3) a(4), of 0] differ [OF ne a(3) a(4), of 1] differ [OF ne a(3) a(4), of 2]
      show "?k \<noteq> ?row j' + 4 * (x + i') \<and> ?k \<noteq> ?row j' + 4 * (x + i') + 1 \<and> ?k \<noteq> ?row j' + 4 * (x + i') + 2"
        by simp
    qed
    also have "?img1 ?k = cursor_channel (img ?k) (xcim_pixels xcim (xcim_width xcim * j0 + i0)) ch"
      using True draw_cursor_row_at [OF "1.prems"(3) "1.prems"(4) "1.prems"(5)] by simp
    finally show ?thesis using unfold by simp
  next
    case False
    then have le: "j + 1 \<le> j0" using "1.prems"(1) by simp
    have "draw_cursor_rows xcim image_stride image_height x y cursor_left cursor_right (j + 1) cursor_bottom ?img1 ?k
          = cursor_channel (?img1 ?k) (xcim_pixels xcim (xcim_width xcim * j0 + i0)) ch"
      by (rule "1.IH" [OF lt refl refl le "1.prems"(2-7)])
    moreover have "?img1 ?k = img ?k"
    proof (rule draw_cursor_row_other)
      fix i' assume a: "cursor_left \<le> i'" "i' < cursor_right"
      from differ [OF False a, of 0] differ [OF False a, of 1] differ [OF False a, of 2]
      show "?k \<noteq> ?row j + 4 * (x + i') \<and> ?k \<noteq> ?row j + 4 * (x + i') + 1 \<and> ?k \<noteq> ?row j + 4 * (x + i') + 2"
        by simp
    qed
    ultimately show ?thesis using unfold by simp
  qed
qed

lemma round_div_255: "round (real_of_int n / 255) = (n + 127) div 255"
proof -
  have e: "real_of_int n / 255 + 1 / 2 = real_of_int (2 * n + 255) / real_of_int 510"
    by simp
  have "round (real_of_int n / 255) = \<lfloor>real_of_int n / 255 + 1 / 2\<rfloor>"
    by (simp only: round_def)
  also have "\<dots> = \<lfloor>real_of_int (2 * n + 255) / real_of_int 510\<rfloor>"
    by (simp only: e)
  also have "\<dots> = (2 * n + 255) div 510"
    by (rule floor_divide_of_int_eq)
  also have "\<dots> = (n + 127) div 255"
  proof (rule int_div_pos_eq [where r = "2 * ((n + 127) mod 255) + 1"])
    have "n + 127 = 255 * ((n + 127) div 255) + (n + 127) mod 255"
      by simp
    then show "2 * n + 255 = 510 * ((n + 127) div 255) + (2 * ((n + 127) mod 255) + 1)"
      by linarith
    show "0 \<le> 2 * ((n + 127) mod 255) + 1"
      using pos_mod_sign [of 255 "n + 127"] by linarith
    show "2 * ((n + 127) mod 255) + 1 < 510"
      using pos_mod_bound [of 255 "n + 127"] by linarith
  qed
  finally show ?thesis .
qed

lemma cursor_channel_spec:
  "cursor_channel v cp ch = premultiplied_over v (pixel_byte cp 24) (pixel_byte cp (nat (8 * ch)))"
proof -
  have "round (real_of_int (uint v) * real_of_int (255 - pixel_byte cp 24) / 255) =
        (uint v * (255 - pixel_byte cp 24) + 127) div 255"
    using round_div_255 [of "uint v * (255 - pixel_byte cp 24)"] by simp
  then show ?thesis
    by (simp add: cursor_channel_def premultiplied_over_def)
qed

lemma premultiplied_no_wrap:
  assumes "0 \<le> c" "c \<le> a" "a < 255"
  shows "uint (premultiplied_over v a c) =
           round (real_of_int (uint v) * real_of_int (255 - a) / 255) + c"
proof -
  let ?q = "(uint v * (255 - a) + 127) div 255"
  have r: "round (real_of_int (uint v) * real_of_int (255 - a) / 255) = ?q"
    using round_div_255 [of "uint v * (255 - a)"] by simp
  have v: "0 \<le> uint v" "uint v \<le> 255"
    using uint_lt2p [of v] by simp_all
  have "uint v * (255 - a) \<le> 255 * (255 - a)"
    using v assms by (intro mult_right_mono) auto
  then have "?q \<le> (255 * (255 - a) + 127) div 255"
    by (intro zdiv_mono1) auto
  also have "\<dots> = 255 - a"
    by (rule int_div_pos_eq [where r = 127]) simp_all
  finally have ub: "?q \<le> 255 - a" .
  have "0 \<le> uint v * (255 - a)" using v assms by simp
  then have lb: "0 \<le> ?q" by simp
  have "uint (word_of_int k :: uint8) = k" if "0 \<le> k" "k < 256" for k
    using that by (simp add: uint_word_of_int take_bit_int_eq_self)
  from this [of "?q + c"] have "uint (word_of_int (?q + c) :: uint8) = ?q + c"
    using lb ub assms by linarith
  then show ?thesis using assms r by (simp add: premultiplied_over_def)
qed

text \<open>
  Claim C6. \<open>GLImageDrawCursor\<close> with a cursor image: for every cursor pixel \<open>(j, i)\<close>
  of the visible part and every channel \<open>ch\<close> (0 = B, 1 = G, 2 = R), the byte of the
  image at row \<open>image_height - 1 - y - j\<close> (rows are stored bottom-up), pixel
  \<open>x + i\<close> becomes the cursor's channel if the cursor's alpha is 255, and otherwise
  \<open>round(in * (255 - a) / 255) + c\<close>, which is what \<open>(in * (255 - a) + 127) / 255 + c\<close>
  computes; every other byte of the image is unchanged; without a cursor image nothing
  changes. The sum is stored into a byte; for premultiplied data (\<open>c \<le> a\<close>) it fits.
\<close>

theorem cursor_composited:
  assumes x: "x = xcim_x xcim - xcim_xhot xcim - recording_area_x"
    and y: "y = xcim_y xcim - xcim_yhot xcim - recording_area_y"
    and out: "out = GLImageDrawCursor (Some xcim) img image_stride image_width image_height
                      recording_area_x recording_area_y"
    and stride: "4 * image_width \<le> image_stride"
  shows "(\<forall>j i ch. max 0 (- y) \<le> j \<and> j < min (xcim_height xcim) (image_height - y) \<and>
                   max 0 (- x) \<le> i \<and> i < min (xcim_width xcim) (image_width - x) \<and> ch \<in> {0, 1, 2} \<longrightarrow>
            out (image_stride * (image_height - 1 - y - j) + 4 * (x + i) + ch) =
              premultiplied_over (img (image_stride * (image_height - 1 - y - j) + 4 * (x + i) + ch))
                (pixel_byte (xcim_pixels xcim (xcim_width xcim * j + i)) 24)
                (pixel_byte (xcim_pixels xcim (xcim_width xcim * j + i)) (nat (8 * ch))))
       \<and> (\<forall>k. \<not> (\<exists>j i ch. max 0 (- y) \<le> j \<and> j < min (xcim_height xcim) (image_height - y) \<and>
                   max 0 (- x) \<le> i \<and> i < min (xcim_width xcim) (image_width - x) \<and> ch \<in> {0, 1, 2} \<and>
                   k = image_stride * (image_height - 1 - y - j) + 4 * (x + i) + ch) \<longrightarrow>
            out k = img k)
       \<and> GLImageDrawCursor None img image_stride image_width image_height
            recording_area_x recording_area_y = img
       \<and> (\<forall>v a c. 0 \<le> c \<and> c \<le> a \<and> a < 255 \<longrightarrow>
            uint (premultiplied_over v a c) =
              round (real_of_int (uint v) * real_of_int (255 - a) / 255) + c)"
proof -
  let ?L = "max 0 (- x)" and ?R = "min (xcim_width xcim) (image_width - x)"
  let ?T = "max 0 (- y)" and ?B = "min (xcim_height xcim) (image_height - y)"
  have o: "out = draw_cursor_rows xcim image_stride image_height x y ?L ?R ?T ?B img"
    using out x y by (simp add: GLImageDrawCursor_def Let_def)
  have "4 * (x + r) \<le> image_stride" if "r \<le> image_width - x" for r
    using that stride by simp
  from this [of ?R] have vis: "0 \<le> x + ?L" "4 * (x + ?R) \<le> image_stride"
    by simp_all
  have A: "\<forall>j i ch. ?T \<le> j \<and> j < ?B \<and> ?L \<le> i \<and> i < ?R \<and> ch \<in> {0, 1, 2} \<longrightarrow>
            out (image_stride * (image_height - 1 - y - j) + 4 * (x + i) + ch) =
              premultiplied_over (img (image_stride * (image_height - 1 - y - j) + 4 * (x + i) + ch))
                (pixel_byte (xcim_pixels xcim (xcim_width xcim * j + i)) 24)
                (pixel_byte (xcim_pixels xcim (xcim_width xcim * j + i)) (nat (8 * ch)))"
  proof (intro allI impI)
    fix j i ch :: int
    assume a: "?T \<le> j \<and> j < ?B \<and> ?L \<le> i \<and> i < ?R \<and> ch \<in> {0, 1, 2}"
    have "?T \<le> j" "j < ?B" "?L \<le> i" "i < ?R" "ch \<in> {0, 1, 2}" using a by blast+
    from draw_cursor_rows_at [OF this vis, of xcim image_height y img]
    show "out (image_stride * (image_height - 1 - y - j) + 4 * (x + i) + ch) =
              premultiplied_over (img (image_stride * (image_height - 1 - y - j) + 4 * (x + i) + ch))
                (pixel_byte (xcim_pixels xcim (xcim_width xcim * j + i)) 24)
                (pixel_byte (xcim_pixels xcim (xcim_width xcim * j + i)) (nat (8 * ch)))"
      unfolding o cursor_channel_spec .
  qed
  have B: "\<forall>k. \<not> (\<exists>j i ch. ?T \<le> j \<and> j < ?B \<and> ?L \<le> i \<and> i < ?R \<and> ch \<in> {0, 1, 2} \<and>
                   k = image_stride * (image_height - 1 - y - j) + 4 * (x + i) + ch) \<longrightarrow>
            out k = img k"
  proof (intro allI impI)
    fix k :: int
    assume n: "\<not> (\<exists>j i ch. ?T \<le> j \<and> j < ?B \<and> ?L \<le> i \<and> i < ?R \<and> ch \<in> {0, 1, 2} \<and>
                   k = image_stride * (image_height - 1 - y - j) + 4 * (x + i) + ch)"
    show "out k = img k"
      unfolding o
    proof (rule draw_cursor_rows_other)
      fix j' i' :: int
      assume a: "?T \<le> j'" "j' < ?B" "?L \<le> i'" "i' < ?R"
      have "k \<noteq> image_stride * (image_height - 1 - y - j') + 4 * (x + i') + ch" if "ch \<in> {0, 1, 2}" for ch
        using n a that by blast
      from this [of 0] this [of 1] this [of 2]
      show "k \<noteq> image_stride * (image_height - 1 - y - j') + 4 * (x + i') \<and>
            k \<noteq> image_stride * (image_height - 1 - y - j') + 4 * (x + i') + 1 \<and>
            k \<noteq> image_stride * (image_height - 1 - y - j') + 4 * (x + i') + 2"
        by simp
    qed
  qed
  have C: "GLImageDrawCursor None img image_stride image_width image_height
            recording_area_x recording_area_y = img"
    by (simp add: GLImageDrawCursor_def)
  have D: "\<forall>v a c. 0 \<le> c \<and> c \<le> a \<and> a < 255 \<longrightarrow>
            uint (premultiplied_over v a c) =
              round (real_of_int (uint v) * real_of_int (255 - a) / 255) + c"
    using premultiplied_no_wrap by blast
  from A B C D show ?thesis by blast
qed

lemma example_bytes:
  "pixel_byte 0xFFFF0000 24 = 255" "pixel_byte 0xFFFF0000 16 = 255" "pixel_byte 0xFFFF0000 8 = 0"
  "pixel_byte 0xFFFF0000 0 = 0"
  "pixel_byte 0x80400000 24 = 128" "pixel_byte 0x80400000 16 = 64"
  by (simp_all add: pixel_byte_def drop_bit_eq_div)

lemma premultiplied_over_div:
  "premultiplied_over v a c =
     (if a = 255 then word_of_int c else word_of_int ((uint v * (255 - a) + 127) div 255 + c))"
  using round_div_255 [of "uint v * (255 - a)"] by (simp add: premultiplied_over_def)

theorem cursor_composited_witness:
  "GLImageDrawCursor (Some example_cursor) (\<lambda>_. 200) 16 4 4 0 0 38 = 255 \<and>
   GLImageDrawCursor (Some example_cursor) (\<lambda>_. 200) 16 4 4 0 0 37 = 0 \<and>
   GLImageDrawCursor (Some example_cursor) (\<lambda>_. 200) 16 4 4 0 0 36 = 0 \<and>
   GLImageDrawCursor (Some example_cursor) (\<lambda>_. 200) 16 4 4 0 0 26 = 164 \<and>
   GLImageDrawCursor (Some example_cursor) (\<lambda>_. 200) 16 4 4 0 0 24 = 100 \<and>
   GLImageDrawCursor (Some example_cursor) (\<lambda>_. 200) 16 4 4 0 0 39 = 200 \<and>
   GLImageDrawCursor (Some example_cursor) (\<lambda>_. 200) 16 4 4 0 0 0 = 200"
proof -
  let ?out = "GLImageDrawCursor (Some example_cursor) (\<lambda>_. 200) 16 4 4 0 0"
  have hx: "(1::int) = xcim_x example_cursor - xcim_xhot example_cursor - 0"
    and hy: "(1::int) = xcim_y example_cursor - xcim_yhot example_cursor - 0"
    by (simp_all add: example_cursor_def)
  have st: "4 * 4 \<le> (16::int)" by simp
  note T = cursor_composited [where x = 1 and y = 1 and xcim = example_cursor and recording_area_x = 0
      and recording_area_y = 0 and img = "\<lambda>_. 200" and image_stride = 16 and image_width = 4
      and image_height = 4, OF hx hy refl st]
  note inside = T [THEN conjunct1, rule_format]
  note outside = T [THEN conjunct2, THEN conjunct1, rule_format]
  have wh: "xcim_width example_cursor = 2" "xcim_height example_cursor = 2"
    "xcim_pixels example_cursor 0 = 0xFFFF0000" "xcim_pixels example_cursor 3 = 0x80400000"
    by (simp_all add: example_cursor_def)
  have r: "?out 38 = 255" "?out 37 = 0" "?out 36 = 0"
    using inside [of 0 0 2] inside [of 0 0 1] inside [of 0 0 0]
    by (simp_all add: wh example_bytes premultiplied_over_div)
  have b: "?out 26 = 164" "?out 24 = 100"
    using inside [of 1 1 2] inside [of 1 1 0]
    by (simp_all add: wh example_bytes premultiplied_over_div pixel_byte_def drop_bit_eq_div)
  have o: "?out 39 = 200" "?out 0 = 200"
    by (rule outside; simp add: wh; presburger)+
  from r b o show ?thesis by simp
qed

section \<open>Properties of the frame grabber\<close>

lemma emit_fields [simp]:
  "grabber (emit es c) = grabber c"
  "header (emit es c) = header c"
  "frameinfos (emit es c) = frameinfos c"
  "frame_data (emit es c) = frame_data c"
  "trace (emit es c) = trace c @ es"
  by (simp_all add: emit_def)

lemma emit_emit: "emit es (emit ds c) = emit (ds @ es) c"
  by (simp add: emit_def)

lemma emit_Nil: "emit [] c = c"
  by (simp add: emit_def)

lemma fold_CheckGLError: "fold (CheckGLError E) codes c = emit (gl_warnings E codes) c"
proof (induction codes arbitrary: c)
  case Nil
  show ?case by (simp add: gl_warnings_def emit_Nil)
next
  case (Cons a codes)
  show ?case
    using Cons.IH [of "CheckGLError E a c"]
    by (simp add: gl_warnings_def CheckGLError_def emit_emit)
qed

lemma CGLE_emit:
  "CGLE E codes c = emit (if m_debug (grabber c) then gl_warnings E codes else []) c"
  by (simp add: CGLE_def fold_CheckGLError emit_Nil)

lemma CheckGLError_emit: "CheckGLError E a c = emit (gl_warnings E [a]) c"
  by (simp add: CheckGLError_def gl_warnings_def emit_Nil)

lemma capture_grabber: "grabber (GrabFrame_capture K E t wr_pos stride c) = grabber c"
  by (simp add: GrabFrame_capture_def Let_def CGLE_emit CheckGLError_emit split: option.splits)

lemma capture_header:
  "header (GrabFrame_capture K E t wr_pos stride c) =
     (header c)\<lparr>write_pos := (wr_pos + 1) mod (m_ring_buffer_size (grabber c) * 2)\<rparr>"
  by (simp add: GrabFrame_capture_def Let_def CGLE_emit CheckGLError_emit split: option.splits)

lemma capture_frameinfos:
  "frameinfos (GrabFrame_capture K E t wr_pos stride c) =
     (frameinfos c)[unat (wr_pos mod m_ring_buffer_size (grabber c)) :=
        (frameinfos c ! unat (wr_pos mod m_ring_buffer_size (grabber c)))
          \<lparr>timestamp := t, width := m_width (grabber c), height := m_height (grabber c)\<rparr>]"
  by (simp add: GrabFrame_capture_def Let_def CGLE_emit CheckGLError_emit split: option.splits)

lemma capture_trace:
  "trace (GrabFrame_capture K E t wr_pos stride c) = trace c @ capture_effects K E t wr_pos stride c"
  by (simp add: GrabFrame_capture_def Let_def CGLE_emit CheckGLError_emit capture_effects_def
        capture_fill_def slot_descriptor_def slot_pixels_def slot_cursor_def cursor_drawn_def
        split: option.splits)

lemma capture_frame_data:
  "frame_data (GrabFrame_capture K E t wr_pos stride c) =
     (frame_data c)[unat (wr_pos mod m_ring_buffer_size (grabber c)) :=
        (if cursor_drawn K E (grabber c)
         then slot_cursor K E stride c (unat (wr_pos mod m_ring_buffer_size (grabber c)))
         else slot_pixels K E stride c (unat (wr_pos mod m_ring_buffer_size (grabber c))))]"
  by (simp add: GrabFrame_capture_def Let_def CGLE_emit CheckGLError_emit
        slot_pixels_def slot_cursor_def cursor_drawn_def
        split: option.splits)

lemma GrabFrame_size_unfold:
  "GrabFrame_size K E c =
     (if too_small E then
        (TooSmall,
         if m_warn_too_small (grabber c)
         then emit [Warning Frame_too_small]
                ((size_saved E c)\<lparr>grabber := (grabber (size_saved E c))\<lparr>m_warn_too_small := False\<rparr>\<rparr>)
         else size_saved E c)
      else if too_large E c then
        (TooLarge,
         if m_warn_too_large (grabber c)
         then emit [Warning Frame_too_large]
                ((size_saved E c)\<lparr>grabber := (grabber (size_saved E c))\<lparr>m_warn_too_large := False\<rparr>\<rparr>)
         else size_saved E c)
      else if frames_ready (size_saved E c) \<ge> m_ring_buffer_size (grabber c) then
        (RingFull, size_saved E c)
      else GrabFrame_timestamp K E (write_pos (header c)) (grow_align16 (fst (XGetGeometry E) * 4))
             (size_saved E c))"
  by (simp add: GrabFrame_size_def Let_def size_saved_def frames_ready_def too_small_def too_large_def
        emit_emit emit_def)

lemma size_saved_fields:
  "m_width (grabber (size_saved E c)) = fst (XGetGeometry E)"
  "m_height (grabber (size_saved E c)) = snd (XGetGeometry E)"
  "m_next_frame_time (grabber (size_saved E c)) = m_next_frame_time (grabber c)"
  "m_warn_too_small (grabber (size_saved E c)) = m_warn_too_small (grabber c)"
  "m_warn_too_large (grabber (size_saved E c)) = m_warn_too_large (grabber c)"
  "m_debug (grabber (size_saved E c)) = m_debug (grabber c)"
  "m_ring_buffer_size (grabber (size_saved E c)) = m_ring_buffer_size (grabber c)"
  "m_max_bytes (grabber (size_saved E c)) = m_max_bytes (grabber c)"
  "m_target_fps (grabber (size_saved E c)) = m_target_fps (grabber c)"
  "m_flags (grabber (size_saved E c)) = m_flags (grabber c)"
  "m_gl_version (grabber (size_saved E c)) = m_gl_version (grabber c)"
  "m_has_xfixes (grabber (size_saved E c)) = m_has_xfixes (grabber c)"
  "current_width (header (size_saved E c)) = fst (XGetGeometry E)"
  "current_height (header (size_saved E c)) = snd (XGetGeometry E)"
  "frame_counter (header (size_saved E c)) = frame_counter (header c) + 1"
  "read_pos (header (size_saved E c)) = read_pos (header c)"
  "write_pos (header (size_saved E c)) = write_pos (header c)"
  "frameinfos (size_saved E c) = frameinfos c"
  "frame_data (size_saved E c) = frame_data c"
  by (simp_all add: size_saved_def)

lemma size_saved_trace:
  "trace (size_saved E c) = trace c @
     (if fst (XGetGeometry E) \<noteq> m_width (grabber c) \<or> snd (XGetGeometry E) \<noteq> m_height (grabber c)
            then [Message ''frame size''] else [])
           @ [Store_geometry (fst (XGetGeometry E)) (snd (XGetGeometry E)),
              Store_frame_counter (frame_counter (header c) + 1)]"
  by (simp add: size_saved_def)

lemma GrabFrame_timestamp_cases:
  assumes "GrabFrame_timestamp K E wr_pos stride c = (r, c')"
  shows "(r = TooEarly \<and> c' = c) \<or>
         (r = Published \<and>
            (\<exists>t n us. c' = GrabFrame_capture K E t wr_pos stride
                            (emit us (c\<lparr>grabber := (grabber c)\<lparr>m_next_frame_time := n\<rparr>\<rparr>)) \<and>
                       (us = [] \<or> (\<exists>d. us = [Usleep d]))))"
proof -
  have id: "c = emit [] (c\<lparr>grabber := (grabber c)\<lparr>m_next_frame_time := m_next_frame_time (grabber c)\<rparr>\<rparr>)"
    by (simp add: emit_def)
  have e: "\<And>n. c\<lparr>grabber := (grabber c)\<lparr>m_next_frame_time := n\<rparr>\<rparr> =
                emit [] (c\<lparr>grabber := (grabber c)\<lparr>m_next_frame_time := n\<rparr>\<rparr>)"
    by (simp add: emit_def)
  have u: "\<And>n d. (emit [Usleep d] c)\<lparr>grabber := (grabber c)\<lparr>m_next_frame_time := n\<rparr>\<rparr> =
                emit [Usleep d] (c\<lparr>grabber := (grabber c)\<lparr>m_next_frame_time := n\<rparr>\<rparr>)"
    by (simp add: emit_def)
  show ?thesis
    using assms
    apply (simp add: GrabFrame_timestamp_def Let_def u split: if_splits)
    apply (metis e id)+
    done
qed

lemma GetGLVersion_Inr:
  "GetGLVersion E c = Inr (v, c1) \<Longrightarrow> c1 = emit [Message ''OpenGL version''] c"
  by (auto simp: GetGLVersion_def Let_def split: option.splits if_splits)

lemma GetGLVersion_Inl:
  "GetGLVersion E c = Inl (s, c1) \<Longrightarrow> s = EXIT_STATUS \<and> (\<exists>m. c1 = emit [Error m] c)"
  by (auto simp: GetGLVersion_def Let_def split: option.splits if_splits)

lemma GrabFrame_Inr:
  assumes "GrabFrame K E c = Inr (r, c')"
  shows "\<exists>v ms. GrabFrame_size K E (emit ms (c\<lparr>grabber := (grabber c)\<lparr>m_gl_version := v\<rparr>\<rparr>)) = (r, c') \<and>
                 (ms = [] \<or> ms = [Message ''OpenGL version''])"
proof (cases "m_gl_version (grabber c) = 0")
  case False
  have "c = emit [] (c\<lparr>grabber := (grabber c)\<lparr>m_gl_version := m_gl_version (grabber c)\<rparr>\<rparr>)"
    by (simp add: emit_def)
  moreover have "GrabFrame_size K E c = (r, c')"
    using assms False by (simp add: GrabFrame_def)
  ultimately show ?thesis by metis
next
  case True
  then obtain v c1 where g: "GetGLVersion E c = Inr (v, c1)"
    and s: "GrabFrame_size K E (c1\<lparr>grabber := (grabber c1)\<lparr>m_gl_version := v\<rparr>\<rparr>) = (r, c')"
    using assms by (auto simp: GrabFrame_def split: sum.splits)
  have "c1\<lparr>grabber := (grabber c1)\<lparr>m_gl_version := v\<rparr>\<rparr> =
        emit [Message ''OpenGL version''] (c\<lparr>grabber := (grabber c)\<lparr>m_gl_version := v\<rparr>\<rparr>)"
    using GetGLVersion_Inr [OF g] by (simp add: emit_def)
  with s show ?thesis by metis
qed

lemma GrabFrame_Inl:
  assumes "GrabFrame K E c = Inl (s, c')"
  shows "s = EXIT_STATUS \<and> (\<exists>m. c' = emit [Error m] c) \<and> m_gl_version (grabber c) = 0"
  using assms GetGLVersion_Inl [of E c s c']
  by (auto simp: GrabFrame_def split: sum.splits if_splits)

lemma GrabFrame_size_header:
  assumes "GrabFrame_size K E c = (r, c')"
  shows "current_width (header c') = fst (XGetGeometry E)"
    and "current_height (header c') = snd (XGetGeometry E)"
    and "frame_counter (header c') = frame_counter (header c) + 1"
    and "read_pos (header c') = read_pos (header c)"
proof -
  have "current_width (header c') = fst (XGetGeometry E) \<and>
        current_height (header c') = snd (XGetGeometry E) \<and>
        frame_counter (header c') = frame_counter (header c) + 1 \<and>
        read_pos (header c') = read_pos (header c)"
  proof (cases "r = Published \<or> r = TooEarly")
    case False
    then show ?thesis
      using assms GrabFrame_timestamp_cases
      by (fastforce simp: GrabFrame_size_unfold size_saved_fields split: if_splits)
  next
    case True
    then have t: "GrabFrame_timestamp K E (write_pos (header c)) (grow_align16 (fst (XGetGeometry E) * 4))
             (size_saved E c) = (r, c')"
      using assms by (auto simp: GrabFrame_size_unfold split: if_splits)
    from GrabFrame_timestamp_cases [OF t] show ?thesis
      by (auto simp: capture_header size_saved_fields)
  qed
  then show "current_width (header c') = fst (XGetGeometry E)"
    and "current_height (header c') = snd (XGetGeometry E)"
    and "frame_counter (header c') = frame_counter (header c) + 1"
    and "read_pos (header c') = read_pos (header c)"
    by simp_all
qed

lemma GrabFrame_size_result:
  assumes "GrabFrame_size K E c = (r, c')"
  shows "r = TooSmall \<longleftrightarrow> too_small E"
    and "r = TooLarge \<longleftrightarrow> \<not> too_small E \<and> too_large E c"
    and "r = RingFull \<longleftrightarrow> \<not> too_small E \<and> \<not> too_large E c \<and>
            frames_ready (size_saved E c) \<ge> m_ring_buffer_size (grabber c)"
proof -
  have "(r = TooSmall \<longleftrightarrow> too_small E) \<and> (r = TooLarge \<longleftrightarrow> \<not> too_small E \<and> too_large E c) \<and>
        (r = RingFull \<longleftrightarrow> \<not> too_small E \<and> \<not> too_large E c \<and>
            frames_ready (size_saved E c) \<ge> m_ring_buffer_size (grabber c))"
    using assms GrabFrame_timestamp_cases
      [of K E "write_pos (header c)" "grow_align16 (fst (XGetGeometry E) * 4)" "size_saved E c" r c']
    by (auto simp: GrabFrame_size_unfold split: if_splits)
  then show "r = TooSmall \<longleftrightarrow> too_small E"
    and "r = TooLarge \<longleftrightarrow> \<not> too_small E \<and> too_large E c"
    and "r = RingFull \<longleftrightarrow> \<not> too_small E \<and> \<not> too_large E c \<and>
            frames_ready (size_saved E c) \<ge> m_ring_buffer_size (grabber c)"
    by simp_all
qed

lemma GrabFrame_size_dropped:
  assumes "GrabFrame_size K E c = (r, c')" "r \<noteq> Published"
  shows "write_pos (header c') = write_pos (header c)"
    and "frameinfos c' = frameinfos c"
    and "frame_data c' = frame_data c"
proof -
  have "write_pos (header c') = write_pos (header c) \<and> frameinfos c' = frameinfos c \<and>
        frame_data c' = frame_data c"
    using assms GrabFrame_timestamp_cases
      [of K E "write_pos (header c)" "grow_align16 (fst (XGetGeometry E) * 4)" "size_saved E c" r c']
    by (auto simp: GrabFrame_size_unfold size_saved_fields split: if_splits)
  then show "write_pos (header c') = write_pos (header c)"
    and "frameinfos c' = frameinfos c"
    and "frame_data c' = frame_data c"
    by simp_all
qed

lemma gl_warnings_no_size_warning [simp]:
  "count_list (gl_warnings E codes) (Warning Frame_too_small) = 0"
  "count_list (gl_warnings E codes) (Warning Frame_too_large) = 0"
  by (induction codes) (simp_all add: gl_warnings_def)

lemma capture_effects_no_size_warning [simp]:
  "count_list (capture_effects K E t wr_pos stride c) (Warning Frame_too_small) = 0"
  "count_list (capture_effects K E t wr_pos stride c) (Warning Frame_too_large) = 0"
  by (simp_all add: capture_effects_def capture_fill_def)

lemma GrabFrame_size_trace:
  assumes "GrabFrame_size K E c = (r, c')"
  shows "\<exists>new. trace c' = trace c @ new \<and>
           count_list new (Warning Frame_too_small) =
             (if r = TooSmall \<and> m_warn_too_small (grabber c) then 1 else 0) \<and>
           count_list new (Warning Frame_too_large) =
             (if r = TooLarge \<and> m_warn_too_large (grabber c) then 1 else 0)"
proof (cases "r = Published \<or> r = TooEarly")
  case False
  then show ?thesis
    using assms GrabFrame_timestamp_cases
      [of K E "write_pos (header c)" "grow_align16 (fst (XGetGeometry E) * 4)" "size_saved E c" r c']
    by (auto simp: GrabFrame_size_unfold size_saved_trace size_saved_fields split: if_splits)
next
  case True
  then have t: "GrabFrame_timestamp K E (write_pos (header c)) (grow_align16 (fst (XGetGeometry E) * 4))
             (size_saved E c) = (r, c')"
    using assms by (auto simp: GrabFrame_size_unfold split: if_splits)
  from GrabFrame_timestamp_cases [OF t] True show ?thesis
    by (auto simp: capture_trace size_saved_trace)
qed

lemma GrabFrame_size_flags:
  assumes "GrabFrame_size K E c = (r, c')"
  shows "m_warn_too_small (grabber c') = (m_warn_too_small (grabber c) \<and> r \<noteq> TooSmall)"
    and "m_warn_too_large (grabber c') = (m_warn_too_large (grabber c) \<and> r \<noteq> TooLarge)"
proof -
  have "m_warn_too_small (grabber c') = (m_warn_too_small (grabber c) \<and> r \<noteq> TooSmall) \<and>
        m_warn_too_large (grabber c') = (m_warn_too_large (grabber c) \<and> r \<noteq> TooLarge)"
  proof (cases "r = Published \<or> r = TooEarly")
    case False
    then show ?thesis
      using assms GrabFrame_timestamp_cases
        [of K E "write_pos (header c)" "grow_align16 (fst (XGetGeometry E) * 4)" "size_saved E c" r c']
      by (auto simp: GrabFrame_size_unfold size_saved_fields split: if_splits)
  next
    case True
    then have t: "GrabFrame_timestamp K E (write_pos (header c)) (grow_align16 (fst (XGetGeometry E) * 4))
             (size_saved E c) = (r, c')"
      using assms by (auto simp: GrabFrame_size_unfold split: if_splits)
    from GrabFrame_timestamp_cases [OF t] True show ?thesis
      by (auto simp: capture_grabber size_saved_fields)
  qed
  then show "m_warn_too_small (grabber c') = (m_warn_too_small (grabber c) \<and> r \<noteq> TooSmall)"
    and "m_warn_too_large (grabber c') = (m_warn_too_large (grabber c) \<and> r \<noteq> TooLarge)"
    by simp_all
qed

lemma GrabFrame_trace:
  assumes "GrabFrame K E c = Inr (r, c')"
  shows "\<exists>new. trace c' = trace c @ new \<and>
           count_list new (Warning Frame_too_small) =
             (if r = TooSmall \<and> m_warn_too_small (grabber c) then 1 else 0) \<and>
           count_list new (Warning Frame_too_large) =
             (if r = TooLarge \<and> m_warn_too_large (grabber c) then 1 else 0)"
proof -
  obtain v ms where s: "GrabFrame_size K E (emit ms (c\<lparr>grabber := (grabber c)\<lparr>m_gl_version := v\<rparr>\<rparr>)) = (r, c')"
    and ms: "ms = [] \<or> ms = [Message ''OpenGL version'']"
    using GrabFrame_Inr [OF assms] by blast
  obtain new where
    "trace c' = trace (emit ms (c\<lparr>grabber := (grabber c)\<lparr>m_gl_version := v\<rparr>\<rparr>)) @ new"
    "count_list new (Warning Frame_too_small) =
       (if r = TooSmall \<and> m_warn_too_small (grabber c) then 1 else 0)"
    "count_list new (Warning Frame_too_large) =
       (if r = TooLarge \<and> m_warn_too_large (grabber c) then 1 else 0)"
    using GrabFrame_size_trace [OF s] by auto
  then have "trace c' = trace c @ (ms @ new) \<and>
       count_list (ms @ new) (Warning Frame_too_small) =
         (if r = TooSmall \<and> m_warn_too_small (grabber c) then 1 else 0) \<and>
       count_list (ms @ new) (Warning Frame_too_large) =
         (if r = TooLarge \<and> m_warn_too_large (grabber c) then 1 else 0)"
    using ms by auto
  then show ?thesis by blast
qed

lemma GrabFrame_flags:
  assumes "GrabFrame K E c = Inr (r, c')"
  shows "m_warn_too_small (grabber c') = (m_warn_too_small (grabber c) \<and> r \<noteq> TooSmall)"
    and "m_warn_too_large (grabber c') = (m_warn_too_large (grabber c) \<and> r \<noteq> TooLarge)"
proof -
  obtain v ms where s: "GrabFrame_size K E (emit ms (c\<lparr>grabber := (grabber c)\<lparr>m_gl_version := v\<rparr>\<rparr>)) = (r, c')"
    using GrabFrame_Inr [OF assms] by blast
  from GrabFrame_size_flags [OF s]
  show "m_warn_too_small (grabber c') = (m_warn_too_small (grabber c) \<and> r \<noteq> TooSmall)"
    and "m_warn_too_large (grabber c') = (m_warn_too_large (grabber c) \<and> r \<noteq> TooLarge)"
    by simp_all
qed

lemma GrabFrame_warn_inv:
  assumes "GrabFrame K E c = Inr (r, c')" "warn_inv c"
  shows "warn_inv c'"
  using GrabFrame_trace [OF assms(1)] GrabFrame_flags [OF assms(1)] assms(2)
  by (auto simp: warn_inv_def)

lemma read_pos_warn_inv: "warn_inv (c\<lparr>header := h\<rparr>) = warn_inv c"
  by (simp add: warn_inv_def)

lemma GrabFrames_warn_inv:
  "GrabFrames K steps c0 = Inr c \<Longrightarrow> warn_inv c0 \<Longrightarrow> warn_inv c"
proof (induction steps arbitrary: c0)
  case Nil
  then show ?case by simp
next
  case (Cons step steps)
  obtain rp E where step: "step = (rp, E)" by (cases step)
  from Cons.prems(1) obtain r c1 where
    g: "GrabFrame K E (c0\<lparr>header := (header c0)\<lparr>read_pos := rp\<rparr>\<rparr>) = Inr (r, c1)"
    and rest: "GrabFrames K steps c1 = Inr c"
    by (auto simp: step split: sum.splits)
  have "warn_inv c1"
    using GrabFrame_warn_inv [OF g] Cons.prems(2) by (simp add: read_pos_warn_inv)
  with Cons.IH [OF rest] show ?case .
qed

lemma fresh_warn_inv:
  "m_warn_too_small (grabber c) \<Longrightarrow> m_warn_too_large (grabber c) \<Longrightarrow>
   Warning Frame_too_small \<notin> set (trace c) \<Longrightarrow> Warning Frame_too_large \<notin> set (trace c) \<Longrightarrow>
   warn_inv c"
  by (simp add: warn_inv_def)

lemma and_not_15: "(y :: 32 word) AND NOT 15 = push_bit 4 (drop_bit 4 y)"
proof -
  have "(15 :: 32 word) = mask 4" by (simp add: mask_eq_exp_minus_1)
  then show ?thesis
    by (auto simp: bit_eq_iff bit_simps)
qed

lemma unat_and_not_15: "unat ((y :: 32 word) AND NOT 15) = unat y div 16 * 16"
proof -
  have "unat (y AND NOT 15) = unat (push_bit 4 (drop_bit 4 y))"
    by (simp only: and_not_15)
  also have "\<dots> = take_bit 32 (push_bit 4 (drop_bit 4 (unat y)))"
    by (simp add: unsigned_push_bit_eq unat_drop_bit_eq)
  also have "push_bit 4 (drop_bit 4 (unat y)) = unat y div 16 * 16"
    by (simp add: push_bit_eq_mult drop_bit_eq_div)
  also have "take_bit 32 (unat y div 16 * 16) = unat y div 16 * 16"
  proof (rule take_bit_nat_eq_self)
    have "unat y div 16 * 16 \<le> unat y" by simp
    also have "unat y < 2 ^ 32" using unsigned_less [of y] by simp
    finally show "unat y div 16 * 16 < 2 ^ 32" .
  qed
  finally show ?thesis .
qed

lemma uint32_of_int: "0 \<le> k \<Longrightarrow> k < 4294967296 \<Longrightarrow> uint (word_of_int k :: uint32) = k"
  by (simp add: uint_word_of_int take_bit_int_eq_self)

lemma uint_grow_align16:
  assumes "uint w \<le> 10000"
  shows "uint (grow_align16 (w * 4)) = (4 * uint w + 15) div 16 * 16"
proof -
  have w0: "0 \<le> uint w" by simp
  have m: "uint (w * 4) = 4 * uint w"
    using assms w0 by (simp add: uint_word_ariths take_bit_int_eq_self mult.commute)
  have a: "uint (w * 4 + 15) = 4 * uint w + 15"
    using assms w0 m by (simp add: uint_word_ariths take_bit_int_eq_self)
  have "uint ((w * 4 + 15) AND NOT 15) = int (unat ((w * 4 + 15) AND NOT 15))"
    by simp
  also have "\<dots> = int (unat (w * 4 + 15) div 16 * 16)"
    by (simp only: unat_and_not_15)
  also have "\<dots> = uint (w * 4 + 15) div 16 * 16"
    by (simp add: zdiv_int)
  finally show ?thesis using a by (simp add: grow_align16_def)
qed

lemma uint_mult_small:
  fixes a b :: uint32
  assumes "uint a * uint b < 4294967296"
  shows "uint (a * b) = uint a * uint b"
proof -
  have "0 \<le> uint a * uint b" by simp
  with assms show ?thesis
    by (simp add: uint_word_ariths take_bit_int_eq_self)
qed

lemma sint_small:
  fixes x :: uint32
  assumes "uint x < 2147483648"
  shows "sint x = uint x"
proof -
  have "- 2147483648 \<le> (0::int)" by simp
  also have "0 \<le> uint x" by simp
  finally have "- 2147483648 \<le> uint x" .
  with assms show ?thesis
    by (simp add: sint_uint signed_take_bit_int_eq_self_iff)
qed

lemma uint_succ_mod:
  fixes wp n :: uint32
  assumes "0 < n" "n \<le> 1000" "wp < 2 * n"
  shows "uint ((wp + 1) mod (n * 2)) = (uint wp + 1) mod (2 * uint n)"
proof -
  have n: "uint n \<le> 1000" "0 < uint n"
    using assms by (simp_all add: word_le_def word_less_def)
  have n2: "uint (n * 2) = 2 * uint n" "uint (2 * n) = 2 * uint n"
    using n by (simp_all add: uint_word_ariths take_bit_int_eq_self)
  have wp: "uint wp < 2 * uint n" "0 \<le> uint wp"
    using assms(3) n2 by (simp_all add: word_less_def)
  have "uint (wp + 1) = uint wp + 1"
    using wp n by (simp add: uint_word_ariths take_bit_int_eq_self)
  then show ?thesis
    using n2 by (simp add: uint_mod)
qed

lemma frames_ready_uint:
  fixes wp rp n :: uint32
  assumes "0 < n" "n \<le> 1000" "wp < 2 * n" "rp < 2 * n"
  shows "uint (word_of_int ((sint wp - sint rp) mod (sint n * 2)) :: uint32) =
         (uint wp - uint rp) mod (2 * uint n)"
proof -
  have n: "uint n \<le> 1000" "0 < uint n"
    using assms by (simp_all add: word_le_def word_less_def)
  have n2: "uint (2 * n) = 2 * uint n"
    using n by (simp add: uint_word_ariths take_bit_int_eq_self)
  have wp: "uint wp < 2 * uint n" and rp: "uint rp < 2 * uint n"
    using assms(3,4) n2 by (simp_all add: word_less_def)
  have s: "sint wp = uint wp" "sint rp = uint rp" "sint n = uint n"
    using wp rp n by (simp_all add: sint_small)
  have lo: "0 \<le> (uint wp - uint rp) mod (2 * uint n)"
    using n by simp
  have "(uint wp - uint rp) mod (2 * uint n) < 2 * uint n"
    using n by simp
  also have "2 * uint n \<le> 2000" using n by simp
  also have "(2000::int) < 4294967296" by simp
  finally have hi: "(uint wp - uint rp) mod (2 * uint n) < 4294967296" .
  have "uint (word_of_int ((uint wp - uint rp) mod (2 * uint n)) :: uint32) =
      (uint wp - uint rp) mod (2 * uint n)"
    using lo hi by (rule uint32_of_int)
  then show ?thesis
    using s by (simp add: mult.commute)
qed

lemma ring_step:
  fixes a b n :: int
  assumes "0 < n" "(a - b) mod (2 * n) < n"
  shows "((a + 1) mod (2 * n) - b) mod (2 * n) = (a - b) mod (2 * n) + 1"
proof -
  have "((a + 1) mod (2 * n) - b) mod (2 * n) = (a + 1 - b) mod (2 * n)"
    by (simp add: mod_diff_left_eq)
  also have "a + 1 - b = (a - b) + 1"
    by simp
  also have "((a - b) + 1) mod (2 * n) = ((a - b) mod (2 * n) + 1) mod (2 * n)"
    by (simp only: mod_add_left_eq)
  also have "\<dots> = (a - b) mod (2 * n) + 1"
    using assms by (simp add: mod_pos_pos_trivial)
  finally show ?thesis .
qed

lemma uint_succ:
  fixes x :: uint32
  assumes "x \<noteq> - 1"
  shows "uint (x + 1) = uint x + 1"
proof -
  have "uint x \<noteq> 4294967295"
  proof
    assume "uint x = 4294967295"
    then have "uint x = uint (- 1 :: uint32)"
      by (simp add: unsigned_minus_1_eq_mask mask_eq_exp_minus_1)
    then have "x = - 1" by (simp only: word_uint_eq_iff)
    with assms show False by simp
  qed
  moreover have "uint x < 4294967296" using uint_lt2p [of x] by simp
  ultimately have "uint x + 1 < 4294967296" by simp
  moreover have "0 \<le> uint x + 1" by simp
  ultimately show ?thesis
    by (simp add: uint_word_ariths take_bit_int_eq_self)
qed

lemma GrabFrame_header:
  assumes "GrabFrame K E c = Inr (r, c')"
  shows "current_width (header c') = fst (XGetGeometry E)"
    and "current_height (header c') = snd (XGetGeometry E)"
    and "frame_counter (header c') = frame_counter (header c) + 1"
    and "read_pos (header c') = read_pos (header c)"
proof -
  obtain v ms where s: "GrabFrame_size K E (emit ms (c\<lparr>grabber := (grabber c)\<lparr>m_gl_version := v\<rparr>\<rparr>)) = (r, c')"
    using GrabFrame_Inr [OF assms] by blast
  from GrabFrame_size_header [OF s]
  show "current_width (header c') = fst (XGetGeometry E)"
    and "current_height (header c') = snd (XGetGeometry E)"
    and "frame_counter (header c') = frame_counter (header c) + 1"
    and "read_pos (header c') = read_pos (header c)"
    by simp_all
qed

lemma GrabFrames_frame_counter:
  "GrabFrames K steps c = Inr c' \<Longrightarrow>
   frame_counter (header c') = frame_counter (header c) + word_of_nat (length steps)"
proof (induction steps arbitrary: c)
  case Nil
  then show ?case by simp
next
  case (Cons step steps)
  obtain rp E where step: "step = (rp, E)" by (cases step)
  from Cons.prems obtain r c1 where
    g: "GrabFrame K E (c\<lparr>header := (header c)\<lparr>read_pos := rp\<rparr>\<rparr>) = Inr (r, c1)"
    and rest: "GrabFrames K steps c1 = Inr c'"
    by (auto simp: step split: sum.splits)
  have "frame_counter (header c1) = frame_counter (header c) + 1"
    using GrabFrame_header(3) [OF g] by simp
  with Cons.IH [OF rest] show ?case by simp
qed

text \<open>
  Claim C9, amended. Every call of \<open>GrabFrame\<close> that returns publishes the observed
  geometry into \<open>current_width\<close> and \<open>current_height\<close> and adds one to
  \<open>frame_counter\<close> (a 32-bit counter: the step is one unless it wraps), whatever
  becomes of the frame; over a run of returning calls the counter advances by the
  number of calls.
\<close>

theorem frame_counter_incremented:
  assumes "GrabFrame K E c = Inr (r, c')"
  shows "current_width (header c') = fst (XGetGeometry E) \<and>
         current_height (header c') = snd (XGetGeometry E) \<and>
         frame_counter (header c') = frame_counter (header c) + 1 \<and>
         (frame_counter (header c) \<noteq> - 1 \<longrightarrow>
            uint (frame_counter (header c')) = uint (frame_counter (header c)) + 1) \<and>
         (\<forall>steps c''. GrabFrames K steps c = Inr c'' \<longrightarrow>
            frame_counter (header c'') = frame_counter (header c) + word_of_nat (length steps))"
  using GrabFrame_header [OF assms] uint_succ [of "frame_counter (header c)"]
    GrabFrames_frame_counter [of K _ c]
  by simp

text \<open>
  Claim C9 as stated ("every call") fails: the first call of a grabber asks for the
  OpenGL version, and when there is no version string the process exits before
  anything is published.
\<close>

theorem frame_counter_unchanged_on_exit:
  "GrabFrame example_consts (example_env None 2000 (4, 4)) example_capture =
     Inl (EXIT_STATUS,
          emit [Error ''Could not get OpenGL version, version string is NULL!''] example_capture)
   \<and> frame_counter (header (emit [Error ''Could not get OpenGL version, version string is NULL!'']
                               example_capture)) = 7
   \<and> frame_counter (header example_capture) = 7
   \<and> current_width (header (emit [Error ''Could not get OpenGL version, version string is NULL!'']
                               example_capture)) = 0
   \<and> fst (XGetGeometry (example_env None 2000 (4, 4))) = 4"
  by (simp add: GrabFrame_def GetGLVersion_def example_env_def example_capture_def
        example_grabber_def example_header_def)

theorem frame_counter_incremented_witness:
  "\<exists>c'. GrabFrame example_consts (example_env (Some ''2.1 Mesa 10.1'') 2000 (1, 1)) example_capture =
          Inr (TooSmall, c') \<and>
        current_width (header c') = 1 \<and> current_height (header c') = 1 \<and>
        frame_counter (header c') = 8 \<and> uint (frame_counter (header c')) = 8"
proof -
  let ?E = "example_env (Some ''2.1 Mesa 10.1'') 2000 (1, 1)"
  obtain r c' where g: "GrabFrame example_consts ?E example_capture = Inr (r, c')"
    by (cases "GrabFrame example_consts ?E example_capture")
       (auto simp: GrabFrame_def GetGLVersion_def example_env_def strspn_def char_at_def
             example_capture_def example_grabber_def Let_def)
  obtain v ms where s: "GrabFrame_size example_consts ?E
      (emit ms (example_capture\<lparr>grabber := (grabber example_capture)\<lparr>m_gl_version := v\<rparr>\<rparr>)) = (r, c')"
    using GrabFrame_Inr [OF g] by blast
  have "too_small ?E" by (simp add: too_small_def example_env_def)
  then have r: "r = TooSmall" using GrabFrame_size_result(1) [OF s] by simp
  have f: "frame_counter (header example_capture) = 7" "fst (XGetGeometry ?E) = 1"
    "snd (XGetGeometry ?E) = 1"
    by (simp_all add: example_capture_def example_header_def example_env_def)
  from frame_counter_incremented [OF g] f r g show ?thesis by simp
qed

lemma too_small_uint:
  "too_small E \<longleftrightarrow> uint (fst (XGetGeometry E)) < 2 \<or> uint (snd (XGetGeometry E)) < 2"
  by (simp add: too_small_def word_less_def)

lemma beyond_10000_too_large:
  "uint (fst (XGetGeometry E)) > 10000 \<or> uint (snd (XGetGeometry E)) > 10000 \<Longrightarrow> too_large E c"
  by (auto simp: too_large_def word_less_def)

lemma not_too_large_bounds:
  "\<not> too_large E c \<Longrightarrow> uint (fst (XGetGeometry E)) \<le> 10000 \<and> uint (snd (XGetGeometry E)) \<le> 10000"
  using beyond_10000_too_large [of E c] by (meson not_le_imp_less)

lemma stride_too_large:
  assumes "(4 * uint (fst (XGetGeometry E)) + 15) div 16 * 16 * uint (snd (XGetGeometry E))
             > uint (m_max_bytes (grabber c))"
  shows "too_large E c"
proof (cases "uint (fst (XGetGeometry E)) > 10000 \<or> uint (snd (XGetGeometry E)) > 10000")
  case True
  then show ?thesis by (rule beyond_10000_too_large)
next
  case False
  let ?w = "fst (XGetGeometry E)" and ?h = "snd (XGetGeometry E)"
  have w: "uint ?w \<le> 10000" and h: "uint ?h \<le> 10000" using False by auto
  have s: "uint (grow_align16 (?w * 4)) = (4 * uint ?w + 15) div 16 * 16"
    using w by (rule uint_grow_align16)
  have "(4 * uint ?w + 15) div 16 * 16 \<le> 4 * uint ?w + 15"
    by simp
  also have "\<dots> \<le> 40015" using w by simp
  finally have sb: "uint (grow_align16 (?w * 4)) \<le> 40015" using s by simp
  have "uint (grow_align16 (?w * 4)) * uint ?h \<le> 40015 * 10000"
    using sb h by (intro mult_mono) simp_all
  also have "\<dots> < (4294967296::int)" by simp
  finally have "uint (grow_align16 (?w * 4) * ?h) = uint (grow_align16 (?w * 4)) * uint ?h"
    by (rule uint_mult_small)
  then have "uint (m_max_bytes (grabber c)) < uint (grow_align16 (?w * 4) * ?h)"
    using assms s by simp
  then show ?thesis
    by (simp add: too_large_def word_less_def)
qed

lemma GrabFrame_result:
  assumes "GrabFrame K E c = Inr (r, c')"
  shows "r = TooSmall \<longleftrightarrow> too_small E"
    and "r = TooLarge \<longleftrightarrow> \<not> too_small E \<and> too_large E c"
proof -
  obtain v ms where s: "GrabFrame_size K E (emit ms (c\<lparr>grabber := (grabber c)\<lparr>m_gl_version := v\<rparr>\<rparr>)) = (r, c')"
    using GrabFrame_Inr [OF assms] by blast
  from GrabFrame_size_result(1,2) [OF s]
  show "r = TooSmall \<longleftrightarrow> too_small E"
    and "r = TooLarge \<longleftrightarrow> \<not> too_small E \<and> too_large E c"
    by (simp_all add: too_large_def)
qed

lemma GrabFrame_dropped:
  assumes "GrabFrame K E c = Inr (r, c')" "r \<noteq> Published"
  shows "write_pos (header c') = write_pos (header c)"
    and "frameinfos c' = frameinfos c"
    and "frame_data c' = frame_data c"
proof -
  obtain v ms where s: "GrabFrame_size K E (emit ms (c\<lparr>grabber := (grabber c)\<lparr>m_gl_version := v\<rparr>\<rparr>)) = (r, c')"
    using GrabFrame_Inr [OF assms(1)] by blast
  from GrabFrame_size_dropped [OF s assms(2)]
  show "write_pos (header c') = write_pos (header c)"
    and "frameinfos c' = frameinfos c"
    and "frame_data c' = frame_data c"
    by simp_all
qed

lemma new_trace:
  assumes "trace c' = trace c @ new"
  shows "drop (length (trace c)) (trace c') = new"
  using assms by simp

lemma GrabFrame_size_grabber:
  assumes "GrabFrame_size K E c = (r, c')"
  shows "m_ring_buffer_size (grabber c') = m_ring_buffer_size (grabber c)"
    and "m_target_fps (grabber c') = m_target_fps (grabber c)"
    and "m_flags (grabber c') = m_flags (grabber c)"
    and "m_max_bytes (grabber c') = m_max_bytes (grabber c)"
proof -
  have "m_ring_buffer_size (grabber c') = m_ring_buffer_size (grabber c) \<and>
        m_target_fps (grabber c') = m_target_fps (grabber c) \<and>
        m_flags (grabber c') = m_flags (grabber c) \<and>
        m_max_bytes (grabber c') = m_max_bytes (grabber c)"
  proof (cases "r = Published \<or> r = TooEarly")
    case False
    then show ?thesis
      using assms GrabFrame_timestamp_cases
        [of K E "write_pos (header c)" "grow_align16 (fst (XGetGeometry E) * 4)" "size_saved E c" r c']
      by (auto simp: GrabFrame_size_unfold size_saved_fields split: if_splits)
  next
    case True
    then have t: "GrabFrame_timestamp K E (write_pos (header c)) (grow_align16 (fst (XGetGeometry E) * 4))
             (size_saved E c) = (r, c')"
      using assms by (auto simp: GrabFrame_size_unfold split: if_splits)
    from GrabFrame_timestamp_cases [OF t] True show ?thesis
      by (auto simp: capture_grabber size_saved_fields)
  qed
  then show "m_ring_buffer_size (grabber c') = m_ring_buffer_size (grabber c)"
    and "m_target_fps (grabber c') = m_target_fps (grabber c)"
    and "m_flags (grabber c') = m_flags (grabber c)"
    and "m_max_bytes (grabber c') = m_max_bytes (grabber c)"
    by simp_all
qed

lemma GrabFrame_max_bytes:
  assumes "GrabFrame K E c = Inr (r, c')"
  shows "m_max_bytes (grabber c') = m_max_bytes (grabber c)"
proof -
  obtain v ms where s: "GrabFrame_size K E (emit ms (c\<lparr>grabber := (grabber c)\<lparr>m_gl_version := v\<rparr>\<rparr>)) = (r, c')"
    using GrabFrame_Inr [OF assms] by blast
  from GrabFrame_size_grabber(4) [OF s] show ?thesis by simp
qed

lemma too_large_max_bytes:
  "m_max_bytes (grabber c) = m_max_bytes (grabber c0) \<Longrightarrow> too_large E c = too_large E c0"
  by (simp add: too_large_def)

lemma GrabFrames_flags:
  "GrabFrames K steps c0 = Inr c \<Longrightarrow>
     m_max_bytes (grabber c) = m_max_bytes (grabber c0) \<and>
     m_warn_too_small (grabber c) =
       (m_warn_too_small (grabber c0) \<and> \<not> (\<exists>step \<in> set steps. too_small (snd step))) \<and>
     m_warn_too_large (grabber c) =
       (m_warn_too_large (grabber c0) \<and>
        \<not> (\<exists>step \<in> set steps. \<not> too_small (snd step) \<and> too_large (snd step) c0))"
proof (induction steps arbitrary: c0)
  case Nil
  then show ?case by simp
next
  case (Cons step steps)
  obtain rp E where step: "step = (rp, E)" by (cases step)
  let ?c = "c0\<lparr>header := (header c0)\<lparr>read_pos := rp\<rparr>\<rparr>"
  from Cons.prems obtain r c1 where
    g: "GrabFrame K E ?c = Inr (r, c1)"
    and rest: "GrabFrames K steps c1 = Inr c"
    by (auto simp: step split: sum.splits)
  have mb: "m_max_bytes (grabber c1) = m_max_bytes (grabber c0)"
    using GrabFrame_max_bytes [OF g] by simp
  have tl: "\<And>E'. too_large E' c1 = too_large E' c0" "too_large E ?c = too_large E c0"
    using mb by (simp_all add: too_large_def)
  have fl: "m_warn_too_small (grabber c1) = (m_warn_too_small (grabber c0) \<and> \<not> too_small E)"
    "m_warn_too_large (grabber c1) =
       (m_warn_too_large (grabber c0) \<and> \<not> (\<not> too_small E \<and> too_large E c0))"
    using GrabFrame_flags [OF g] GrabFrame_result [OF g] by (simp_all add: tl)
  from Cons.IH [OF rest] show ?case
    by (auto simp: step mb tl fl)
qed

text \<open>
  Claim C4. At any point of the life of a grabber (any run of returning calls from a
  state in which neither warning has been given), a call of \<open>GrabFrame\<close> observing a
  width or height below 2, or a stride times height (\<open>align16(width * 4) * height\<close>, as
  numbers) above \<open>max_bytes\<close>, returns through one of the two rejections; a rejected
  frame leaves \<open>write_pos\<close>, every descriptor and every payload as they were. Each
  of the two warnings is on standard error at most once over the whole life: exactly
  once after a rejection of its kind. A call that is not a rejection of a kind never
  gives the warning of that kind. Before a call, a warning has been given if and only
  if an earlier call of the life was a rejection of its kind (it saw a frame that the
  size check of that kind refuses); a rejection gives its warning if and only if the
  warning has not been given before: the first rejection of a kind warns and every
  later one is silent.
\<close>

theorem size_rejections_warn_once:
  assumes life: "GrabFrames K steps c0 = Inr c"
    and fresh: "m_warn_too_small (grabber c0)" "m_warn_too_large (grabber c0)"
      "Warning Frame_too_small \<notin> set (trace c0)" "Warning Frame_too_large \<notin> set (trace c0)"
    and step: "GrabFrame K E (c\<lparr>header := (header c)\<lparr>read_pos := rp\<rparr>\<rparr>) = Inr (r, c')"
  shows "(uint (fst (XGetGeometry E)) < 2 \<or> uint (snd (XGetGeometry E)) < 2 \<longrightarrow> r = TooSmall)
       \<and> ((4 * uint (fst (XGetGeometry E)) + 15) div 16 * 16 * uint (snd (XGetGeometry E))
              > uint (m_max_bytes (grabber c)) \<longrightarrow> r = TooSmall \<or> r = TooLarge)
       \<and> (r = TooSmall \<or> r = TooLarge \<longrightarrow>
             write_pos (header c') = write_pos (header c) \<and> frameinfos c' = frameinfos c \<and>
             frame_data c' = frame_data c)
       \<and> (r = TooSmall \<longrightarrow> count_list (trace c') (Warning Frame_too_small) = 1)
       \<and> (r = TooLarge \<longrightarrow> count_list (trace c') (Warning Frame_too_large) = 1)
       \<and> count_list (trace c') (Warning Frame_too_small) \<le> 1
       \<and> count_list (trace c') (Warning Frame_too_large) \<le> 1
       \<and> (r = TooSmall \<longrightarrow>
             (Warning Frame_too_small \<in> set (drop (length (trace c)) (trace c'))
                \<longleftrightarrow> Warning Frame_too_small \<notin> set (trace c)))
       \<and> (r = TooLarge \<longrightarrow>
             (Warning Frame_too_large \<in> set (drop (length (trace c)) (trace c'))
                \<longleftrightarrow> Warning Frame_too_large \<notin> set (trace c)))
       \<and> (r \<noteq> TooSmall \<longrightarrow> Warning Frame_too_small \<notin> set (drop (length (trace c)) (trace c')))
       \<and> (r \<noteq> TooLarge \<longrightarrow> Warning Frame_too_large \<notin> set (drop (length (trace c)) (trace c')))
       \<and> (r = TooSmall \<longleftrightarrow> too_small E)
       \<and> (r = TooLarge \<longleftrightarrow> \<not> too_small E \<and> too_large E c0)
       \<and> (Warning Frame_too_small \<in> set (trace c) \<longleftrightarrow>
             (\<exists>earlier \<in> set steps. too_small (snd earlier)))
       \<and> (Warning Frame_too_large \<in> set (trace c) \<longleftrightarrow>
             (\<exists>earlier \<in> set steps. \<not> too_small (snd earlier) \<and> too_large (snd earlier) c0))"
proof -
  let ?c = "c\<lparr>header := (header c)\<lparr>read_pos := rp\<rparr>\<rparr>"
  have inv: "warn_inv c"
    using GrabFrames_warn_inv [OF life] fresh_warn_inv [OF fresh] by simp
  then have inv1: "warn_inv ?c" by (simp add: read_pos_warn_inv)
  have inv': "warn_inv c'" using GrabFrame_warn_inv [OF step inv1] .
  obtain new where new: "trace c' = trace c @ new"
    and ns: "count_list new (Warning Frame_too_small) =
             (if r = TooSmall \<and> m_warn_too_small (grabber c) then 1 else 0)"
    and nl: "count_list new (Warning Frame_too_large) =
             (if r = TooLarge \<and> m_warn_too_large (grabber c) then 1 else 0)"
    using GrabFrame_trace [OF step] by auto
  have d: "drop (length (trace c)) (trace c') = new" using new by simp
  have 1: "uint (fst (XGetGeometry E)) < 2 \<or> uint (snd (XGetGeometry E)) < 2 \<longrightarrow> r = TooSmall"
    using GrabFrame_result(1) [OF step] by (simp add: too_small_uint)
  have 2: "(4 * uint (fst (XGetGeometry E)) + 15) div 16 * 16 * uint (snd (XGetGeometry E))
              > uint (m_max_bytes (grabber c)) \<longrightarrow> r = TooSmall \<or> r = TooLarge"
    using GrabFrame_result [OF step] stride_too_large [of c E] stride_too_large [of ?c E]
    by auto
  have 3: "r = TooSmall \<or> r = TooLarge \<longrightarrow>
             write_pos (header c') = write_pos (header c) \<and> frameinfos c' = frameinfos c \<and>
             frame_data c' = frame_data c"
    using GrabFrame_dropped [OF step] by auto
  have fl: "m_warn_too_small (grabber c') = (m_warn_too_small (grabber c) \<and> r \<noteq> TooSmall)"
    "m_warn_too_large (grabber c') = (m_warn_too_large (grabber c) \<and> r \<noteq> TooLarge)"
    using GrabFrame_flags [OF step] by simp_all
  have 4: "r = TooSmall \<longrightarrow> count_list (trace c') (Warning Frame_too_small) = 1"
    using inv' fl by (simp add: warn_inv_def)
  have 5: "r = TooLarge \<longrightarrow> count_list (trace c') (Warning Frame_too_large) = 1"
    using inv' fl by (simp add: warn_inv_def)
  have 6: "count_list (trace c') (Warning Frame_too_small) \<le> 1"
    "count_list (trace c') (Warning Frame_too_large) \<le> 1"
    using inv' by (simp_all add: warn_inv_def)
  have 7: "r = TooSmall \<longrightarrow>
             (Warning Frame_too_small \<in> set (drop (length (trace c)) (trace c'))
                \<longleftrightarrow> Warning Frame_too_small \<notin> set (trace c))"
    using inv ns count_list_0_iff [of new "Warning Frame_too_small"]
      count_list_0_iff [of "trace c" "Warning Frame_too_small"]
    by (auto simp: d warn_inv_def split: if_splits)
  have 8: "r = TooLarge \<longrightarrow>
             (Warning Frame_too_large \<in> set (drop (length (trace c)) (trace c'))
                \<longleftrightarrow> Warning Frame_too_large \<notin> set (trace c))"
    using inv nl count_list_0_iff [of new "Warning Frame_too_large"]
      count_list_0_iff [of "trace c" "Warning Frame_too_large"]
    by (auto simp: d warn_inv_def split: if_splits)
  have 9: "r \<noteq> TooSmall \<longrightarrow> Warning Frame_too_small \<notin> set (drop (length (trace c)) (trace c'))"
    using ns count_list_0_iff [of new "Warning Frame_too_small"] by (auto simp: d)
  have 10: "r \<noteq> TooLarge \<longrightarrow> Warning Frame_too_large \<notin> set (drop (length (trace c)) (trace c'))"
    using nl count_list_0_iff [of new "Warning Frame_too_large"] by (auto simp: d)
  note run = GrabFrames_flags [OF life]
  have mb: "too_large E ?c = too_large E c0"
    using run by (simp add: too_large_def)
  have 11: "r = TooSmall \<longleftrightarrow> too_small E"
    using GrabFrame_result(1) [OF step] .
  have 12: "r = TooLarge \<longleftrightarrow> \<not> too_small E \<and> too_large E c0"
    using GrabFrame_result(2) [OF step] by (simp add: mb)
  have 13: "Warning Frame_too_small \<in> set (trace c) \<longleftrightarrow>
             (\<exists>earlier \<in> set steps. too_small (snd earlier))"
    using inv run fresh(1) count_list_0_iff [of "trace c" "Warning Frame_too_small"]
    by (auto simp: warn_inv_def split: if_splits)
  have 14: "Warning Frame_too_large \<in> set (trace c) \<longleftrightarrow>
             (\<exists>earlier \<in> set steps. \<not> too_small (snd earlier) \<and> too_large (snd earlier) c0)"
    using inv run fresh(2) count_list_0_iff [of "trace c" "Warning Frame_too_large"]
    by (auto simp: warn_inv_def split: if_splits)
  from 1 2 3 4 5 have P1:
    "(uint (fst (XGetGeometry E)) < 2 \<or> uint (snd (XGetGeometry E)) < 2 \<longrightarrow> r = TooSmall)
       \<and> ((4 * uint (fst (XGetGeometry E)) + 15) div 16 * 16 * uint (snd (XGetGeometry E))
              > uint (m_max_bytes (grabber c)) \<longrightarrow> r = TooSmall \<or> r = TooLarge)
       \<and> (r = TooSmall \<or> r = TooLarge \<longrightarrow>
             write_pos (header c') = write_pos (header c) \<and> frameinfos c' = frameinfos c \<and>
             frame_data c' = frame_data c)
       \<and> (r = TooSmall \<longrightarrow> count_list (trace c') (Warning Frame_too_small) = 1)
       \<and> (r = TooLarge \<longrightarrow> count_list (trace c') (Warning Frame_too_large) = 1)"
    by blast
  from 6 7 8 9 10 have P2:
    "count_list (trace c') (Warning Frame_too_small) \<le> 1
       \<and> count_list (trace c') (Warning Frame_too_large) \<le> 1
       \<and> (r = TooSmall \<longrightarrow>
             (Warning Frame_too_small \<in> set (drop (length (trace c)) (trace c'))
                \<longleftrightarrow> Warning Frame_too_small \<notin> set (trace c)))
       \<and> (r = TooLarge \<longrightarrow>
             (Warning Frame_too_large \<in> set (drop (length (trace c)) (trace c'))
                \<longleftrightarrow> Warning Frame_too_large \<notin> set (trace c)))
       \<and> (r \<noteq> TooSmall \<longrightarrow> Warning Frame_too_small \<notin> set (drop (length (trace c)) (trace c')))
       \<and> (r \<noteq> TooLarge \<longrightarrow> Warning Frame_too_large \<notin> set (drop (length (trace c)) (trace c')))"
    by blast
  from 11 12 13 14 have P3:
    "(r = TooSmall \<longleftrightarrow> too_small E)
       \<and> (r = TooLarge \<longleftrightarrow> \<not> too_small E \<and> too_large E c0)
       \<and> (Warning Frame_too_small \<in> set (trace c) \<longleftrightarrow>
             (\<exists>earlier \<in> set steps. too_small (snd earlier)))
       \<and> (Warning Frame_too_large \<in> set (trace c) \<longleftrightarrow>
             (\<exists>earlier \<in> set steps. \<not> too_small (snd earlier) \<and> too_large (snd earlier) c0))"
    by blast
  from P1 P2 P3 show ?thesis by simp
qed

lemma GetGLVersion_returns:
  "glGetString_VERSION E = Some ''2.1 Mesa 10.1'' \<Longrightarrow> \<exists>v. GetGLVersion E c = Inr (v, emit [Message ''OpenGL version''] c)"
  by (simp add: GetGLVersion_def strspn_def char_at_def Let_def)

lemma GrabFrame_returns:
  assumes "glGetString_VERSION E = Some ''2.1 Mesa 10.1''"
  shows "\<exists>r c'. GrabFrame K E c = Inr (r, c')"
proof (cases "m_gl_version (grabber c) = 0")
  case True
  obtain v where "GetGLVersion E c = Inr (v, emit [Message ''OpenGL version''] c)"
    using GetGLVersion_returns [OF assms] by blast
  then show ?thesis
    using True by (simp add: GrabFrame_def prod_eq_iff)
next
  case False
  then show ?thesis by (simp add: GrabFrame_def prod_eq_iff)
qed

lemma GrabFrame_size_published:
  assumes "GrabFrame_size K E c = (Published, c')"
  shows "\<exists>t n us. c' = GrabFrame_capture K E t (write_pos (header c))
                         (grow_align16 (fst (XGetGeometry E) * 4))
                         (emit us ((size_saved E c)\<lparr>grabber := (grabber (size_saved E c))
                                                        \<lparr>m_next_frame_time := n\<rparr>\<rparr>)) \<and>
                  (us = [] \<or> (\<exists>d. us = [Usleep d]))"
proof -
  have t: "GrabFrame_timestamp K E (write_pos (header c)) (grow_align16 (fst (XGetGeometry E) * 4))
             (size_saved E c) = (Published, c')"
    using assms by (auto simp: GrabFrame_size_unfold split: if_splits)
  from GrabFrame_timestamp_cases [OF t] show ?thesis by simp
qed

lemma GrabFrame_published_frameinfo:
  assumes "GrabFrame K E c = Inr (Published, c')"
    and "unat (write_pos (header c) mod m_ring_buffer_size (grabber c)) < length (frameinfos c)"
  shows "width (frameinfos c' ! unat (write_pos (header c) mod m_ring_buffer_size (grabber c)))
           = fst (XGetGeometry E)"
    and "height (frameinfos c' ! unat (write_pos (header c) mod m_ring_buffer_size (grabber c)))
           = snd (XGetGeometry E)"
proof -
  obtain v ms where s: "GrabFrame_size K E (emit ms (c\<lparr>grabber := (grabber c)\<lparr>m_gl_version := v\<rparr>\<rparr>))
      = (Published, c')"
    using GrabFrame_Inr [OF assms(1)] by blast
  from GrabFrame_size_published [OF s] assms(2)
  show "width (frameinfos c' ! unat (write_pos (header c) mod m_ring_buffer_size (grabber c)))
           = fst (XGetGeometry E)"
    and "height (frameinfos c' ! unat (write_pos (header c) mod m_ring_buffer_size (grabber c)))
           = snd (XGetGeometry E)"
    by (auto simp: capture_frameinfos size_saved_fields)
qed

text \<open>
  Claim C10, amended. A call of \<open>GrabFrame\<close> that observes a width or height above
  10000 never publishes, whatever \<open>max_bytes\<close> is: when both dimensions are at least 2
  it returns through the too-large rejection (warning if that warning has not been
  given yet, and never again), and when the other dimension is below 2 through the
  too-small rejection. So a published frame, and the descriptor written for it, is at
  most 10000 wide and high.
\<close>

theorem oversized_frames_rejected:
  assumes step: "GrabFrame K E c = Inr (r, c')"
  shows "(uint (fst (XGetGeometry E)) > 10000 \<or> uint (snd (XGetGeometry E)) > 10000 \<longrightarrow>
            (r = TooSmall \<or> r = TooLarge) \<and>
            write_pos (header c') = write_pos (header c) \<and> frameinfos c' = frameinfos c \<and>
            frame_data c' = frame_data c)
       \<and> ((uint (fst (XGetGeometry E)) > 10000 \<or> uint (snd (XGetGeometry E)) > 10000) \<and>
          2 \<le> uint (fst (XGetGeometry E)) \<and> 2 \<le> uint (snd (XGetGeometry E)) \<longrightarrow>
            r = TooLarge \<and>
            (Warning Frame_too_large \<in> set (drop (length (trace c)) (trace c'))
               \<longleftrightarrow> m_warn_too_large (grabber c)) \<and>
            \<not> m_warn_too_large (grabber c'))
       \<and> ((uint (fst (XGetGeometry E)) > 10000 \<or> uint (snd (XGetGeometry E)) > 10000) \<and>
          (uint (fst (XGetGeometry E)) < 2 \<or> uint (snd (XGetGeometry E)) < 2) \<longrightarrow>
            r = TooSmall \<and>
            Warning Frame_too_large \<notin> set (drop (length (trace c)) (trace c')))
       \<and> (r = Published \<longrightarrow>
            uint (fst (XGetGeometry E)) \<le> 10000 \<and> uint (snd (XGetGeometry E)) \<le> 10000)
       \<and> (r = Published \<and>
          unat (write_pos (header c) mod m_ring_buffer_size (grabber c)) < length (frameinfos c) \<longrightarrow>
            width (frameinfos c' ! unat (write_pos (header c) mod m_ring_buffer_size (grabber c)))
              = fst (XGetGeometry E) \<and>
            height (frameinfos c' ! unat (write_pos (header c) mod m_ring_buffer_size (grabber c)))
              = snd (XGetGeometry E))"
proof -
  obtain new where new: "trace c' = trace c @ new"
    and nl: "count_list new (Warning Frame_too_large) =
             (if r = TooLarge \<and> m_warn_too_large (grabber c) then 1 else 0)"
    using GrabFrame_trace [OF step] by auto
  have d: "drop (length (trace c)) (trace c') = new" using new by simp
  have mem: "Warning Frame_too_large \<in> set new \<longleftrightarrow> r = TooLarge \<and> m_warn_too_large (grabber c)"
    using nl count_list_0_iff [of new "Warning Frame_too_large"] by (auto split: if_splits)
  note res = GrabFrame_result [OF step]
  have A: "uint (fst (XGetGeometry E)) > 10000 \<or> uint (snd (XGetGeometry E)) > 10000 \<longrightarrow>
            (r = TooSmall \<or> r = TooLarge) \<and>
            write_pos (header c') = write_pos (header c) \<and> frameinfos c' = frameinfos c \<and>
            frame_data c' = frame_data c"
    using res beyond_10000_too_large [of E c] GrabFrame_dropped [OF step] by auto
  have B: "(uint (fst (XGetGeometry E)) > 10000 \<or> uint (snd (XGetGeometry E)) > 10000) \<and>
          2 \<le> uint (fst (XGetGeometry E)) \<and> 2 \<le> uint (snd (XGetGeometry E)) \<longrightarrow>
            r = TooLarge \<and>
            (Warning Frame_too_large \<in> set (drop (length (trace c)) (trace c'))
               \<longleftrightarrow> m_warn_too_large (grabber c)) \<and>
            \<not> m_warn_too_large (grabber c')"
    using res beyond_10000_too_large [of E c] GrabFrame_flags(2) [OF step] mem
    by (auto simp: d too_small_uint)
  have C: "(uint (fst (XGetGeometry E)) > 10000 \<or> uint (snd (XGetGeometry E)) > 10000) \<and>
          (uint (fst (XGetGeometry E)) < 2 \<or> uint (snd (XGetGeometry E)) < 2) \<longrightarrow>
            r = TooSmall \<and>
            Warning Frame_too_large \<notin> set (drop (length (trace c)) (trace c'))"
    using res mem by (auto simp: d too_small_uint)
  have D: "r = Published \<longrightarrow>
            uint (fst (XGetGeometry E)) \<le> 10000 \<and> uint (snd (XGetGeometry E)) \<le> 10000"
    using res not_too_large_bounds [of E c] by auto
  have F: "r = Published \<and>
          unat (write_pos (header c) mod m_ring_buffer_size (grabber c)) < length (frameinfos c) \<longrightarrow>
            width (frameinfos c' ! unat (write_pos (header c) mod m_ring_buffer_size (grabber c)))
              = fst (XGetGeometry E) \<and>
            height (frameinfos c' ! unat (write_pos (header c) mod m_ring_buffer_size (grabber c)))
              = snd (XGetGeometry E)"
    using GrabFrame_published_frameinfo [of K E c c'] step by auto
  from A B C D F show ?thesis by blast
qed

lemma example_env_fields:
  "glGetString_VERSION (example_env v now g) = v"
  "XGetGeometry (example_env v now g) = g"
  "hrt_time_micro (example_env v now g) = now"
  "glGetError (example_env v now g) a = False"
  "XTranslateCoordinates (example_env v now g) = Some (0, 0)"
  "XFixesGetCursorImage (example_env v now g) = None"
  by (simp_all add: example_env_def)

text \<open>
  Claim C10 as stated fails for a frame 20000 wide and 1 high: the size check for too
  small frames comes first, so the frame is rejected with the too-small warning and
  the too-large warning is not given.
\<close>

theorem oversized_flat_frame_takes_too_small_path:
  "result_of (GrabFrame example_consts (example_env (Some ''2.1 Mesa 10.1'') 2000 (20000, 1))
                example_capture) = Some TooSmall
   \<and> Warning Frame_too_small \<in> set (trace (capture_of
         (GrabFrame example_consts (example_env (Some ''2.1 Mesa 10.1'') 2000 (20000, 1))
            example_capture)))
   \<and> Warning Frame_too_large \<notin> set (trace (capture_of
         (GrabFrame example_consts (example_env (Some ''2.1 Mesa 10.1'') 2000 (20000, 1))
            example_capture)))
   \<and> uint (fst (XGetGeometry (example_env (Some ''2.1 Mesa 10.1'') 2000 (20000, 1)))) > 10000"
  by (simp add: GrabFrame_def GetGLVersion_def strspn_def char_at_def Let_def
        GrabFrame_size_unfold too_small_def size_saved_def
        example_env_fields example_capture_def example_grabber_def example_header_def
        result_of_def capture_of_def)

theorem oversized_frames_rejected_witness:
  "\<exists>c'. GrabFrame example_consts (example_env (Some ''2.1 Mesa 10.1'') 2000 (20000, 2))
           example_capture = Inr (TooLarge, c')
       \<and> Warning Frame_too_large \<in> set (trace c')
       \<and> write_pos (header c') = 1
       \<and> m_warn_too_large (grabber example_capture)"
proof -
  let ?E = "example_env (Some ''2.1 Mesa 10.1'') 2000 (20000, 2)"
  obtain r c' where g: "GrabFrame example_consts ?E example_capture = Inr (r, c')"
    using GrabFrame_returns [OF example_env_fields(1)] by blast
  have f: "uint (fst (XGetGeometry ?E)) = 20000" "uint (snd (XGetGeometry ?E)) = 2"
    "m_warn_too_large (grabber example_capture)" "trace example_capture = []"
    "write_pos (header example_capture) = 1"
    by (simp_all add: example_env_fields example_capture_def example_grabber_def example_header_def)
  from oversized_frames_rejected [OF g] f g show ?thesis by simp
qed

theorem size_rejections_warn_once_witness:
  "\<exists>c c'. GrabFrames example_consts [(0, example_env (Some ''2.1 Mesa 10.1'') 2000 (1, 1))]
             example_capture = Inr c
        \<and> GrabFrame example_consts (example_env (Some ''2.1 Mesa 10.1'') 3000 (1, 1))
             (c\<lparr>header := (header c)\<lparr>read_pos := 0\<rparr>\<rparr>) = Inr (TooSmall, c')
        \<and> count_list (trace c') (Warning Frame_too_small) = 1
        \<and> Warning Frame_too_small \<in> set (trace c)
        \<and> Warning Frame_too_small \<notin> set (drop (length (trace c)) (trace c'))
        \<and> Warning Frame_too_large \<notin> set (trace c')
        \<and> frameinfos c' = frameinfos c \<and> frame_data c' = frame_data c"
proof -
  let ?E1 = "example_env (Some ''2.1 Mesa 10.1'') 2000 (1, 1)"
  let ?E2 = "example_env (Some ''2.1 Mesa 10.1'') 3000 (1, 1)"
  obtain r1 c where g1: "GrabFrame example_consts ?E1
      (example_capture\<lparr>header := (header example_capture)\<lparr>read_pos := 0\<rparr>\<rparr>) = Inr (r1, c)"
    using GrabFrame_returns [OF example_env_fields(1)] by blast
  then have life: "GrabFrames example_consts [(0, ?E1)] example_capture = Inr c"
    by simp
  obtain r c' where g2: "GrabFrame example_consts ?E2 (c\<lparr>header := (header c)\<lparr>read_pos := 0\<rparr>\<rparr>)
      = Inr (r, c')"
    using GrabFrame_returns [OF example_env_fields(1)] by blast
  have fresh: "m_warn_too_small (grabber example_capture)" "m_warn_too_large (grabber example_capture)"
    "Warning Frame_too_small \<notin> set (trace example_capture)"
    "Warning Frame_too_large \<notin> set (trace example_capture)"
    by (simp_all add: example_capture_def example_grabber_def)
  have geo: "uint (fst (XGetGeometry ?E2)) = 1" "uint (fst (XGetGeometry ?E1)) = 1"
    by (simp_all add: example_env_fields)
  note T2 = size_rejections_warn_once [OF life fresh g2]
  have e: "example_capture\<lparr>header := (header example_capture)\<lparr>read_pos := 0\<rparr>\<rparr> = example_capture"
    by (simp add: example_capture_def example_header_def)
  have l0: "GrabFrames example_consts [] example_capture = Inr example_capture" by simp
  have r: "r = TooSmall" using T2 geo by simp
  have "count_list (trace c') (Warning Frame_too_small) = 1" using T2 r by simp
  moreover have "frameinfos c' = frameinfos c \<and> frame_data c' = frame_data c" using T2 r by simp
  moreover have w: "Warning Frame_too_small \<in> set (trace c)"
    using T2 by (simp add: too_small_def example_env_fields)
  moreover have "Warning Frame_too_small \<notin> set (drop (length (trace c)) (trace c'))"
    using T2 r w by simp
  moreover have "Warning Frame_too_large \<notin> set (trace c')"
  proof -
    have a: "Warning Frame_too_large \<notin> set (trace c)"
      using T2 by (simp add: too_small_def example_env_fields)
    have b: "Warning Frame_too_large \<notin> set (drop (length (trace c)) (trace c'))"
      using T2 r by simp
    have "set (trace c') \<subseteq> set (trace c) \<union> set (drop (length (trace c)) (trace c'))"
      using set_take_subset [of "length (trace c)" "trace c'"]
        append_take_drop_id [of "length (trace c)" "trace c'"] GrabFrame_trace [OF g2]
      by auto
    with a b show ?thesis by blast
  qed
  ultimately show ?thesis using life g2 r by blast
qed

lemma GrabFrame_size_ring_full:
  "GrabFrame_size K E c = (RingFull, c') \<Longrightarrow> c' = size_saved E c"
  using GrabFrame_timestamp_cases
    [of K E "write_pos (header c)" "grow_align16 (fst (XGetGeometry E) * 4)" "size_saved E c" RingFull c']
  by (auto simp: GrabFrame_size_unfold split: if_splits)

lemma uint_frames_ready:
  assumes "0 < m_ring_buffer_size (grabber c)" "m_ring_buffer_size (grabber c) \<le> 1000"
    and "write_pos (header c) < 2 * m_ring_buffer_size (grabber c)"
    and "read_pos (header c) < 2 * m_ring_buffer_size (grabber c)"
  shows "uint (frames_ready c) =
           (uint (write_pos (header c)) - uint (read_pos (header c)))
             mod (2 * uint (m_ring_buffer_size (grabber c)))"
  using frames_ready_uint [OF assms] by (simp add: frames_ready_def positive_mod_def)

lemma no_warning_in_saved:
  "trace (size_saved E c) = trace c @ new \<Longrightarrow> Warning w \<notin> set new"
  by (auto simp: size_saved_trace split: if_splits)

lemma gl_warnings_only:
  "e \<in> set (gl_warnings E codes) \<Longrightarrow> \<exists>a. e = Warning (OpenGL_error a)"
  by (auto simp: gl_warnings_def)

lemma store_other [simp]:
  "store (Warning w) mem = mem"
  "store (Error msg) mem = mem"
  "store (Message msg) mem = mem"
  "store (Usleep us) mem = mem"
  "store (Shm_attach shmid) mem = mem"
  "store (Shm_detach shmid) mem = mem"
  by (simp_all add: store_def)

lemma store_store [simp]:
  "store (Store_geometry w h) mem =
     mem\<lparr>mem_header := (mem_header mem)\<lparr>current_width := w, current_height := h\<rparr>\<rparr>"
  "store (Store_frame_counter n) mem = mem\<lparr>mem_header := (mem_header mem)\<lparr>frame_counter := n\<rparr>\<rparr>"
  "store (Store_frameinfo i frameinfo) mem = mem\<lparr>mem_frameinfos := (mem_frameinfos mem)[i := frameinfo]\<rparr>"
  "store (Store_pixels i img) mem = mem\<lparr>mem_frame_data := (mem_frame_data mem)[i := img]\<rparr>"
  "store (Store_cursor i img) mem = mem\<lparr>mem_frame_data := (mem_frame_data mem)[i := img]\<rparr>"
  "store (Store_write_pos wp) mem = mem\<lparr>mem_header := (mem_header mem)\<lparr>write_pos := wp\<rparr>\<rparr>"
  by (simp_all add: store_def)

lemma stores_simps [simp]:
  "stores [] mem = mem"
  "stores (e # es) mem = stores es (store e mem)"
  "stores (es @ ds) mem = stores ds (stores es mem)"
  by (simp_all add: stores_def)

lemma stores_gl_warnings [simp]: "stores (gl_warnings E codes) mem = mem"
  by (induction codes) (simp_all add: gl_warnings_def)

lemma stores_post:
  "\<forall>e \<in> set post. \<exists>a. e = Warning (OpenGL_error a) \<Longrightarrow> stores post mem = mem"
  by (induction post) auto

lemma shared_memory_fields [simp]:
  "mem_header (shared_memory c) = header c"
  "mem_frameinfos (shared_memory c) = frameinfos c"
  "mem_frame_data (shared_memory c) = frame_data c"
  "shared_memory (emit es c) = shared_memory c"
  "shared_memory (c\<lparr>grabber := g\<rparr>) = shared_memory c"
  by (simp_all add: shared_memory_def)

lemma stores_capture_fill:
  "stores (capture_fill K E t wr_pos stride c) mem =
     mem\<lparr>mem_frameinfos := (mem_frameinfos mem)[unat (wr_pos mod m_ring_buffer_size (grabber c)) :=
            slot_descriptor t c (unat (wr_pos mod m_ring_buffer_size (grabber c)))],
         mem_frame_data := (mem_frame_data mem)[unat (wr_pos mod m_ring_buffer_size (grabber c)) :=
            (if cursor_drawn K E (grabber c)
             then slot_cursor K E stride c (unat (wr_pos mod m_ring_buffer_size (grabber c)))
             else slot_pixels K E stride c (unat (wr_pos mod m_ring_buffer_size (grabber c))))]\<rparr>"
  by (simp add: capture_fill_def)

lemma capture_fill_memory:
  "stores (capture_fill K E t wr_pos stride c) (shared_memory c) =
     (shared_memory (GrabFrame_capture K E t wr_pos stride c))
       \<lparr>mem_header := header c\<rparr>"
  by (simp add: stores_capture_fill shared_memory_def capture_frameinfos capture_frame_data
        slot_descriptor_def)

lemma capture_memory:
  "shared_memory (GrabFrame_capture K E t wr_pos stride c) =
     stores (capture_effects K E t wr_pos stride c) (shared_memory c)"
  by (simp add: capture_effects_def stores_capture_fill shared_memory_def capture_header
        capture_frameinfos capture_frame_data slot_descriptor_def)

lemma size_saved_memory:
  "\<exists>saved. trace (size_saved E c) = trace c @ saved \<and>
           shared_memory (size_saved E c) = stores saved (shared_memory c) \<and>
           (\<forall>w. Warning w \<notin> set saved)"
proof -
  let ?saved = "(if fst (XGetGeometry E) \<noteq> m_width (grabber c) \<or> snd (XGetGeometry E) \<noteq> m_height (grabber c)
            then [Message ''frame size''] else [])
           @ [Store_geometry (fst (XGetGeometry E)) (snd (XGetGeometry E)),
              Store_frame_counter (frame_counter (header c) + 1)]"
  have "trace (size_saved E c) = trace c @ ?saved"
    by (rule size_saved_trace)
  moreover have "shared_memory (size_saved E c) = stores ?saved (shared_memory c)"
    by (simp add: shared_memory_def size_saved_def)
  moreover have "\<forall>w. Warning w \<notin> set ?saved"
    by simp
  ultimately show ?thesis by blast
qed

lemma GrabFrame_timestamp_published:
  assumes "GrabFrame_timestamp K E wr_pos stride c = (Published, c')"
  shows "\<exists>n us. c' = GrabFrame_capture K E (capture_time K E (grabber c)) wr_pos stride
                        (emit us (c\<lparr>grabber := (grabber c)\<lparr>m_next_frame_time := n\<rparr>\<rparr>)) \<and>
                 (us = [] \<or> (\<exists>d. us = [Usleep d]))"
proof -
  have id: "c = emit [] (c\<lparr>grabber := (grabber c)\<lparr>m_next_frame_time := m_next_frame_time (grabber c)\<rparr>\<rparr>)"
    by (simp add: emit_def)
  have e: "\<And>n. c\<lparr>grabber := (grabber c)\<lparr>m_next_frame_time := n\<rparr>\<rparr> =
                emit [] (c\<lparr>grabber := (grabber c)\<lparr>m_next_frame_time := n\<rparr>\<rparr>)"
    by (simp add: emit_def)
  have u: "\<And>n d. (emit [Usleep d] c)\<lparr>grabber := (grabber c)\<lparr>m_next_frame_time := n\<rparr>\<rparr> =
                emit [Usleep d] (c\<lparr>grabber := (grabber c)\<lparr>m_next_frame_time := n\<rparr>\<rparr>)"
    by (simp add: emit_def)
  show ?thesis
    using assms
    apply (simp add: GrabFrame_timestamp_def capture_time_def Let_def u split: if_splits)
    apply (metis e id)+
    done
qed

lemma GrabFrame_size_published_capture:
  assumes "GrabFrame_size K E c = (Published, c')"
  shows "\<exists>n us. c' = GrabFrame_capture K E (capture_time K E (grabber c)) (write_pos (header c))
                         (grow_align16 (fst (XGetGeometry E) * 4))
                         (emit us ((size_saved E c)\<lparr>grabber := (grabber (size_saved E c))
                                                        \<lparr>m_next_frame_time := n\<rparr>\<rparr>)) \<and>
                  (us = [] \<or> (\<exists>d. us = [Usleep d]))"
proof -
  have t: "GrabFrame_timestamp K E (write_pos (header c)) (grow_align16 (fst (XGetGeometry E) * 4))
             (size_saved E c) = (Published, c')"
    using assms by (auto simp: GrabFrame_size_unfold split: if_splits)
  have "capture_time K E (grabber (size_saved E c)) = capture_time K E (grabber c)"
    by (simp add: capture_time_def size_saved_fields)
  with GrabFrame_timestamp_published [OF t] show ?thesis by simp
qed

lemma GrabFrame_size_published_memory:
  assumes "GrabFrame_size K E c = (Published, c')"
  shows "\<exists>pre post.
           trace c' = trace c @ pre @ Store_write_pos (write_pos (header c')) # post \<and>
           (\<forall>e \<in> set post. \<exists>a. e = Warning (OpenGL_error a)) \<and>
           stores pre (shared_memory c) =
             (shared_memory c')\<lparr>mem_header := (header c')\<lparr>write_pos := write_pos (header c)\<rparr>\<rparr>"
    and "frameinfos c' =
           (frameinfos c)[unat (write_pos (header c) mod m_ring_buffer_size (grabber c)) :=
              published_descriptor K E (grabber c)
                (frameinfos c ! unat (write_pos (header c) mod m_ring_buffer_size (grabber c)))]"
    and "frame_data c' =
           (frame_data c)[unat (write_pos (header c) mod m_ring_buffer_size (grabber c)) :=
              published_payload K E (grabber c)
                (frame_data c ! unat (write_pos (header c) mod m_ring_buffer_size (grabber c)))]"
    and "write_pos (header c') =
           (write_pos (header c) + 1) mod (m_ring_buffer_size (grabber c) * 2)"
proof -
  let ?stride = "grow_align16 (fst (XGetGeometry E) * 4)"
  let ?t = "capture_time K E (grabber c)"
  let ?wr = "write_pos (header c)"
  let ?cf = "unat (?wr mod m_ring_buffer_size (grabber c))"
  obtain n us where c': "c' = GrabFrame_capture K E ?t ?wr ?stride
        (emit us ((size_saved E c)\<lparr>grabber := (grabber (size_saved E c))\<lparr>m_next_frame_time := n\<rparr>\<rparr>))"
    and us: "us = [] \<or> (\<exists>d. us = [Usleep d])"
    using GrabFrame_size_published_capture [OF assms] by blast
  let ?c1 = "emit us ((size_saved E c)\<lparr>grabber := (grabber (size_saved E c))\<lparr>m_next_frame_time := n\<rparr>\<rparr>)"
  show fi: "frameinfos c' = (frameinfos c)[?cf := published_descriptor K E (grabber c) (frameinfos c ! ?cf)]"
    by (simp add: c' capture_frameinfos published_descriptor_def size_saved_fields)
  show fd: "frame_data c' = (frame_data c)[?cf := published_payload K E (grabber c) (frame_data c ! ?cf)]"
    by (simp add: c' capture_frame_data slot_cursor_def slot_pixels_def cursor_drawn_def
          published_payload_def Let_def size_saved_fields split: option.splits)
  show wp: "write_pos (header c') = (?wr + 1) mod (m_ring_buffer_size (grabber c) * 2)"
    by (simp add: c' capture_header size_saved_fields)
  obtain saved where saved: "trace (size_saved E c) = trace c @ saved"
    "shared_memory (size_saved E c) = stores saved (shared_memory c)"
    using size_saved_memory [of E c] by blast
  let ?pre = "saved @ us @ capture_fill K E ?t ?wr ?stride ?c1"
  let ?post = "if m_debug (grabber c) then gl_warnings E restore_settings else []"
  have tr: "trace c' = trace c @ ?pre @ Store_write_pos (write_pos (header c')) # ?post"
    by (simp add: c' capture_trace capture_effects_def capture_header saved(1) size_saved_fields)
  have post: "\<forall>e \<in> set ?post. \<exists>a. e = Warning (OpenGL_error a)"
    using gl_warnings_only by auto
  have su: "stores us mem = mem" for mem
    using us by auto
  have m1: "shared_memory ?c1 = shared_memory (size_saved E c)"
    by simp
  have "stores ?pre (shared_memory c) =
          stores (capture_fill K E ?t ?wr ?stride ?c1) (shared_memory ?c1)"
    by (simp add: su saved(2))
  also have "\<dots> = (shared_memory c')\<lparr>mem_header := header ?c1\<rparr>"
    unfolding c' by (rule capture_fill_memory)
  also have "\<dots> = (shared_memory c')\<lparr>mem_header := (header c')\<lparr>write_pos := write_pos (header c)\<rparr>\<rparr>"
  proof -
    have "(header c')\<lparr>write_pos := write_pos (header c)\<rparr> = header ?c1"
      by (simp add: c' capture_header size_saved_fields(17) [symmetric])
    then show ?thesis by simp
  qed
  finally have mem: "stores ?pre (shared_memory c) =
      (shared_memory c')\<lparr>mem_header := (header c')\<lparr>write_pos := write_pos (header c)\<rparr>\<rparr>" .
  from tr post mem
  show "\<exists>pre post.
           trace c' = trace c @ pre @ Store_write_pos (write_pos (header c')) # post \<and>
           (\<forall>e \<in> set post. \<exists>a. e = Warning (OpenGL_error a)) \<and>
           stores pre (shared_memory c) =
             (shared_memory c')\<lparr>mem_header := (header c')\<lparr>write_pos := write_pos (header c)\<rparr>\<rparr>"
    by blast
qed

lemma GrabFrame_ring_full:
  assumes "GrabFrame K E c = Inr (r, c')"
    and "0 < m_ring_buffer_size (grabber c)" "m_ring_buffer_size (grabber c) \<le> 1000"
    and "write_pos (header c) < 2 * m_ring_buffer_size (grabber c)"
    and "read_pos (header c) < 2 * m_ring_buffer_size (grabber c)"
  shows "r = RingFull \<longleftrightarrow> \<not> too_small E \<and> \<not> too_large E c \<and>
           uint (m_ring_buffer_size (grabber c)) \<le>
             (uint (write_pos (header c)) - uint (read_pos (header c)))
               mod (2 * uint (m_ring_buffer_size (grabber c)))"
    and "r = RingFull \<Longrightarrow> Warning w \<notin> set (drop (length (trace c)) (trace c'))"
proof -
  obtain v ms where s: "GrabFrame_size K E (emit ms (c\<lparr>grabber := (grabber c)\<lparr>m_gl_version := v\<rparr>\<rparr>))
      = (r, c')" and ms: "ms = [] \<or> ms = [Message ''OpenGL version'']"
    using GrabFrame_Inr [OF assms(1)] by blast
  let ?c1 = "emit ms (c\<lparr>grabber := (grabber c)\<lparr>m_gl_version := v\<rparr>\<rparr>)"
  have "uint (frames_ready (size_saved E ?c1)) =
           (uint (write_pos (header c)) - uint (read_pos (header c)))
             mod (2 * uint (m_ring_buffer_size (grabber c)))"
    using uint_frames_ready [of "size_saved E ?c1"] assms(2-5) by (simp add: size_saved_fields)
  then show "r = RingFull \<longleftrightarrow> \<not> too_small E \<and> \<not> too_large E c \<and>
           uint (m_ring_buffer_size (grabber c)) \<le>
             (uint (write_pos (header c)) - uint (read_pos (header c)))
               mod (2 * uint (m_ring_buffer_size (grabber c)))"
    using GrabFrame_size_result(3) [OF s] by (simp add: word_le_def too_large_def)
  show "Warning w \<notin> set (drop (length (trace c)) (trace c'))" if "r = RingFull"
  proof -
    have c': "c' = size_saved E ?c1"
      using s that GrabFrame_size_ring_full by blast
    obtain sz where sz: "trace (size_saved E ?c1) = trace ?c1 @ sz"
      by (simp add: size_saved_trace)
    have "Warning w \<notin> set sz" using no_warning_in_saved [OF sz] .
    moreover have "drop (length (trace c)) (trace c') = ms @ sz"
      using sz by (simp add: c')
    ultimately show ?thesis using ms by auto
  qed
qed

lemma GrabFrame_size_memory:
  assumes "GrabFrame_size K E c = (r, c')"
  shows "\<exists>new. trace c' = trace c @ new \<and> shared_memory c' = stores new (shared_memory c)"
proof (cases "r = Published")
  case True
  obtain pre post where
    tr: "trace c' = trace c @ pre @ Store_write_pos (write_pos (header c')) # post"
    and post: "\<forall>e \<in> set post. \<exists>a. e = Warning (OpenGL_error a)"
    and mem: "stores pre (shared_memory c) =
             (shared_memory c')\<lparr>mem_header := (header c')\<lparr>write_pos := write_pos (header c)\<rparr>\<rparr>"
    using GrabFrame_size_published_memory(1) [of K E c c'] assms True by blast
  have "stores (pre @ Store_write_pos (write_pos (header c')) # post) (shared_memory c) =
          (shared_memory c')\<lparr>mem_header := header c'\<rparr>"
    by (simp add: mem stores_post [OF post])
  also have "\<dots> = shared_memory c'"
    by (simp add: shared_memory_def)
  finally have "shared_memory c' =
      stores (pre @ Store_write_pos (write_pos (header c')) # post) (shared_memory c)"
    by simp
  with tr show ?thesis
    by (intro exI [of _ "pre @ Store_write_pos (write_pos (header c')) # post"] conjI)
next
  case False
  obtain saved where saved: "trace (size_saved E c) = trace c @ saved"
    "shared_memory (size_saved E c) = stores saved (shared_memory c)"
    using size_saved_memory [of E c] by blast
  have "c' = size_saved E c \<or>
        (\<exists>w g. c' = emit [Warning w] ((size_saved E c)\<lparr>grabber := g\<rparr>))"
    using assms False GrabFrame_timestamp_cases
      [of K E "write_pos (header c)" "grow_align16 (fst (XGetGeometry E) * 4)" "size_saved E c" r c']
    by (auto simp: GrabFrame_size_unfold split: if_splits)
  then show ?thesis
  proof
    assume "c' = size_saved E c"
    with saved show ?thesis by blast
  next
    assume "\<exists>w g. c' = emit [Warning w] ((size_saved E c)\<lparr>grabber := g\<rparr>)"
    then obtain w g where c': "c' = emit [Warning w] ((size_saved E c)\<lparr>grabber := g\<rparr>)"
      by blast
    have "trace c' = trace c @ (saved @ [Warning w])"
      by (simp add: c' saved(1))
    moreover have "shared_memory c' = stores (saved @ [Warning w]) (shared_memory c)"
      by (simp add: c' saved(2))
    ultimately show ?thesis by blast
  qed
qed

lemma GrabFrame_memory:
  assumes "GrabFrame K E c = Inr (r, c')"
  shows "shared_memory c' = stores (drop (length (trace c)) (trace c')) (shared_memory c)"
proof -
  obtain v ms where s: "GrabFrame_size K E (emit ms (c\<lparr>grabber := (grabber c)\<lparr>m_gl_version := v\<rparr>\<rparr>)) = (r, c')"
    and ms: "ms = [] \<or> ms = [Message ''OpenGL version'']"
    using GrabFrame_Inr [OF assms] by blast
  let ?c1 = "emit ms (c\<lparr>grabber := (grabber c)\<lparr>m_gl_version := v\<rparr>\<rparr>)"
  obtain new where new: "trace c' = trace ?c1 @ new"
    "shared_memory c' = stores new (shared_memory ?c1)"
    using GrabFrame_size_memory [OF s] by blast
  have "stores ms mem = mem" for mem
    using ms by auto
  then have "shared_memory c' = stores (ms @ new) (shared_memory c)"
    using new(2) by simp
  moreover have "drop (length (trace c)) (trace c') = ms @ new"
    using new(1) by simp
  ultimately show ?thesis by simp
qed

lemma published_gl_version [simp]:
  "published_descriptor K E (g\<lparr>m_gl_version := v\<rparr>) = published_descriptor K E g"
  "published_payload K E (g\<lparr>m_gl_version := v\<rparr>) = published_payload K E g"
  by (simp_all add: published_descriptor_def published_payload_def capture_time_def fun_eq_iff)

lemma GrabFrame_published_memory:
  assumes "GrabFrame K E c = Inr (Published, c')"
  shows "\<exists>pre post.
           drop (length (trace c)) (trace c') = pre @ Store_write_pos (write_pos (header c')) # post \<and>
           (\<forall>e \<in> set post. \<exists>a. e = Warning (OpenGL_error a)) \<and>
           stores pre (shared_memory c) =
             (shared_memory c')\<lparr>mem_header := (header c')\<lparr>write_pos := write_pos (header c)\<rparr>\<rparr>"
    and "frameinfos c' =
           (frameinfos c)[unat (write_pos (header c) mod m_ring_buffer_size (grabber c)) :=
              published_descriptor K E (grabber c)
                (frameinfos c ! unat (write_pos (header c) mod m_ring_buffer_size (grabber c)))]"
    and "frame_data c' =
           (frame_data c)[unat (write_pos (header c) mod m_ring_buffer_size (grabber c)) :=
              published_payload K E (grabber c)
                (frame_data c ! unat (write_pos (header c) mod m_ring_buffer_size (grabber c)))]"
    and "write_pos (header c') =
           (write_pos (header c) + 1) mod (m_ring_buffer_size (grabber c) * 2)"
proof -
  obtain v ms where s: "GrabFrame_size K E (emit ms (c\<lparr>grabber := (grabber c)\<lparr>m_gl_version := v\<rparr>\<rparr>))
      = (Published, c')"
    and ms: "ms = [] \<or> ms = [Message ''OpenGL version'']"
    using GrabFrame_Inr [OF assms] by blast
  let ?c1 = "emit ms (c\<lparr>grabber := (grabber c)\<lparr>m_gl_version := v\<rparr>\<rparr>)"
  note P = GrabFrame_size_published_memory [OF s]
  from P(2) show "frameinfos c' =
           (frameinfos c)[unat (write_pos (header c) mod m_ring_buffer_size (grabber c)) :=
              published_descriptor K E (grabber c)
                (frameinfos c ! unat (write_pos (header c) mod m_ring_buffer_size (grabber c)))]"
    by simp
  from P(3) show "frame_data c' =
           (frame_data c)[unat (write_pos (header c) mod m_ring_buffer_size (grabber c)) :=
              published_payload K E (grabber c)
                (frame_data c ! unat (write_pos (header c) mod m_ring_buffer_size (grabber c)))]"
    by simp
  from P(4) show "write_pos (header c') =
           (write_pos (header c) + 1) mod (m_ring_buffer_size (grabber c) * 2)"
    by simp
  obtain pre post where
    tr: "trace c' = trace ?c1 @ pre @ Store_write_pos (write_pos (header c')) # post"
    and post: "\<forall>e \<in> set post. \<exists>a. e = Warning (OpenGL_error a)"
    and mem: "stores pre (shared_memory ?c1) =
             (shared_memory c')\<lparr>mem_header := (header c')\<lparr>write_pos := write_pos (header ?c1)\<rparr>\<rparr>"
    using P(1) by blast
  have sm: "stores ms mem = mem" for mem
    using ms by auto
  have "drop (length (trace c)) (trace c') =
          (ms @ pre) @ Store_write_pos (write_pos (header c')) # post"
    using tr by simp
  moreover have "stores (ms @ pre) (shared_memory c) =
             (shared_memory c')\<lparr>mem_header := (header c')\<lparr>write_pos := write_pos (header c)\<rparr>\<rparr>"
    using mem by (simp add: sm)
  ultimately show "\<exists>pre post.
           drop (length (trace c)) (trace c') = pre @ Store_write_pos (write_pos (header c')) # post \<and>
           (\<forall>e \<in> set post. \<exists>a. e = Warning (OpenGL_error a)) \<and>
           stores pre (shared_memory c) =
             (shared_memory c')\<lparr>mem_header := (header c')\<lparr>write_pos := write_pos (header c)\<rparr>\<rparr>"
    using post by blast
qed

text \<open>
  Claim C2. A call of \<open>GrabFrame\<close> that reaches the check of the ring buffer, with
  the ring size in 1..1000 and both cursors below twice the ring size: if
  \<open>(write_pos - read_pos) mod (2 * ring_buffer_size)\<close> is at least the ring size, the
  call returns with \<open>write_pos\<close>, every descriptor and every payload unchanged and
  without any warning. If the frame is published, the ring was not full and
  \<open>write_pos\<close> becomes \<open>(write_pos + 1) mod (2 * ring_buffer_size)\<close>. The slot
  \<open>write_pos mod ring_buffer_size\<close> then holds the descriptor (time of the capture,
  width, height) and the payload (the pixels read, with the cursor if it is recorded)
  of this frame, and no other slot has changed. The stores of the call, applied in
  program order, turn the shared memory before the call into the shared memory after
  it; the store to \<open>write_pos\<close> is the last of them, and the memory right before that
  store is already the memory after the call except for \<open>write_pos\<close>, which still has
  its old value: \<open>write_pos\<close> is advanced only after the descriptor and the payload
  are filled. The producer never touches \<open>read_pos\<close>, and a number of unread frames
  in \<open>[0, ring_buffer_size]\<close> stays there.
\<close>

theorem ring_buffer_producer_step:
  assumes step: "GrabFrame K E c = Inr (r, c')"
    and reached: "r \<noteq> TooSmall" "r \<noteq> TooLarge"
    and size: "0 < m_ring_buffer_size (grabber c)" "m_ring_buffer_size (grabber c) \<le> 1000"
    and range: "write_pos (header c) < 2 * m_ring_buffer_size (grabber c)"
      "read_pos (header c) < 2 * m_ring_buffer_size (grabber c)"
  shows "(uint (m_ring_buffer_size (grabber c)) \<le>
            (uint (write_pos (header c)) - uint (read_pos (header c)))
              mod (2 * uint (m_ring_buffer_size (grabber c))) \<longrightarrow>
            r = RingFull \<and>
            write_pos (header c') = write_pos (header c) \<and> frameinfos c' = frameinfos c \<and>
            frame_data c' = frame_data c \<and>
            (\<forall>w. Warning w \<notin> set (drop (length (trace c)) (trace c'))))
       \<and> (r = Published \<longrightarrow>
            (uint (write_pos (header c)) - uint (read_pos (header c)))
              mod (2 * uint (m_ring_buffer_size (grabber c)))
              < uint (m_ring_buffer_size (grabber c)) \<and>
            uint (write_pos (header c')) =
              (uint (write_pos (header c)) + 1) mod (2 * uint (m_ring_buffer_size (grabber c))) \<and>
            frameinfos c' =
              (frameinfos c)[unat (write_pos (header c) mod m_ring_buffer_size (grabber c)) :=
                 published_descriptor K E (grabber c)
                   (frameinfos c ! unat (write_pos (header c) mod m_ring_buffer_size (grabber c)))] \<and>
            frame_data c' =
              (frame_data c)[unat (write_pos (header c) mod m_ring_buffer_size (grabber c)) :=
                 published_payload K E (grabber c)
                   (frame_data c ! unat (write_pos (header c) mod m_ring_buffer_size (grabber c)))] \<and>
            (\<exists>pre post. drop (length (trace c)) (trace c') =
                 pre @ Store_write_pos (write_pos (header c')) # post \<and>
               (\<forall>e \<in> set post. \<exists>a. e = Warning (OpenGL_error a)) \<and>
               stores pre (shared_memory c) =
                 (shared_memory c')\<lparr>mem_header := (header c')\<lparr>write_pos := write_pos (header c)\<rparr>\<rparr>))
       \<and> shared_memory c' = stores (drop (length (trace c)) (trace c')) (shared_memory c)
       \<and> read_pos (header c') = read_pos (header c)
       \<and> m_ring_buffer_size (grabber c') = m_ring_buffer_size (grabber c)
       \<and> 0 \<le> (uint (write_pos (header c')) - uint (read_pos (header c')))
                 mod (2 * uint (m_ring_buffer_size (grabber c')))
       \<and> ((uint (write_pos (header c)) - uint (read_pos (header c)))
              mod (2 * uint (m_ring_buffer_size (grabber c)))
            \<le> uint (m_ring_buffer_size (grabber c)) \<longrightarrow>
          (uint (write_pos (header c')) - uint (read_pos (header c')))
              mod (2 * uint (m_ring_buffer_size (grabber c')))
            \<le> uint (m_ring_buffer_size (grabber c')))"
proof -
  let ?n = "uint (m_ring_buffer_size (grabber c))"
  let ?fr = "(uint (write_pos (header c)) - uint (read_pos (header c))) mod (2 * ?n)"
  let ?cf = "unat (write_pos (header c) mod m_ring_buffer_size (grabber c))"
  have n: "0 < ?n" using size(1) by (simp add: word_less_def)
  note rf = GrabFrame_ring_full [OF step size range]
  note res = GrabFrame_result [OF step]
  have ok: "\<not> too_small E" "\<not> too_large E c"
    using res reached by auto
  have rp: "read_pos (header c') = read_pos (header c)"
    using GrabFrame_header(4) [OF step] .
  have rb: "m_ring_buffer_size (grabber c') = m_ring_buffer_size (grabber c)"
  proof -
    obtain v ms where s: "GrabFrame_size K E (emit ms (c\<lparr>grabber := (grabber c)\<lparr>m_gl_version := v\<rparr>\<rparr>))
        = (r, c')"
      using GrabFrame_Inr [OF step] by blast
    from GrabFrame_size_grabber(1) [OF s] show ?thesis by simp
  qed
  have A: "?n \<le> ?fr \<longrightarrow>
            r = RingFull \<and>
            write_pos (header c') = write_pos (header c) \<and> frameinfos c' = frameinfos c \<and>
            frame_data c' = frame_data c \<and>
            (\<forall>w. Warning w \<notin> set (drop (length (trace c)) (trace c')))"
  proof
    assume full: "?n \<le> ?fr"
    then have r: "r = RingFull" using rf(1) ok by simp
    then have "r \<noteq> Published" by simp
    from GrabFrame_dropped [OF step this] rf(2) [OF r] r
    show "r = RingFull \<and>
            write_pos (header c') = write_pos (header c) \<and> frameinfos c' = frameinfos c \<and>
            frame_data c' = frame_data c \<and>
            (\<forall>w. Warning w \<notin> set (drop (length (trace c)) (trace c')))"
      by simp
  qed
  have wp': "uint (write_pos (header c')) = (uint (write_pos (header c)) + 1) mod (2 * ?n)"
    if "r = Published"
  proof -
    have "write_pos (header c') =
           (write_pos (header c) + 1) mod (m_ring_buffer_size (grabber c) * 2)"
      using GrabFrame_published_memory(4) [of K E c c'] step that by simp
    then show ?thesis
      using uint_succ_mod [OF size range(1)] by simp
  qed
  have notfull: "?fr < ?n" if "r = Published"
    using rf(1) ok that by auto
  have B: "r = Published \<longrightarrow>
            ?fr < ?n \<and>
            uint (write_pos (header c')) = (uint (write_pos (header c)) + 1) mod (2 * ?n) \<and>
            frameinfos c' =
              (frameinfos c)[?cf := published_descriptor K E (grabber c) (frameinfos c ! ?cf)] \<and>
            frame_data c' =
              (frame_data c)[?cf := published_payload K E (grabber c) (frame_data c ! ?cf)] \<and>
            (\<exists>pre post. drop (length (trace c)) (trace c') =
                 pre @ Store_write_pos (write_pos (header c')) # post \<and>
               (\<forall>e \<in> set post. \<exists>a. e = Warning (OpenGL_error a)) \<and>
               stores pre (shared_memory c) =
                 (shared_memory c')\<lparr>mem_header := (header c')\<lparr>write_pos := write_pos (header c)\<rparr>\<rparr>)"
  proof
    assume p: "r = Published"
    then have g: "GrabFrame K E c = Inr (Published, c')" using step by simp
    from wp' [OF p] notfull [OF p] GrabFrame_published_memory(1,2,3) [OF g]
    show "?fr < ?n \<and>
            uint (write_pos (header c')) = (uint (write_pos (header c)) + 1) mod (2 * ?n) \<and>
            frameinfos c' =
              (frameinfos c)[?cf := published_descriptor K E (grabber c) (frameinfos c ! ?cf)] \<and>
            frame_data c' =
              (frame_data c)[?cf := published_payload K E (grabber c) (frame_data c ! ?cf)] \<and>
            (\<exists>pre post. drop (length (trace c)) (trace c') =
                 pre @ Store_write_pos (write_pos (header c')) # post \<and>
               (\<forall>e \<in> set post. \<exists>a. e = Warning (OpenGL_error a)) \<and>
               stores pre (shared_memory c) =
                 (shared_memory c')\<lparr>mem_header := (header c')\<lparr>write_pos := write_pos (header c)\<rparr>\<rparr>)"
      by blast
  qed
  have M: "shared_memory c' = stores (drop (length (trace c)) (trace c')) (shared_memory c)"
    using GrabFrame_memory [OF step] .
  have C: "0 \<le> (uint (write_pos (header c')) - uint (read_pos (header c')))
                 mod (2 * uint (m_ring_buffer_size (grabber c')))"
    using n by (simp add: rb)
  have D: "?fr \<le> ?n \<longrightarrow>
          (uint (write_pos (header c')) - uint (read_pos (header c')))
              mod (2 * uint (m_ring_buffer_size (grabber c'))) \<le> uint (m_ring_buffer_size (grabber c'))"
  proof (cases "r = Published")
    case True
    have "((uint (write_pos (header c)) + 1) mod (2 * ?n) - uint (read_pos (header c))) mod (2 * ?n)
          = ?fr + 1"
      using ring_step [OF n notfull [OF True]] .
    then show ?thesis
      using wp' [OF True] notfull [OF True] by (simp add: rp rb)
  next
    case False
    from GrabFrame_dropped(1) [OF step False] show ?thesis
      by (simp add: rp rb)
  qed
  from A B M rp rb C D show ?thesis by blast
qed

lemma no_usleep_gl_warnings [simp]: "Usleep d \<notin> set (gl_warnings E codes)"
  by (auto simp: gl_warnings_def)

lemma no_usleep_capture [simp]: "Usleep d \<notin> set (capture_effects K E t wr_pos stride c)"
  by (simp add: capture_effects_def capture_fill_def)

lemma no_usleep_saved:
  "trace (size_saved E c) = trace c @ new \<Longrightarrow> Usleep d \<notin> set new"
  by (auto simp: size_saved_trace split: if_splits)

lemma uint_delay: "uint (1000000 div fps :: uint32) = 1000000 div uint fps"
  by (simp add: uint_div)

lemma GrabFrame_size_reached:
  assumes "GrabFrame_size K E c = (r, c')" "r = TooEarly \<or> r = Published"
  shows "GrabFrame_timestamp K E (write_pos (header c)) (grow_align16 (fst (XGetGeometry E) * 4))
             (size_saved E c) = (r, c')"
  using assms by (auto simp: GrabFrame_size_unfold split: if_splits)

text \<open>
  Claim C3, amended. A call of \<open>GrabFrame\<close> with \<open>target_fps > 0\<close> that reaches the
  pacing, with \<open>delay = 1000000 / target_fps\<close> (integer division): with \<open>LIMIT_FPS\<close>
  set, an early call sleeps for \<open>next_frame_time - now\<close> and reads the clock again;
  with \<open>LIMIT_FPS\<close> clear an early call drops the frame and leaves
  \<open>next_frame_time\<close> as it is. Every call that is not dropped as early publishes and
  sets \<open>next_frame_time\<close> to \<open>max(next_frame_time + delay, now)\<close>, \<open>now\<close> being the
  last reading of the clock.
\<close>

theorem pacing_step:
  assumes step: "GrabFrame K E c = Inr (r, c')"
    and reached: "r = TooEarly \<or> r = Published"
    and fps: "0 < m_target_fps (grabber c)"
  shows "(m_flags (grabber c) AND GLINJECT_FLAG_LIMIT_FPS K \<noteq> 0 \<and>
          hrt_time_micro E < m_next_frame_time (grabber c) \<longrightarrow>
            r = Published \<and>
            Usleep ((m_next_frame_time (grabber c) - hrt_time_micro E) mod 2 ^ 32)
              \<in> set (drop (length (trace c)) (trace c')) \<and>
            m_next_frame_time (grabber c') =
              max (m_next_frame_time (grabber c) + 1000000 div uint (m_target_fps (grabber c)))
                  (hrt_time_micro_after_usleep E))
       \<and> (m_flags (grabber c) AND GLINJECT_FLAG_LIMIT_FPS K \<noteq> 0 \<and>
          \<not> hrt_time_micro E < m_next_frame_time (grabber c) \<longrightarrow>
            r = Published \<and>
            (\<forall>d. Usleep d \<notin> set (drop (length (trace c)) (trace c'))) \<and>
            m_next_frame_time (grabber c') =
              max (m_next_frame_time (grabber c) + 1000000 div uint (m_target_fps (grabber c)))
                  (hrt_time_micro E))
       \<and> (m_flags (grabber c) AND GLINJECT_FLAG_LIMIT_FPS K = 0 \<and>
          hrt_time_micro E < m_next_frame_time (grabber c) \<longrightarrow>
            r = TooEarly \<and>
            (\<forall>d. Usleep d \<notin> set (drop (length (trace c)) (trace c'))) \<and>
            m_next_frame_time (grabber c') = m_next_frame_time (grabber c))
       \<and> (m_flags (grabber c) AND GLINJECT_FLAG_LIMIT_FPS K = 0 \<and>
          \<not> hrt_time_micro E < m_next_frame_time (grabber c) \<longrightarrow>
            r = Published \<and>
            (\<forall>d. Usleep d \<notin> set (drop (length (trace c)) (trace c'))) \<and>
            m_next_frame_time (grabber c') =
              max (m_next_frame_time (grabber c) + 1000000 div uint (m_target_fps (grabber c)))
                  (hrt_time_micro E))"
proof -
  obtain v ms where s: "GrabFrame_size K E (emit ms (c\<lparr>grabber := (grabber c)\<lparr>m_gl_version := v\<rparr>\<rparr>))
      = (r, c')" and ms: "ms = [] \<or> ms = [Message ''OpenGL version'']"
    using GrabFrame_Inr [OF step] by blast
  let ?c1 = "emit ms (c\<lparr>grabber := (grabber c)\<lparr>m_gl_version := v\<rparr>\<rparr>)"
  let ?c3 = "size_saved E ?c1"
  let ?next = "m_next_frame_time (grabber c)"
  let ?now = "hrt_time_micro E"
  let ?delay = "1000000 div uint (m_target_fps (grabber c))"
  let ?limit = "m_flags (grabber c) AND GLINJECT_FLAG_LIMIT_FPS K \<noteq> 0"
  have t: "GrabFrame_timestamp K E (write_pos (header ?c1)) (grow_align16 (fst (XGetGeometry E) * 4))
             ?c3 = (r, c')"
    using GrabFrame_size_reached [OF s reached] .
  obtain sz where sz: "trace ?c3 = trace ?c1 @ sz"
    by (simp add: size_saved_trace)
  have nsz: "\<And>d. Usleep d \<notin> set sz" using no_usleep_saved [OF sz] .
  have nms: "\<And>d. Usleep d \<notin> set ms" using ms by auto
  have tr3: "trace ?c3 = trace c @ ms @ sz" using sz by simp
  have g3: "m_target_fps (grabber ?c3) = m_target_fps (grabber c)"
    "m_flags (grabber ?c3) = m_flags (grabber c)"
    "m_next_frame_time (grabber ?c3) = m_next_frame_time (grabber c)"
    by (simp_all add: size_saved_fields)
  have A: "?limit \<and> ?now < ?next \<longrightarrow>
            r = Published \<and>
            Usleep ((?next - ?now) mod 2 ^ 32) \<in> set (drop (length (trace c)) (trace c')) \<and>
            m_next_frame_time (grabber c') = max (?next + ?delay) (hrt_time_micro_after_usleep E)"
    using t fps
    by (auto simp: GrabFrame_timestamp_def Let_def g3 capture_grabber capture_trace tr3 uint_delay)
  have B: "?limit \<and> \<not> ?now < ?next \<longrightarrow>
            r = Published \<and>
            (\<forall>d. Usleep d \<notin> set (drop (length (trace c)) (trace c'))) \<and>
            m_next_frame_time (grabber c') = max (?next + ?delay) ?now"
    using t fps nsz nms
    by (auto simp: GrabFrame_timestamp_def Let_def g3 capture_grabber capture_trace tr3 uint_delay)
  have C: "\<not> ?limit \<and> ?now < ?next \<longrightarrow>
            r = TooEarly \<and>
            (\<forall>d. Usleep d \<notin> set (drop (length (trace c)) (trace c'))) \<and>
            m_next_frame_time (grabber c') = ?next"
    using t fps nsz nms
    by (auto simp: GrabFrame_timestamp_def Let_def g3 tr3)
  have D: "\<not> ?limit \<and> \<not> ?now < ?next \<longrightarrow>
            r = Published \<and>
            (\<forall>d. Usleep d \<notin> set (drop (length (trace c)) (trace c'))) \<and>
            m_next_frame_time (grabber c') = max (?next + ?delay) ?now"
    using t fps nsz nms
    by (auto simp: GrabFrame_timestamp_def Let_def g3 capture_grabber capture_trace tr3 uint_delay)
  from A B C D show ?thesis by simp
qed

lemmas grab_eval =
  GrabFrame_def GetGLVersion_def strspn_def char_at_def Let_def GrabFrame_size_unfold too_small_def
  too_large_def frames_ready_def positive_mod_def size_saved_def GrabFrame_timestamp_def
  grow_align16_def example_env_fields example_capture_def example_grabber_def example_header_def
  example_consts_def example_capture_limit_def example_capture_full_def result_of_def capture_of_def
  capture_grabber capture_header word_le_def word_less_def

lemma result_of_Inr: "result_of (Inr (r, c)) = Some r"
  by (simp add: result_of_def)

text \<open>
  Claim C3 as stated ("in both cases (frame published or dropped as early)
  next_frame_time is advanced") fails: with \<open>LIMIT_FPS\<close> clear, 30 frames per second,
  \<open>next_frame_time = 1000\<close> and the clock at 500, the frame is dropped as early and
  \<open>next_frame_time\<close> is still 1000, not \<open>max(1000 + 33333, 500)\<close>.
\<close>

theorem early_frame_keeps_next_frame_time:
  "result_of (GrabFrame example_consts (example_env (Some ''2.1 Mesa 10.1'') 500 (4, 4))
                example_capture) = Some TooEarly
   \<and> m_next_frame_time (grabber (capture_of
         (GrabFrame example_consts (example_env (Some ''2.1 Mesa 10.1'') 500 (4, 4))
            example_capture))) = 1000
   \<and> m_next_frame_time (grabber example_capture) = 1000
   \<and> hrt_time_micro (example_env (Some ''2.1 Mesa 10.1'') 500 (4, 4)) = 500
   \<and> m_flags (grabber example_capture) AND GLINJECT_FLAG_LIMIT_FPS example_consts = 0
   \<and> max (m_next_frame_time (grabber example_capture)
            + 1000000 div uint (m_target_fps (grabber example_capture)))
          (hrt_time_micro (example_env (Some ''2.1 Mesa 10.1'') 500 (4, 4))) = 34333"
  by (simp add: grab_eval)

theorem pacing_step_witness:
  "\<exists>c'. GrabFrame example_consts (example_env (Some ''2.1 Mesa 10.1'') 500 (4, 4))
           example_capture_limit = Inr (Published, c')
       \<and> Usleep 500 \<in> set (trace c')
       \<and> m_next_frame_time (grabber c') = 34333"
proof -
  let ?E = "example_env (Some ''2.1 Mesa 10.1'') 500 (4, 4)"
  obtain r c' where g: "GrabFrame example_consts ?E example_capture_limit = Inr (r, c')"
    using GrabFrame_returns [OF example_env_fields(1)] by blast
  have "result_of (GrabFrame example_consts ?E example_capture_limit) = Some Published"
    by (simp add: grab_eval)
  then have r: "r = Published" using g by (simp add: result_of_Inr)
  have f: "0 < m_target_fps (grabber example_capture_limit)"
    "m_flags (grabber example_capture_limit) AND GLINJECT_FLAG_LIMIT_FPS example_consts \<noteq> 0"
    "hrt_time_micro ?E = 500" "hrt_time_micro_after_usleep ?E = 1000"
    "m_next_frame_time (grabber example_capture_limit) = 1000"
    "uint (m_target_fps (grabber example_capture_limit)) = 30"
    "trace example_capture_limit = []"
    by (simp_all add: grab_eval example_env_def)
  have reached: "r = TooEarly \<or> r = Published" using r by simp
  from pacing_step [OF g reached f(1)] f g r show ?thesis by simp
qed

theorem ring_buffer_producer_step_witness:
  "(\<exists>c'. GrabFrame example_consts (example_env (Some ''2.1 Mesa 10.1'') 2000 (4, 4))
            example_capture = Inr (Published, c')
        \<and> uint (write_pos (header example_capture)) = 1
        \<and> uint (write_pos (header c')) = 2 \<and> uint (read_pos (header c')) = 0
        \<and> frameinfos c' =
              [\<lparr>shm_id = 11, timestamp = 0, width = 0, height = 0\<rparr>,
               \<lparr>shm_id = 12, timestamp = 2000, width = 4, height = 4\<rparr>]
        \<and> frame_data c' = [\<lambda>_. 0, \<lambda>_. 255])
   \<and> (\<exists>c'. GrabFrame example_consts (example_env (Some ''2.1 Mesa 10.1'') 2000 (4, 4))
            example_capture_full = Inr (RingFull, c')
        \<and> uint (write_pos (header c')) = 2 \<and> uint (read_pos (header c')) = 0
        \<and> frame_data c' = frame_data example_capture_full)"
proof -
  let ?E = "example_env (Some ''2.1 Mesa 10.1'') 2000 (4, 4)"
  obtain r c' where g: "GrabFrame example_consts ?E example_capture = Inr (r, c')"
    using GrabFrame_returns [OF example_env_fields(1)] by blast
  have "result_of (GrabFrame example_consts ?E example_capture) = Some Published"
    by (simp add: grab_eval)
  then have r: "r = Published" using g by (simp add: result_of_Inr)
  have f: "0 < m_ring_buffer_size (grabber example_capture)"
    "m_ring_buffer_size (grabber example_capture) \<le> 1000"
    "write_pos (header example_capture) < 2 * m_ring_buffer_size (grabber example_capture)"
    "read_pos (header example_capture) < 2 * m_ring_buffer_size (grabber example_capture)"
    by (simp_all add: grab_eval)
  have v: "uint (write_pos (header example_capture)) = 1" "uint (read_pos (header example_capture)) = 0"
    "uint (m_ring_buffer_size (grabber example_capture)) = 2"
    "read_pos (header example_capture) = 0"
    by (simp_all add: grab_eval)
  have ne: "r \<noteq> TooSmall" "r \<noteq> TooLarge" using r by simp_all
  have slot: "unat (write_pos (header example_capture) mod m_ring_buffer_size (grabber example_capture))
      = Suc 0"
    by (simp add: example_capture_def example_grabber_def example_header_def)
  have old: "frameinfos example_capture =
       [\<lparr>shm_id = 11, timestamp = 0, width = 0, height = 0\<rparr>,
        \<lparr>shm_id = 12, timestamp = 0, width = 0, height = 0\<rparr>]"
    "frame_data example_capture = [\<lambda>_. 0, \<lambda>_. 0]"
    by (simp_all add: example_capture_def)
  have d: "published_descriptor example_consts ?E (grabber example_capture)
             \<lparr>shm_id = 12, timestamp = 0, width = 0, height = 0\<rparr> =
           \<lparr>shm_id = 12, timestamp = 2000, width = 4, height = 4\<rparr>"
    by (simp add: published_descriptor_def capture_time_def example_env_fields example_capture_def
          example_grabber_def example_consts_def)
  have p: "published_payload example_consts ?E (grabber example_capture) (\<lambda>_. 0) = (\<lambda>_. 255)"
    by (simp add: published_payload_def Let_def example_env_def example_capture_def
          example_grabber_def example_consts_def)
  from ring_buffer_producer_step [OF g ne f] r v g
  have 1: "\<exists>c'. GrabFrame example_consts ?E example_capture = Inr (Published, c')
        \<and> uint (write_pos (header example_capture)) = 1
        \<and> uint (write_pos (header c')) = 2 \<and> uint (read_pos (header c')) = 0
        \<and> frameinfos c' =
              [\<lparr>shm_id = 11, timestamp = 0, width = 0, height = 0\<rparr>,
               \<lparr>shm_id = 12, timestamp = 2000, width = 4, height = 4\<rparr>]
        \<and> frame_data c' = [\<lambda>_. 0, \<lambda>_. 255]"
    by (simp add: slot old d p)
  obtain r2 c2 where g2: "GrabFrame example_consts ?E example_capture_full = Inr (r2, c2)"
    using GrabFrame_returns [OF example_env_fields(1)] by blast
  have "result_of (GrabFrame example_consts ?E example_capture_full) = Some RingFull"
    by (simp add: grab_eval)
  then have r2: "r2 = RingFull" using g2 by (simp add: result_of_Inr)
  have f2: "0 < m_ring_buffer_size (grabber example_capture_full)"
    "m_ring_buffer_size (grabber example_capture_full) \<le> 1000"
    "write_pos (header example_capture_full) < 2 * m_ring_buffer_size (grabber example_capture_full)"
    "read_pos (header example_capture_full) < 2 * m_ring_buffer_size (grabber example_capture_full)"
    by (simp_all add: grab_eval)
  have v2: "uint (write_pos (header example_capture_full)) = 2"
    "uint (read_pos (header example_capture_full)) = 0"
    "uint (m_ring_buffer_size (grabber example_capture_full)) = 2"
    "read_pos (header example_capture_full) = 0" "write_pos (header example_capture_full) = 2"
    by (simp_all add: grab_eval)
  have ne2: "r2 \<noteq> TooSmall" "r2 \<noteq> TooLarge" using r2 by simp_all
  from ring_buffer_producer_step [OF g2 ne2 f2] r2 v2 g2
  have 2: "\<exists>c'. GrabFrame example_consts ?E example_capture_full = Inr (RingFull, c')
        \<and> uint (write_pos (header c')) = 2 \<and> uint (read_pos (header c')) = 0
        \<and> frame_data c' = frame_data example_capture_full"
    by simp
  from 1 2 show ?thesis by blast
qed

section \<open>Properties of the constructor and the destructor\<close>

lemma attach_frames_ok:
  "\<forall>j. i \<le> j \<and> j < unat n \<longrightarrow>
        shm_attachable E (shm_id (segment_frameinfo E m j)) \<and>
        shmsize E (shm_id (segment_frameinfo E m j)) = unat mb \<Longrightarrow>
   attach_frames K E m n mb i (ptrs, tr) =
     Inr (ptrs @ map (\<lambda>j. Some (shm_id (segment_frameinfo E m j))) [i..<unat n],
          tr @ map (\<lambda>j. Shm_attach (shm_id (segment_frameinfo E m j))) [i..<unat n])"
proof (induction K E m n mb i "(ptrs, tr)" arbitrary: ptrs tr rule: attach_frames.induct)
  case (1 K E m n mb i ptrs tr)
  show ?case
  proof (cases "i < unat n")
    case False
    then show ?thesis by (simp add: attach_frames.simps [of K E m n mb i])
  next
    case True
    have ok: "shm_attachable E (shm_id (segment_frameinfo E m i))"
             "shmsize E (shm_id (segment_frameinfo E m i)) = unat mb"
      using "1.prems" True by auto
    have rest: "\<forall>j. Suc i \<le> j \<and> j < unat n \<longrightarrow>
        shm_attachable E (shm_id (segment_frameinfo E m j)) \<and>
        shmsize E (shm_id (segment_frameinfo E m j)) = unat mb"
      using "1.prems" by auto
    have IH: "attach_frames K E m n mb (Suc i)
                (ptrs @ [Some (shm_id (segment_frameinfo E m i))],
                 tr @ [Shm_attach (shm_id (segment_frameinfo E m i))]) =
              Inr ((ptrs @ [Some (shm_id (segment_frameinfo E m i))]) @
                     map (\<lambda>j. Some (shm_id (segment_frameinfo E m j))) [Suc i..<unat n],
                   (tr @ [Shm_attach (shm_id (segment_frameinfo E m i))]) @
                     map (\<lambda>j. Shm_attach (shm_id (segment_frameinfo E m j))) [Suc i..<unat n])"
      by (rule "1.hyps" [OF True refl refl _ _ refl refl _ rest])
         (simp_all add: ok shmat_def)
    show ?thesis
      using True ok IH
      by (simp add: attach_frames.simps [of K E m n mb i] shmat_def upt_conv_Cons Let_def)
  qed
qed

lemma attach_frames_fail:
  "\<exists>j. i \<le> j \<and> j < unat n \<and>
        \<not> (shm_attachable E (shm_id (segment_frameinfo E m j)) \<and>
           shmsize E (shm_id (segment_frameinfo E m j)) = unat mb) \<Longrightarrow>
   \<exists>p t. attach_frames K E m n mb i (ptrs, tr) = Inl (p, t)"
proof (induction K E m n mb i "(ptrs, tr)" arbitrary: ptrs tr rule: attach_frames.induct)
  case (1 K E m n mb i ptrs tr)
  from "1.prems" obtain j where j: "i \<le> j" "j < unat n"
     "\<not> (shm_attachable E (shm_id (segment_frameinfo E m j)) \<and>
         shmsize E (shm_id (segment_frameinfo E m j)) = unat mb)" by blast
  then have True: "i < unat n" by simp
  show ?case
  proof (cases "shm_attachable E (shm_id (segment_frameinfo E m i)) \<and>
                shmsize E (shm_id (segment_frameinfo E m i)) = unat mb")
    case False
    then show ?thesis using True
      by (auto simp add: attach_frames.simps [of K E m n mb i] shmat_def Let_def)
  next
    case ok: True
    then have "j \<noteq> i" using j(3) by auto
    then have rest: "\<exists>j. Suc i \<le> j \<and> j < unat n \<and>
        \<not> (shm_attachable E (shm_id (segment_frameinfo E m j)) \<and>
           shmsize E (shm_id (segment_frameinfo E m j)) = unat mb)"
      using j by (intro exI [of _ j]) auto
    have IH: "\<exists>p t. attach_frames K E m n mb (Suc i)
                (ptrs @ [Some (shm_id (segment_frameinfo E m i))],
                 tr @ [Shm_attach (shm_id (segment_frameinfo E m i))]) = Inl (p, t)"
      by (rule "1.hyps" [OF True refl refl _ _ refl refl _ rest])
         (simp_all add: ok shmat_def)
    show ?thesis
      using True ok IH
      by (simp add: attach_frames.simps [of K E m n mb i] shmat_def Let_def)
  qed
qed

lemma word_one_le: "(1 \<le> (x :: uint32)) = (x \<noteq> 0)"
  using word_less_1 [of x] by (simp add: linorder_not_less [symmetric] del: word_less_1)

lemma new_no_env:
  "getenv_SSR_GLINJECT_SHM E = None \<Longrightarrow>
   \<exists>tr. GLFrameGrabber_new K E = Inl (EXIT_STATUS, tr)"
  by (simp add: GLFrameGrabber_new_def)

lemma new_status:
  "GLFrameGrabber_new K E = Inl (st, tr) \<Longrightarrow> st = EXIT_STATUS"
  by (auto simp add: GLFrameGrabber_new_def Let_def
           split: option.splits if_splits sum.splits prod.splits)

lemma new_fail:
  assumes env: "getenv_SSR_GLINJECT_SHM E = Some s"
    and bad: "\<not> (shm_attachable E (atoi s) \<and>
         1 \<le> ring_buffer_size (segment_header E (atoi s)) \<and>
         ring_buffer_size (segment_header E (atoi s)) \<le> 1000 \<and>
         max_bytes (segment_header E (atoi s)) \<le> 1024 * 1024 * 1024 \<and>
         shmsize E (atoi s) =
           sizeof_GLInjectHeader K
             + unat (ring_buffer_size (segment_header E (atoi s))) * sizeof_GLInjectFrameInfo K \<and>
         (\<forall>i \<in> {..<unat (ring_buffer_size (segment_header E (atoi s)))}.
            shm_attachable E (shm_id (segment_frameinfo E (atoi s) i)) \<and>
            shmsize E (shm_id (segment_frameinfo E (atoi s) i)) =
              unat (max_bytes (segment_header E (atoi s)))))"
  shows "\<exists>tr. GLFrameGrabber_new K E = Inl (EXIT_STATUS, tr)"
proof (cases "\<forall>i \<in> {..<unat (ring_buffer_size (segment_header E (atoi s)))}.
            shm_attachable E (shm_id (segment_frameinfo E (atoi s) i)) \<and>
            shmsize E (shm_id (segment_frameinfo E (atoi s) i)) =
              unat (max_bytes (segment_header E (atoi s)))")
  case True
  with bad env show ?thesis
    by (auto simp add: GLFrameGrabber_new_def Let_def shmat_def word_one_le linorder_not_le
                       mult.commute
             split: sum.splits prod.splits)
next
  case False
  then have "\<exists>j. 0 \<le> j \<and> j < unat (ring_buffer_size (segment_header E (atoi s))) \<and>
        \<not> (shm_attachable E (shm_id (segment_frameinfo E (atoi s) j)) \<and>
           shmsize E (shm_id (segment_frameinfo E (atoi s) j)) =
             unat (max_bytes (segment_header E (atoi s))))"
    by auto
  from attach_frames_fail [OF this]
  have loop: "\<And>ptrs tr. \<exists>p t. attach_frames K E (atoi s)
                 (ring_buffer_size (segment_header E (atoi s)))
                 (max_bytes (segment_header E (atoi s))) 0 (ptrs, tr) = Inl (p, t)" .
  have loop': "\<And>ptrs tr a b. attach_frames K E (atoi s)
                 (ring_buffer_size (segment_header E (atoi s)))
                 (max_bytes (segment_header E (atoi s))) 0 (ptrs, tr) \<noteq> Inr (a, b)"
  proof -
    fix ptrs tr a b
    from loop [of ptrs tr] show "attach_frames K E (atoi s)
                 (ring_buffer_size (segment_header E (atoi s)))
                 (max_bytes (segment_header E (atoi s))) 0 (ptrs, tr) \<noteq> Inr (a, b)"
      by auto
  qed
  show ?thesis
    using env
    by (auto simp add: GLFrameGrabber_new_def Let_def loop' split: sum.splits prod.splits)
qed

lemma new_ok:
  assumes env: "getenv_SSR_GLINJECT_SHM E = Some s"
    and good: "shm_attachable E (atoi s)"
         "1 \<le> ring_buffer_size (segment_header E (atoi s))"
         "ring_buffer_size (segment_header E (atoi s)) \<le> 1000"
         "max_bytes (segment_header E (atoi s)) \<le> 1024 * 1024 * 1024"
         "shmsize E (atoi s) =
           sizeof_GLInjectHeader K
             + unat (ring_buffer_size (segment_header E (atoi s))) * sizeof_GLInjectFrameInfo K"
         "\<forall>i \<in> {..<unat (ring_buffer_size (segment_header E (atoi s)))}.
            shm_attachable E (shm_id (segment_frameinfo E (atoi s) i)) \<and>
            shmsize E (shm_id (segment_frameinfo E (atoi s) i)) =
              unat (max_bytes (segment_header E (atoi s)))"
  shows "\<exists>g tr0 tr1. GLFrameGrabber_new K E =
           Inr (g, tr0 @ Shm_attach (atoi s) #
                   map (\<lambda>j. Shm_attach (shm_id (segment_frameinfo E (atoi s) j)))
                     [0..<unat (ring_buffer_size (segment_header E (atoi s)))] @ tr1) \<and>
           shm_events tr0 = [] \<and> shm_events tr1 = [] \<and>
           m_shm_main_ptr g = Some (atoi s) \<and>
           m_shm_frame_ptrs g =
             map (\<lambda>j. Some (shm_id (segment_frameinfo E (atoi s) j)))
               [0..<unat (ring_buffer_size (segment_header E (atoi s)))] \<and>
           m_ring_buffer_size g = ring_buffer_size (segment_header E (atoi s)) \<and>
           m_max_bytes g = max_bytes (segment_header E (atoi s)) \<and>
           m_warn_too_small g \<and> m_warn_too_large g"
proof -
  have "\<forall>j. 0 \<le> j \<and> j < unat (ring_buffer_size (segment_header E (atoi s))) \<longrightarrow>
        shm_attachable E (shm_id (segment_frameinfo E (atoi s) j)) \<and>
        shmsize E (shm_id (segment_frameinfo E (atoi s) j)) =
          unat (max_bytes (segment_header E (atoi s)))"
    using good(6) by auto
  note loop = attach_frames_ok [OF this]
  define tr0 where "tr0 = (if (case getenv_SSR_GLINJECT_DEBUG E of None \<Rightarrow> False
                                | Some debug_str \<Rightarrow> atoi debug_str > 0)
                           then [Message ''GLFrameGrabber created.'', Message ''Debug mode enabled.'']
                           else [Message ''GLFrameGrabber created.''])"
  define tr1 where "tr1 = (if XFixesQueryExtension E then [] else [Warning XFixes_missing])"
  have new: "GLFrameGrabber_new K E =
     Inr (\<lparr>m_width = 0, m_height = 0, m_next_frame_time = hrt_time_micro_start E,
           m_warn_too_small = True, m_warn_too_large = True,
           m_debug = (case getenv_SSR_GLINJECT_DEBUG E of None \<Rightarrow> False
                      | Some debug_str \<Rightarrow> atoi debug_str > 0),
           m_shm_main_ptr = Some (atoi s),
           m_shm_frame_ptrs = map (\<lambda>j. Some (shm_id (segment_frameinfo E (atoi s) j)))
               [0..<unat (ring_buffer_size (segment_header E (atoi s)))],
           m_ring_buffer_size = ring_buffer_size (segment_header E (atoi s)),
           m_max_bytes = max_bytes (segment_header E (atoi s)),
           m_target_fps = target_fps (segment_header E (atoi s)),
           m_flags = flags (segment_header E (atoi s)),
           m_gl_version = 0, m_has_xfixes = XFixesQueryExtension E\<rparr>,
          tr0 @ Shm_attach (atoi s) #
                   map (\<lambda>j. Shm_attach (shm_id (segment_frameinfo E (atoi s) j)))
                     [0..<unat (ring_buffer_size (segment_header E (atoi s)))] @ tr1)"
    using env good(1-5)
    by (simp add: GLFrameGrabber_new_def Let_def shmat_def loop word_one_le linorder_not_less
                  mult.commute tr0_def tr1_def)
  have nd: "shm_events tr0 = []" "shm_events tr1 = []"
    by (simp_all add: tr0_def tr1_def shm_events_def)
  show ?thesis
    by (intro exI conjI, rule new, rule nd(1), rule nd(2)) simp_all
qed

lemma shm_events_append: "shm_events (xs @ ys) = shm_events xs @ shm_events ys"
  by (simp add: shm_events_def)

lemma shm_events_Cons_attach: "shm_events (Shm_attach p # xs) = Shm_attach p # shm_events xs"
  by (simp add: shm_events_def)

lemma shm_events_attach: "shm_events (map (\<lambda>j. Shm_attach (f j)) js) = map (\<lambda>j. Shm_attach (f j)) js"
  by (induction js) (simp_all add: shm_events_def)

lemma shm_events_none:
  "\<forall>e \<in> set tr. (case e of Shm_attach shmid \<Rightarrow> False | Shm_detach shmid \<Rightarrow> False | _ \<Rightarrow> True) \<Longrightarrow>
   shm_events tr = []"
  by (induction tr) (auto simp add: shm_events_def split: effect.splits)

lemma release_frames_all:
  "release_frames (map Some ids) tr = tr @ map Shm_detach (rev ids)"
proof (induction ids arbitrary: tr rule: rev_induct)
  case Nil
  show ?case by (simp add: release_frames.simps [of "[]"])
next
  case (snoc x xs)
  show ?case
    using snoc [of "tr @ [Shm_detach x]"]
    by (simp add: release_frames.simps [of "map Some xs @ [Some x]"])
qed

lemma new_success:
  assumes env: "getenv_SSR_GLINJECT_SHM E = Some s"
    and good: "shm_attachable E (atoi s)"
         "1 \<le> ring_buffer_size (segment_header E (atoi s))"
         "ring_buffer_size (segment_header E (atoi s)) \<le> 1000"
         "max_bytes (segment_header E (atoi s)) \<le> 1024 * 1024 * 1024"
         "shmsize E (atoi s) =
           sizeof_GLInjectHeader K
             + unat (ring_buffer_size (segment_header E (atoi s))) * sizeof_GLInjectFrameInfo K"
         "\<forall>i \<in> {..<unat (ring_buffer_size (segment_header E (atoi s)))}.
            shm_attachable E (shm_id (segment_frameinfo E (atoi s) i)) \<and>
            shmsize E (shm_id (segment_frameinfo E (atoi s) i)) =
              unat (max_bytes (segment_header E (atoi s)))"
  shows "\<exists>g tr. GLFrameGrabber_new K E = Inr (g, tr) \<and>
           shm_events tr = map Shm_attach (attached_segments E) \<and>
           m_shm_main_ptr g # m_shm_frame_ptrs g = map Some (attached_segments E) \<and>
           m_ring_buffer_size g = ring_buffer_size (segment_header E (atoi s)) \<and>
           m_max_bytes g = max_bytes (segment_header E (atoi s)) \<and>
           m_warn_too_small g \<and> m_warn_too_large g"
proof -
  from new_ok [OF env good] obtain g tr0 tr1 where
    new: "GLFrameGrabber_new K E =
           Inr (g, tr0 @ Shm_attach (atoi s) #
                   map (\<lambda>j. Shm_attach (shm_id (segment_frameinfo E (atoi s) j)))
                     [0..<unat (ring_buffer_size (segment_header E (atoi s)))] @ tr1)"
    and quiet: "shm_events tr0 = []" "shm_events tr1 = []"
    and g: "m_shm_main_ptr g = Some (atoi s)"
           "m_shm_frame_ptrs g =
             map (\<lambda>j. Some (shm_id (segment_frameinfo E (atoi s) j)))
               [0..<unat (ring_buffer_size (segment_header E (atoi s)))]"
           "m_ring_buffer_size g = ring_buffer_size (segment_header E (atoi s))"
           "m_max_bytes g = max_bytes (segment_header E (atoi s))"
           "m_warn_too_small g" "m_warn_too_large g"
    by auto
  have ev: "shm_events (tr0 @ Shm_attach (atoi s) #
                   map (\<lambda>j. Shm_attach (shm_id (segment_frameinfo E (atoi s) j)))
                     [0..<unat (ring_buffer_size (segment_header E (atoi s)))] @ tr1) =
            map Shm_attach (attached_segments E)"
    by (simp add: shm_events_append shm_events_Cons_attach shm_events_attach quiet
                  attached_segments_def env)
  have ptrs: "m_shm_main_ptr g # m_shm_frame_ptrs g = map Some (attached_segments E)"
    by (simp add: g attached_segments_def env)
  show ?thesis
    using new ev ptrs g(3-6) by simp
qed

text \<open>
  Claim C8, amended. The constructor exits if and only if one of these fails: the
  environment identifier is present, the main segment attaches, the ring size is in
  1..1000, the byte count is at most 1 GiB, the main segment has the size of the header
  and the descriptor table, every payload segment attaches and has \<open>max_bytes\<close> bytes.
  Every exit has the status \<open>-181818181\<close>. When the constructor returns, the main segment
  and every payload segment have been attached, in this order, none has been detached,
  and the grabber holds their pointers.
\<close>

theorem attach_exits_iff_a_check_fails:
  "((\<exists>tr. GLFrameGrabber_new K E = Inl (EXIT_STATUS, tr)) \<longleftrightarrow>
      \<not> (main_attaches E \<and> listed_conditions K E)) \<and>
   (\<forall>st tr. GLFrameGrabber_new K E = Inl (st, tr) \<longrightarrow> st = EXIT_STATUS) \<and>
   (\<forall>g tr. GLFrameGrabber_new K E = Inr (g, tr) \<longrightarrow>
      shm_events tr = map Shm_attach (attached_segments E) \<and>
      m_shm_main_ptr g # m_shm_frame_ptrs g = map Some (attached_segments E) \<and>
      length (m_shm_frame_ptrs g) = unat (m_ring_buffer_size g))"
proof (cases "getenv_SSR_GLINJECT_SHM E")
  case None
  from new_no_env [OF None, of K] obtain tr where "GLFrameGrabber_new K E = Inl (EXIT_STATUS, tr)"
    by blast
  then show ?thesis
    by (simp add: main_attaches_def None)
next
  case (Some s)
  show ?thesis
  proof (cases "main_attaches E \<and> listed_conditions K E")
    case True
    then have good: "shm_attachable E (atoi s)"
         "1 \<le> ring_buffer_size (segment_header E (atoi s))"
         "ring_buffer_size (segment_header E (atoi s)) \<le> 1000"
         "max_bytes (segment_header E (atoi s)) \<le> 1024 * 1024 * 1024"
         "shmsize E (atoi s) =
           sizeof_GLInjectHeader K
             + unat (ring_buffer_size (segment_header E (atoi s))) * sizeof_GLInjectFrameInfo K"
         "\<forall>i \<in> {..<unat (ring_buffer_size (segment_header E (atoi s)))}.
            shm_attachable E (shm_id (segment_frameinfo E (atoi s) i)) \<and>
            shmsize E (shm_id (segment_frameinfo E (atoi s) i)) =
              unat (max_bytes (segment_header E (atoi s)))"
      by (simp_all add: main_attaches_def listed_conditions_def Some Let_def)
    from new_success [OF Some good] obtain g tr where
      new: "GLFrameGrabber_new K E = Inr (g, tr)"
      and ev: "shm_events tr = map Shm_attach (attached_segments E)"
      and ptrs: "m_shm_main_ptr g # m_shm_frame_ptrs g = map Some (attached_segments E)"
      and n: "m_ring_buffer_size g = ring_buffer_size (segment_header E (atoi s))"
      by auto
    have "length (m_shm_main_ptr g # m_shm_frame_ptrs g) = length (attached_segments E)"
      by (simp add: ptrs)
    then have len: "length (m_shm_frame_ptrs g) = unat (m_ring_buffer_size g)"
      by (simp add: attached_segments_def Some n)
    show ?thesis
      using True by (simp add: new ev ptrs len)
  next
    case False
    then have bad: "\<not> (shm_attachable E (atoi s) \<and>
         1 \<le> ring_buffer_size (segment_header E (atoi s)) \<and>
         ring_buffer_size (segment_header E (atoi s)) \<le> 1000 \<and>
         max_bytes (segment_header E (atoi s)) \<le> 1024 * 1024 * 1024 \<and>
         shmsize E (atoi s) =
           sizeof_GLInjectHeader K
             + unat (ring_buffer_size (segment_header E (atoi s))) * sizeof_GLInjectFrameInfo K \<and>
         (\<forall>i \<in> {..<unat (ring_buffer_size (segment_header E (atoi s)))}.
            shm_attachable E (shm_id (segment_frameinfo E (atoi s) i)) \<and>
            shmsize E (shm_id (segment_frameinfo E (atoi s) i)) =
              unat (max_bytes (segment_header E (atoi s)))))"
      by (simp add: main_attaches_def listed_conditions_def Some Let_def)
    from new_fail [OF Some bad] obtain tr where "GLFrameGrabber_new K E = Inl (EXIT_STATUS, tr)"
      by blast
    then show ?thesis
      using False by simp
  qed
qed

lemma atoi_10: "atoi ''10'' = 10"
  by (simp add: atoi_def strtol_def isspace_def isdigit_def digit_value_def)

lemma example_attach_env_fields:
  "getenv_SSR_GLINJECT_SHM example_attach_env = Some ''10''"
  "segment_header example_attach_env 10 = example_header"
  "shm_attachable example_attach_env = (\<lambda>shmid. True)"
  "shmsize example_attach_env 10 = 100"
  "shmsize example_attach_env 11 = 64"
  "shmsize example_attach_env 12 = 64"
  "shm_id (segment_frameinfo example_attach_env 10 0) = 11"
  "shm_id (segment_frameinfo example_attach_env 10 (Suc 0)) = 12"
  by (simp_all add: example_attach_env_def shmsize_def)

lemma ball_below_2: "(\<forall>i \<in> {..<2 :: nat}. P i) = (P 0 \<and> P (Suc 0))"
proof -
  have "{..<2 :: nat} = {0, Suc 0}" by auto
  then show ?thesis by simp
qed

lemma upt_2: "[0..<2 :: nat] = [0, Suc 0]"
  by (simp add: upt_conv_Cons)

lemma example_attach_env_wrong_size_fields:
  "getenv_SSR_GLINJECT_SHM example_attach_env_wrong_size = Some ''10''"
  "segment_header example_attach_env_wrong_size 10 = example_header"
  "shmsize example_attach_env_wrong_size 12 = 32"
  "shm_id (segment_frameinfo example_attach_env_wrong_size 10 (Suc 0)) = 12"
  by (simp_all add: example_attach_env_wrong_size_def example_attach_env_def shmsize_def)

lemma example_attach_env_main_refused_fields:
  "getenv_SSR_GLINJECT_SHM example_attach_env_main_refused = Some ''10''"
  "getenv_SSR_GLINJECT_DEBUG example_attach_env_main_refused = None"
  "segment_header example_attach_env_main_refused 10 = example_header"
  "shm_attachable example_attach_env_main_refused = (\<lambda>shmid. shmid \<noteq> 10)"
  "shmsize example_attach_env_main_refused 10 = 100"
  "shmsize example_attach_env_main_refused 11 = 64"
  "shmsize example_attach_env_main_refused 12 = 64"
  "shm_id (segment_frameinfo example_attach_env_main_refused 10 0) = 11"
  "shm_id (segment_frameinfo example_attach_env_main_refused 10 (Suc 0)) = 12"
  by (simp_all add: example_attach_env_main_refused_def example_attach_env_def shmsize_def)

lemma example_header_fields:
  "ring_buffer_size example_header = 2"
  "max_bytes example_header = 64"
  by (simp_all add: example_header_def)

lemma example_consts_sizes:
  "sizeof_GLInjectHeader example_consts = 52"
  "sizeof_GLInjectFrameInfo example_consts = 24"
  by (simp_all add: example_consts_def)

theorem attach_exits_iff_a_check_fails_witness:
  "(\<exists>g tr. GLFrameGrabber_new example_consts example_attach_env = Inr (g, tr) \<and>
      m_shm_main_ptr g = Some 10 \<and> m_shm_frame_ptrs g = [Some 11, Some 12] \<and>
      shm_events tr = [Shm_attach 10, Shm_attach 11, Shm_attach 12]) \<and>
   (\<exists>tr. GLFrameGrabber_new example_consts example_attach_env_wrong_size = Inl (EXIT_STATUS, tr))"
proof
  have c: "main_attaches example_attach_env \<and> listed_conditions example_consts example_attach_env"
    by (simp add: main_attaches_def listed_conditions_def example_attach_env_fields atoi_10
                  example_header_fields example_consts_sizes ball_below_2 word_le_def)
  have segs: "attached_segments example_attach_env = [10, 11, 12]"
    by (simp add: attached_segments_def example_attach_env_fields atoi_10 example_header_fields
                  upt_2)
  note T = attach_exits_iff_a_check_fails [of example_consts example_attach_env]
  from T c have no: "\<not> (\<exists>tr. GLFrameGrabber_new example_consts example_attach_env = Inl (EXIT_STATUS, tr))"
    by blast
  from T have st: "\<forall>st tr. GLFrameGrabber_new example_consts example_attach_env = Inl (st, tr)
                     \<longrightarrow> st = EXIT_STATUS"
    by blast
  obtain g tr where new: "GLFrameGrabber_new example_consts example_attach_env = Inr (g, tr)"
    using no st by (cases "GLFrameGrabber_new example_consts example_attach_env") auto
  from T new have "shm_events tr = map Shm_attach (attached_segments example_attach_env) \<and>
      m_shm_main_ptr g # m_shm_frame_ptrs g = map Some (attached_segments example_attach_env)"
    by blast
  then have "m_shm_main_ptr g = Some 10 \<and> m_shm_frame_ptrs g = [Some 11, Some 12] \<and>
      shm_events tr = [Shm_attach 10, Shm_attach 11, Shm_attach 12]"
    by (simp add: segs)
  with new show "\<exists>g tr. GLFrameGrabber_new example_consts example_attach_env = Inr (g, tr) \<and>
      m_shm_main_ptr g = Some 10 \<and> m_shm_frame_ptrs g = [Some 11, Some 12] \<and>
      shm_events tr = [Shm_attach 10, Shm_attach 11, Shm_attach 12]"
    by blast
next
  have c: "\<not> listed_conditions example_consts example_attach_env_wrong_size"
    by (simp add: listed_conditions_def example_attach_env_wrong_size_fields atoi_10
                  example_header_fields example_consts_sizes ball_below_2 word_le_def)
  with attach_exits_iff_a_check_fails [of example_consts example_attach_env_wrong_size]
  show "\<exists>tr. GLFrameGrabber_new example_consts example_attach_env_wrong_size = Inl (EXIT_STATUS, tr)"
    by blast
qed

text \<open>
  Claim C8 as stated (the exit happens "if and only if" one of the listed conditions
  fails): the identifier is present, the ring has 2 slots, \<open>max_bytes\<close> is 64, the main
  segment has 52 + 2 * 24 bytes, both payload segments attach and have 64 bytes, but the
  main segment itself cannot be attached, and the constructor exits.
\<close>

theorem main_attach_failure_is_fatal:
  "getenv_SSR_GLINJECT_SHM example_attach_env_main_refused = Some ''10'' \<and>
   ring_buffer_size (segment_header example_attach_env_main_refused 10) = 2 \<and>
   max_bytes (segment_header example_attach_env_main_refused 10) = 64 \<and>
   shmsize example_attach_env_main_refused 10 = 52 + 2 * 24 \<and>
   shm_attachable example_attach_env_main_refused 11 \<and>
   shmsize example_attach_env_main_refused 11 = 64 \<and>
   shm_attachable example_attach_env_main_refused 12 \<and>
   shmsize example_attach_env_main_refused 12 = 64 \<and>
   listed_conditions example_consts example_attach_env_main_refused \<and>
   GLFrameGrabber_new example_consts example_attach_env_main_refused =
     Inl (EXIT_STATUS,
          [Message ''GLFrameGrabber created.'', Error ''Cannot attach to main shared memory!''])"
proof -
  have a: "listed_conditions example_consts example_attach_env_main_refused"
    by (simp add: listed_conditions_def example_attach_env_main_refused_fields atoi_10
                  example_header_fields example_consts_sizes ball_below_2 word_le_def)
  have b: "GLFrameGrabber_new example_consts example_attach_env_main_refused =
     Inl (EXIT_STATUS,
          [Message ''GLFrameGrabber created.'', Error ''Cannot attach to main shared memory!''])"
    by (simp add: GLFrameGrabber_new_def example_attach_env_main_refused_fields atoi_10 shmat_def)
  show ?thesis
    by (simp add: a b example_attach_env_main_refused_fields example_header_fields)
qed

end
